(* ===== verification/Helios_Prelude.thy ===== *)
theory Helios_Prelude
  imports Main "HOL-Library.Word" "HOL-Library.List_Lexorder"
begin

text \<open>
  The shared ground of the development: the model's names for Go's basic types, Go's map
  reads, the big-endian value of a byte string, and the generic facts on lists and words that
  the component theories use.  Nothing here is specific to one component.

  \<^item> \<open>byte\<close> is Go's \<^verbatim>\<open>byte\<close>/\<^verbatim>\<open>uint8\<close>, \<open>u32\<close> its \<^verbatim>\<open>uint32\<close>, \<open>i32\<close> its \<^verbatim>\<open>int32\<close>; arithmetic on
    them wraps.
  \<^item> \<open>be_val\<close> reads a byte list as a big-endian number; lists of one length are ordered
    lexicographically exactly as their values are (\<open>be_val_less_iff\<close>).
  \<^item> The collection \<open>be_simps\<close> holds the rewrite rules for \<open>be_val\<close>; \<open>go_eval\<close> holds the
    equations by which the simplifier evaluates the model on concrete inputs.
\<close>

named_theorems be_simps
named_theorems go_eval

type_synonym byte = "8 word"
type_synonym u32 = "32 word"
type_synonym i32 = "32 word"

section \<open>Go maps\<close>

text \<open>Reading a missing key of a \<^verbatim>\<open>map[K]bool\<close> yields the zero value \<^verbatim>\<open>false\<close>.\<close>

definition map_bool :: "('k \<rightharpoonup> bool) \<Rightarrow> 'k \<Rightarrow> bool" where
  "map_bool m k = (case m k of None \<Rightarrow> False | Some b \<Rightarrow> b)"

lemma map_bool_upd [simp]: "map_bool (m(k \<mapsto> b)) k' = (if k' = k then b else map_bool m k')"
  by (simp add: map_bool_def)

lemma map_bool_delete [simp]: "map_bool (m(k := None)) k' = (k' \<noteq> k \<and> map_bool m k')"
  by (simp add: map_bool_def)

lemma map_bool_empty [simp]: "map_bool Map.empty k = False"
  by (simp add: map_bool_def)

section \<open>Evaluation on numerals\<close>

text \<open>The \<^verbatim>\<open>seen\<close> map of a loop that looks for duplicates.\<close>

lemma seen_step:
  "(\<forall>x \<in> set xs. \<not> map_bool (seen(k \<mapsto> True)) (f x)) \<longleftrightarrow>
     k \<notin> f ` set xs \<and> (\<forall>x \<in> set xs. \<not> map_bool seen (f x))"
  by (auto simp: map_bool_def)

lemma replicate_numeral_eval [go_eval]: "replicate (numeral k) x = x # replicate (pred_numeral k) x"
  by (simp add: numeral_eq_Suc)

section \<open>Big-endian values\<close>

definition be_val :: "byte list \<Rightarrow> nat" where
  "be_val bs = foldl (\<lambda>acc b. acc * 256 + unat b) 0 bs"

lemma unat_byte_less: "unat (b :: byte) < 256"
  using unsigned_less [of b] by simp

lemma unat_byte_le: "unat (b :: byte) \<le> 255"
  using unat_byte_less [of b] by linarith

lemma foldl_be: "foldl (\<lambda>acc b. acc * 256 + unat b) a bs = a * 256 ^ length bs + be_val (bs :: byte list)"
proof (induction bs arbitrary: a)
  case Nil
  then show ?case by (simp add: be_val_def)
next
  case (Cons b bs)
  have "be_val (b # bs) = unat b * 256 ^ length bs + be_val bs"
    by (simp only: be_val_def [of "b # bs"] foldl.simps mult_zero_left add_0 Cons.IH)
  then show ?case
    by (simp add: Cons.IH add_mult_distrib)
qed

lemma be_val_Nil [be_simps, simp]: "be_val [] = 0"
  by (simp add: be_val_def)

lemma be_val_Cons [be_simps]: "be_val (b # bs) = unat b * 256 ^ length bs + be_val bs"
  using foldl_be [of "unat b" bs] by (simp add: be_val_def [of "b # bs"])

lemma be_val_snoc [be_simps]: "be_val (bs @ [b]) = be_val bs * 256 + unat b"
  by (simp add: be_val_def)

lemma be_val_append: "be_val (xs @ ys) = be_val xs * 256 ^ length ys + be_val ys"
  using foldl_be [of "be_val xs" ys] by (simp add: be_val_def [of "xs @ ys"] be_val_def [of xs])

lemma be_val_less: "be_val bs < 256 ^ length bs"
proof (induction bs)
  case (Cons b bs)
  have "unat b * 256 ^ length bs + be_val bs < unat b * 256 ^ length bs + 256 ^ length bs"
    using Cons.IH by simp
  also have "\<dots> = (unat b + 1) * 256 ^ length bs" by simp
  also have "\<dots> \<le> 256 * 256 ^ length bs"
    using unat_byte_le [of b] by (intro mult_le_mono1) simp
  finally show ?case by (simp add: be_val_Cons)
qed simp

lemma be_val_less_iff: "length xs = length ys \<Longrightarrow> xs < ys \<longleftrightarrow> be_val xs < be_val ys"
proof (induction xs ys rule: list_induct2)
  case (Cons x xs y ys)
  let ?k = "256 ^ length xs :: nat"
  have bounds: "be_val xs < ?k" "be_val ys < ?k"
    using be_val_less [of xs] be_val_less [of ys] Cons.hyps by simp_all
  have step: "unat a * ?k + u < unat b * ?k + v" if "a < b" "u < ?k" for a b :: byte and u v
  proof -
    have "unat a + 1 \<le> unat b" using that(1) by (simp add: word_less_nat_alt)
    then have "(unat a + 1) * ?k \<le> unat b * ?k" by (rule mult_le_mono1)
    with that(2) show ?thesis by (simp add: algebra_simps)
  qed
  show ?case
  proof (cases x y rule: linorder_cases)
    case less
    with step [OF less bounds(1)] Cons.hyps show ?thesis by (simp add: be_val_Cons)
  next
    case equal
    with Cons show ?thesis by (simp add: be_val_Cons)
  next
    case greater
    with step [OF greater bounds(2), of "be_val xs"] Cons.hyps show ?thesis
      by (auto simp add: be_val_Cons)
  qed
qed simp

lemma be_val_inject: "length xs = length ys \<Longrightarrow> be_val xs = be_val ys \<longleftrightarrow> xs = ys"
  using be_val_less_iff [of xs ys] be_val_less_iff [of ys xs]
  by (cases xs ys rule: linorder_cases) auto

lemma be_val_le_iff: "length xs = length ys \<Longrightarrow> xs \<le> ys \<longleftrightarrow> be_val xs \<le> be_val ys"
  using be_val_less_iff [of ys xs] by (simp add: not_less [symmetric])

text \<open>Every number below \<open>256 ^ n\<close> is the value of a byte list of length \<open>n\<close>.\<close>

primrec be_bytes :: "nat \<Rightarrow> nat \<Rightarrow> byte list" where
  "be_bytes 0 v = []"
| "be_bytes (Suc n) v = be_bytes n (v div 256) @ [of_nat (v mod 256)]"

lemma length_be_bytes [simp]: "length (be_bytes n v) = n"
  by (induction n arbitrary: v) simp_all

lemma be_val_be_bytes: "be_val (be_bytes n v) = v mod 256 ^ n"
proof (induction n arbitrary: v)
  case (Suc n)
  have "unat (of_nat (v mod 256) :: byte) = v mod 256"
    by (simp add: unat_of_nat)
  moreover have "v mod 256 ^ Suc n = 256 * (v div 256 mod 256 ^ n) + v mod 256"
    by (simp only: power_Suc mod_mult2_eq)
  ultimately show ?case
    by (simp only: be_bytes.simps be_val_snoc Suc.IH mult.commute)
qed simp

lemma be_bytes_be_val [simp]: "be_bytes (length bs) (be_val bs) = bs"
proof -
  have "be_val (be_bytes (length bs) (be_val bs)) = be_val bs"
    by (simp add: be_val_be_bytes be_val_less)
  then show ?thesis using be_val_inject [of "be_bytes (length bs) (be_val bs)" bs] by simp
qed

section \<open>Bytes at their ends\<close>

lemma unat_inc_byte: "unat (b + 1 :: byte) = (if b + 1 = 0 then 0 else unat b + 1)"
proof -
  have "unat (b + 1) = (unat b + 1) mod 256" by (simp add: unat_word_ariths)
  moreover have "b + 1 = 0 \<longleftrightarrow> unat (b + 1) = 0" by (simp add: unat_eq_zero)
  ultimately show ?thesis using unat_byte_le [of b] by (cases "unat b = 255") auto
qed

lemma unat_wrap_byte: "(b :: byte) + 1 = 0 \<longleftrightarrow> unat b = 255"
proof -
  have "unat (b + 1) = (unat b + 1) mod 256" by (simp add: unat_word_ariths)
  moreover have "b + 1 = 0 \<longleftrightarrow> unat (b + 1) = 0" by (simp add: unat_eq_zero)
  ultimately show ?thesis using unat_byte_le [of b] by (cases "unat b = 255") auto
qed

lemma unat_minus1_byte [simp]: "unat (- 1 :: byte) = 255"
proof -
  have "(- 1 :: byte) = 255" by simp
  then have "unat (- 1 :: byte) = unat (255 :: byte)" by (simp only:)
  then show ?thesis by simp
qed

lemma unat_dec_byte: "unat (b - 1 :: byte) = (if b = 0 then 255 else unat b - 1)"
  by (cases "b = 0") (simp_all add: unat_minus_one)

lemma dec_byte_wraps: "(b :: byte) - 1 = 0xFF \<longleftrightarrow> b = 0"
proof -
  have "b - 1 = 0xFF \<longleftrightarrow> unat (b - 1) = unat (0xFF :: byte)"
    by (simp only: word_unat_eq_iff)
  also have "\<dots> \<longleftrightarrow> b = 0"
    using unat_byte_le [of b] by (cases "b = 0") (simp_all add: unat_dec_byte)
  finally show ?thesis .
qed

section \<open>Byte lists of different lengths\<close>

lemma list_le_take: "length t \<le> length e \<Longrightarrow> t \<le> take (length t) e \<Longrightarrow> t \<le> (e :: 'a :: linorder list)"
proof (induction t arbitrary: e)
  case (Cons a t)
  then show ?case by (cases e) auto
qed simp

lemma list_less_take: "length t \<le> length s \<Longrightarrow> take (length t) s < t \<Longrightarrow> (s :: 'a :: linorder list) < t"
proof (induction t arbitrary: s)
  case (Cons a t)
  then show ?case by (cases s) auto
qed simp

section \<open>Association lists that stand for Go maps\<close>

primrec map_set :: "'k \<Rightarrow> 'v \<Rightarrow> ('k \<times> 'v) list \<Rightarrow> ('k \<times> 'v) list" where
  "map_set k v [] = [(k, v)]"
| "map_set k v (p # m) = (if fst p = k then (k, v) # m else p # map_set k v m)"

lemma map_of_map_set [simp]: "map_of (map_set k v m) = (map_of m)(k \<mapsto> v)"
  by (induction m) auto

lemma dom_map_set: "fst ` set (map_set k v m) = insert k (fst ` set m)"
  by (induction m) auto

lemma distinct_map_set: "distinct (map fst m) \<Longrightarrow> distinct (map fst (map_set k v m))"
proof (induction m)
  case (Cons p m)
  then show ?case using dom_map_set [of k v m] by (cases "fst p = k") auto
qed simp

lemma length_map_set: "length (map_set k v m) = (if k \<in> fst ` set m then length m else length m + 1)"
  by (induction m) auto

lemma set_map_set: "distinct (map fst m) \<Longrightarrow> set (map_set k v m) = insert (k, v) {p \<in> set m. fst p \<noteq> k}"
proof (induction m)
  case (Cons p m)
  then show ?case by (cases "fst p = k") (auto intro: rev_image_eqI)
qed simp

lemma values_map_set: "snd ` set (map_set n x l) \<subseteq> insert x (snd ` set l)"
  by (induction l) auto

lemma distinct_values_map_set: "distinct (map snd l) \<Longrightarrow> x \<notin> snd ` set l \<Longrightarrow> distinct (map snd (map_set n x l))"
proof (induction l)
  case (Cons p l)
  then show ?case using values_map_set [of n x l] by (cases p) auto
qed simp

lemma insert_fresh_disjoint:
  "A \<subseteq> insert x B \<Longrightarrow> B \<inter> C = {} \<Longrightarrow> x \<notin> H \<Longrightarrow> V \<inter> insert x H = {} \<Longrightarrow> B \<subseteq> H \<Longrightarrow> C \<subseteq> H \<Longrightarrow> A \<inter> (C \<union> V) = {}"
  by blast

lemma map_set_overwrite: "map_set n y (map_set n x l) = map_set n y l"
  by (induction l) auto

end
