(* ===== verification/Go_Strings.thy ===== *)
theory Go_Strings
  imports Helios_Prelude
begin

text \<open>
  What the program uses of Go's \<^verbatim>\<open>strings\<close> and \<^verbatim>\<open>bytes\<close> packages.  A Go string is its UTF-8
  bytes, here a \<open>char list\<close>.

  \<^item> \<open>TrimSpace\<close> is \<^verbatim>\<open>strings.TrimSpace\<close>: it cuts every rune of Unicode's white space from both
    ends.  \<open>space_prefix\<close> and \<open>space_suffix\<close> give the width in bytes of the white-space rune at
    an end (0 when there is none; a malformed sequence is no white space).
  \<^item> \<open>Contains\<close> and \<open>Split\<close> are \<^verbatim>\<open>strings.Contains\<close> and \<^verbatim>\<open>strings.Split\<close> with a one-byte
    separator, the only way the program calls them.
  \<^item> \<open>bytes_Compare\<close> is \<^verbatim>\<open>bytes.Compare\<close>; \<open>bytes_Compare_eq\<close> shows it is the library's
    lexicographic order on lists.
\<close>

section \<open>strings.TrimSpace\<close>

definition ascii_space :: "char \<Rightarrow> bool" where
  "ascii_space c = (of_char c = (32::nat) \<or> (9 \<le> (of_char c :: nat) \<and> of_char c \<le> (13::nat)))"

text \<open>The white-space runes beyond ASCII, by their UTF-8 bytes: U+0085, U+00A0, U+1680,
  U+2000 to U+200A, U+2028, U+2029, U+202F, U+205F and U+3000.\<close>

definition space_bytes2 :: "nat \<Rightarrow> nat \<Rightarrow> bool" where
  "space_bytes2 a b = (a = 0xC2 \<and> (b = 0x85 \<or> b = 0xA0))"

definition space_bytes3 :: "nat \<Rightarrow> nat \<Rightarrow> nat \<Rightarrow> bool" where
  "space_bytes3 a b c =
     ((a = 0xE1 \<and> b = 0x9A \<and> c = 0x80)
    \<or> (a = 0xE2 \<and> b = 0x80 \<and> ((0x80 \<le> c \<and> c \<le> 0x8A) \<or> c = 0xA8 \<or> c = 0xA9 \<or> c = 0xAF))
    \<or> (a = 0xE2 \<and> b = 0x81 \<and> c = 0x9F)
    \<or> (a = 0xE3 \<and> b = 0x80 \<and> c = 0x80))"

definition space_prefix :: "string \<Rightarrow> nat" where
  "space_prefix s =
     (case s of
        [] \<Rightarrow> 0
      | a # s1 \<Rightarrow>
          if ascii_space a then 1
          else (case s1 of
             [] \<Rightarrow> 0
           | b # s2 \<Rightarrow>
               if space_bytes2 (of_char a) (of_char b) then 2
               else (case s2 of
                  [] \<Rightarrow> 0
                | c # _ \<Rightarrow> if space_bytes3 (of_char a) (of_char b) (of_char c) then 3 else 0)))"

text \<open>The same at the end of a string, which is given reversed.\<close>

definition space_suffix :: "string \<Rightarrow> nat" where
  "space_suffix r =
     (case r of
        [] \<Rightarrow> 0
      | c # r1 \<Rightarrow>
          if ascii_space c then 1
          else (case r1 of
             [] \<Rightarrow> 0
           | b # r2 \<Rightarrow>
               if space_bytes2 (of_char b) (of_char c) then 2
               else (case r2 of
                  [] \<Rightarrow> 0
                | a # _ \<Rightarrow> if space_bytes3 (of_char a) (of_char b) (of_char c) then 3 else 0)))"

lemma space_prefix_Nil [simp]: "space_prefix [] = 0" and space_suffix_Nil [simp]: "space_suffix [] = 0"
  by (simp_all add: space_prefix_def space_suffix_def)

lemma space_prefix_pos: "0 < space_prefix s \<Longrightarrow> length s - space_prefix s < length s"
  and space_suffix_pos: "0 < space_suffix s \<Longrightarrow> length s - space_suffix s < length s"
  by (cases s; simp)+

function trim_left :: "string \<Rightarrow> string" where
  "trim_left s = (if space_prefix s = 0 then s else trim_left (drop (space_prefix s) s))"
  by pat_completeness auto
termination
  by (relation "measure length") (auto dest: space_prefix_pos)

function trim_right_rev :: "string \<Rightarrow> string" where
  "trim_right_rev r = (if space_suffix r = 0 then r else trim_right_rev (drop (space_suffix r) r))"
  by pat_completeness auto
termination
  by (relation "measure length") (auto dest: space_suffix_pos)

declare trim_left.simps [simp del] trim_right_rev.simps [simp del]

definition TrimSpace :: "string \<Rightarrow> string" where
  "TrimSpace s = rev (trim_right_rev (rev (trim_left s)))"

text \<open>A string of printable ASCII characters has nothing to trim.\<close>

definition plain_char :: "char \<Rightarrow> bool" where
  "plain_char c = (32 < (of_char c :: nat) \<and> of_char c < (128::nat))"

lemma space_prefix_plain: "plain_char a \<Longrightarrow> space_prefix (a # s) = 0"
  by (auto simp: space_prefix_def plain_char_def ascii_space_def space_bytes2_def space_bytes3_def
      split: list.splits)

lemma space_suffix_plain: "plain_char a \<Longrightarrow> space_suffix (a # s) = 0"
  by (auto simp: space_suffix_def plain_char_def ascii_space_def space_bytes2_def space_bytes3_def
      split: list.splits)

lemma trim_left_plain: "(s \<noteq> [] \<Longrightarrow> plain_char (hd s)) \<Longrightarrow> trim_left s = s"
  by (subst trim_left.simps, cases s) (simp_all add: space_prefix_plain)

lemma trim_right_rev_plain: "(s \<noteq> [] \<Longrightarrow> plain_char (hd s)) \<Longrightarrow> trim_right_rev s = s"
  by (subst trim_right_rev.simps, cases s) (simp_all add: space_suffix_plain)

lemma TrimSpace_plain_ends:
  assumes "s \<noteq> [] \<Longrightarrow> plain_char (hd s)" and "s \<noteq> [] \<Longrightarrow> plain_char (last s)"
  shows "TrimSpace s = s"
proof -
  have "trim_left s = s" using assms(1) by (rule trim_left_plain)
  moreover have "trim_right_rev (rev s) = rev s"
    using assms(2) by (intro trim_right_rev_plain) (simp add: hd_rev)
  ultimately show ?thesis by (simp add: TrimSpace_def)
qed

lemma TrimSpace_plain [simp]: "list_all plain_char s \<Longrightarrow> TrimSpace s = s"
  by (rule TrimSpace_plain_ends) (auto simp: list_all_iff)

text \<open>Trimming reaches a fixed point: a trimmed string has no white space left at either end.\<close>

lemma space_prefix_trim_left: "space_prefix (trim_left s) = 0"
proof (induction s rule: trim_left.induct)
  case (1 s)
  then show ?case by (cases "space_prefix s = 0") (simp_all add: trim_left.simps [of s])
qed

lemma trim_left_Nil [simp]: "trim_left [] = []" and TrimSpace_Nil [simp]: "TrimSpace [] = []"
  by (simp_all add: trim_left.simps [of "[]"] TrimSpace_plain_ends)

text \<open>Only white space is trimmed, so a printable ASCII character is in the trimmed string when it
  is in the string.\<close>

lemma ascii_space_not_plain: "ascii_space c \<Longrightarrow> \<not> plain_char c"
  unfolding ascii_space_def plain_char_def by linarith

lemma space_bytes2_not_plain:
  "space_bytes2 (of_char a) (of_char b) \<Longrightarrow> \<not> plain_char a \<and> \<not> plain_char b"
  by (auto simp: space_bytes2_def plain_char_def)

lemma space_bytes3_high: "space_bytes3 a b c \<Longrightarrow> 128 \<le> a \<and> 128 \<le> b \<and> 128 \<le> c"
  unfolding space_bytes3_def by (elim disjE conjE) simp_all

lemma space_bytes3_not_plain:
  "space_bytes3 (of_char a) (of_char b) (of_char c) \<Longrightarrow> \<not> plain_char a \<and> \<not> plain_char b \<and> \<not> plain_char c"
  by (drule space_bytes3_high) (simp add: plain_char_def)

lemmas space_not_plain = ascii_space_not_plain space_bytes2_not_plain space_bytes3_not_plain

lemma space_prefix_not_plain: "plain_char c \<Longrightarrow> c \<notin> set (take (space_prefix s) s)"
  by (auto simp: space_prefix_def dest: space_not_plain split: list.splits if_splits)

lemma space_suffix_not_plain: "plain_char c \<Longrightarrow> c \<notin> set (take (space_suffix s) s)"
  by (auto simp: space_suffix_def dest: space_not_plain split: list.splits if_splits)

lemma set_take_drop: "x \<notin> set (take n s) \<Longrightarrow> x \<in> set (drop n s) \<longleftrightarrow> x \<in> set s"
  by (metis UnE append_take_drop_id in_set_dropD set_append)

lemma trim_left_keeps: "plain_char c \<Longrightarrow> c \<in> set (trim_left s) \<longleftrightarrow> c \<in> set s"
proof (induction s rule: trim_left.induct)
  case (1 s)
  then show ?case
    by (cases "space_prefix s = 0")
       (simp_all add: trim_left.simps [of s] set_take_drop [OF space_prefix_not_plain])
qed

lemma trim_right_rev_keeps: "plain_char c \<Longrightarrow> c \<in> set (trim_right_rev s) \<longleftrightarrow> c \<in> set s"
proof (induction s rule: trim_right_rev.induct)
  case (1 s)
  then show ?case
    by (cases "space_suffix s = 0")
       (simp_all add: trim_right_rev.simps [of s] set_take_drop [OF space_suffix_not_plain])
qed

lemma TrimSpace_keeps: "plain_char c \<Longrightarrow> c \<in> set (TrimSpace s) \<longleftrightarrow> c \<in> set s"
  by (simp add: TrimSpace_def trim_left_keeps trim_right_rev_keeps)

lemma slash_TrimSpace [simp]: "CHR ''/'' \<in> set (TrimSpace s) \<longleftrightarrow> CHR ''/'' \<in> set s"
  by (rule TrimSpace_keeps) (simp add: plain_char_def)

lemma space_suffix_trim_right_rev: "space_suffix (trim_right_rev s) = 0"
proof (induction s rule: trim_right_rev.induct)
  case (1 s)
  then show ?case by (cases "space_suffix s = 0") (simp_all add: trim_right_rev.simps [of s])
qed

lemma space_prefix_shorter: "space_prefix (p @ q) = 0 \<Longrightarrow> space_prefix p = 0"
  by (auto simp: space_prefix_def split: list.splits if_splits)

lemma trim_right_rev_suffix: "\<exists>p. s = p @ trim_right_rev s"
proof (induction s rule: trim_right_rev.induct)
  case (1 s)
  show ?case
  proof (cases "space_suffix s = 0")
    case False
    with 1 obtain p where "drop (space_suffix s) s = p @ trim_right_rev s"
      by (auto simp: trim_right_rev.simps [of s])
    then have "s = (take (space_suffix s) s @ p) @ trim_right_rev s"
      by (metis append.assoc append_take_drop_id)
    then show ?thesis ..
  qed (simp add: trim_right_rev.simps [of s])
qed

lemma TrimSpace_idem [simp]: "TrimSpace (TrimSpace s) = TrimSpace s"
proof -
  obtain p where p: "rev (trim_left s) = p @ trim_right_rev (rev (trim_left s))"
    using trim_right_rev_suffix by blast
  have "trim_left s = TrimSpace s @ rev p"
    using arg_cong [OF p, of rev] by (simp add: TrimSpace_def)
  then have "space_prefix (TrimSpace s) = 0"
    using space_prefix_trim_left [of s] space_prefix_shorter by metis
  then have l: "trim_left (TrimSpace s) = TrimSpace s" by (simp add: trim_left.simps [of "TrimSpace s"])
  have "trim_right_rev (rev (TrimSpace s)) = rev (TrimSpace s)"
    by (subst trim_right_rev.simps) (simp add: TrimSpace_def space_suffix_trim_right_rev)
  then show ?thesis unfolding TrimSpace_def [of "TrimSpace s"] l by simp
qed

section \<open>strings.Contains and strings.Split\<close>

definition Contains :: "string \<Rightarrow> char \<Rightarrow> bool" where
  "Contains s c = List.member s c"

lemma Contains_iff [simp]: "Contains s c \<longleftrightarrow> c \<in> set s"
  by (simp add: Contains_def)

fun Split :: "string \<Rightarrow> char \<Rightarrow> string list" where
  "Split [] sep = [[]]"
| "Split (c # cs) sep =
     (if c = sep then [] # Split cs sep
      else (case Split cs sep of [] \<Rightarrow> [[c]] | p # ps \<Rightarrow> (c # p) # ps))"

lemma Split_nonempty [simp]: "Split s sep \<noteq> []"
  by (cases s) (auto split: list.splits)

lemma Split_no_sep: "sep \<notin> set s \<Longrightarrow> Split s sep = [s]"
  by (induction s) auto

lemma Split_append_sep: "sep \<notin> set s \<Longrightarrow> Split (s @ sep # t) sep = s # Split t sep"
  by (induction s) auto

lemma Split_two: "sep \<notin> set s \<Longrightarrow> sep \<notin> set t \<Longrightarrow> Split (s @ sep # t) sep = [s, t]"
  by (simp add: Split_append_sep Split_no_sep)

text \<open>Splitting loses nothing: joining the parts with the separator gives the string back.\<close>

fun join_sep :: "char \<Rightarrow> string list \<Rightarrow> string" where
  "join_sep sep [] = []"
| "join_sep sep [p] = p"
| "join_sep sep (p # q # ps) = p @ sep # join_sep sep (q # ps)"

lemma join_sep_Cons_char: "ps \<noteq> [] \<Longrightarrow> join_sep sep ((c # hd ps) # tl ps) = c # join_sep sep ps"
  by (cases ps; cases "tl ps") auto

lemma join_sep_Split: "join_sep sep (Split s sep) = s"
proof (induction s)
  case (Cons c cs)
  obtain p ps where pq: "Split cs sep = p # ps" by (cases "Split cs sep") auto
  show ?case
  proof (cases "c = sep")
    case True
    with Cons pq show ?thesis by simp
  next
    case False
    with Cons pq join_sep_Cons_char [of "p # ps" sep c] show ?thesis by simp
  qed
qed simp

section \<open>bytes.Compare\<close>

fun bytes_Compare :: "byte list \<Rightarrow> byte list \<Rightarrow> int" where
  "bytes_Compare [] [] = 0"
| "bytes_Compare [] (b # bs) = -1"
| "bytes_Compare (a # as) [] = 1"
| "bytes_Compare (a # as) (b # bs) =
     (if a < b then -1 else if b < a then 1 else bytes_Compare as bs)"

lemma bytes_Compare_eq: "bytes_Compare xs ys = (if xs < ys then -1 else if xs = ys then 0 else 1)"
  by (induction xs ys rule: bytes_Compare.induct) auto

lemma bytes_Compare_le [simp]: "bytes_Compare xs ys \<le> 0 \<longleftrightarrow> xs \<le> ys"
  and bytes_Compare_ge [simp]: "0 \<le> bytes_Compare xs ys \<longleftrightarrow> ys \<le> xs"
  and bytes_Compare_gt [simp]: "0 < bytes_Compare xs ys \<longleftrightarrow> ys < xs"
  by (auto simp: bytes_Compare_eq)

lemmas [go_eval] = plain_char_def Let_def

end
