(* ===== verification/Test_Utils.thy ===== *)
theory Test_Utils
  imports Go_Strings "HOL-Library.Sublist"
begin

text \<open>
  The helpers of the end-to-end tests, \<^verbatim>\<open>test/utils/utils.go\<close>.

  \<^item> The operating system is the record \<open>OS\<close>, a parameter of the definitions: the working directory, the environment, files and the
    execution of a command, each of which answers from a state of its own and may change it.  Errors are their texts.
  \<^item> The state of a helper is that state and what was written to the log of the tests (\<^verbatim>\<open>GinkgoWriter\<close>).
  \<^item> \<open>Index\<close>, \<open>ReplaceAll\<close>, \<open>TrimPrefix\<close> and \<open>ScanLines\<close> are what the helpers use of Go's \<^verbatim>\<open>strings\<close> and \<^verbatim>\<open>bufio\<close>.

  The last section shows when \<open>UncommentCode\<close> undoes the commenting of lines, and what it does otherwise.
\<close>

section \<open>Strings and lines\<close>

text \<open>\<^verbatim>\<open>strings.Index\<close>: the first position at which the pattern occurs.\<close>

fun Index :: "string \<Rightarrow> string \<Rightarrow> nat option" where
  "Index [] t = (if t = [] then Some 0 else None)"
| "Index (c # s) t = (if prefix t (c # s) then Some 0 else map_option Suc (Index s t))"

definition ContainsString :: "string \<Rightarrow> string \<Rightarrow> bool" where
  "ContainsString s t = (Index s t \<noteq> None)"

lemma Index_bound: "Index s t = Some i \<Longrightarrow> i + length t \<le> length s"
  by (induction s t arbitrary: i rule: Index.induct) (auto split: if_splits dest: prefix_length_le)

text \<open>\<^verbatim>\<open>strings.ReplaceAll\<close> for a pattern that is not empty.\<close>

function ReplaceAll :: "string \<Rightarrow> string \<Rightarrow> string \<Rightarrow> string" where
  "ReplaceAll s old new =
     (case Index s old of
        Some i \<Rightarrow> if old = [] then s else take i s @ new @ ReplaceAll (drop (i + length old) s) old new
      | None \<Rightarrow> s)"
  by pat_completeness auto
termination
  by (relation "measure (\<lambda>(s, _). length s)") (auto dest!: Index_bound simp: neq_Nil_conv)

declare ReplaceAll.simps [simp del]

definition TrimPrefix :: "string \<Rightarrow> string \<Rightarrow> string" where
  "TrimPrefix s p = (if prefix p s then drop (length p) s else s)"

definition newline :: char where "newline = CHR 0x0A"

definition return_char :: char where "return_char = CHR 0x0D"

text \<open>\<^verbatim>\<open>bufio.Scanner\<close> with its default \<^verbatim>\<open>ScanLines\<close>, on a text in memory: the lines without their ends and without one carriage return
  before the end; no line for an empty rest; a line that does not fit the buffer ends the scan.\<close>

definition MaxScanTokenSize :: nat where "MaxScanTokenSize = 64 * 1024"

definition dropCR :: "string \<Rightarrow> string" where
  "dropCR l = (if l \<noteq> [] \<and> last l = return_char then butlast l else l)"

fun scan_tokens :: "string list \<Rightarrow> string list" where
  "scan_tokens [] = []"
| "scan_tokens (l # ls) =
     (if l = [] \<and> ls = [] \<or> MaxScanTokenSize \<le> length l then [] else dropCR l # scan_tokens ls)"

definition ScanLines :: "string \<Rightarrow> string list" where
  "ScanLines s = scan_tokens (Split s newline)"

section \<open>The operating system\<close>

record cmd =
  Args :: "string list"
  Dir :: string
  Env :: "string list"

record 'w OS =
  Getwd :: "'w \<Rightarrow> string \<times> string option"
  Chdir :: "string \<Rightarrow> 'w \<Rightarrow> string option \<times> 'w"
  Environ :: "'w \<Rightarrow> string list"
  LookupEnv :: "string \<Rightarrow> 'w \<Rightarrow> string option"
  CombinedOutput :: "cmd \<Rightarrow> 'w \<Rightarrow> (string \<times> string option) \<times> 'w"
  ReadFile :: "string \<Rightarrow> 'w \<Rightarrow> string + string"
  WriteFile :: "string \<Rightarrow> string \<Rightarrow> 'w \<Rightarrow> string option \<times> 'w"

record 'w env =
  sys :: 'w
  GinkgoWriter :: "string list"

definition Command :: "string list \<Rightarrow> cmd" where
  "Command args = \<lparr>Args = args, Dir = [], Env = []\<rparr>"

definition Fprintf :: "string \<Rightarrow> 'w env \<Rightarrow> 'w env" where
  "Fprintf s e = e\<lparr>GinkgoWriter := GinkgoWriter e @ [s]\<rparr>"

definition warnError :: "string \<Rightarrow> 'w env \<Rightarrow> 'w env" where
  "warnError err = Fprintf (''warning: '' @ err @ [newline])"

definition GetProjectDir :: "'w OS \<Rightarrow> 'w env \<Rightarrow> string \<times> string option" where
  "GetProjectDir os e =
     (case Getwd os (sys e) of
        (wd, Some err) \<Rightarrow> (wd, Some err)
      | (wd, None) \<Rightarrow> (ReplaceAll wd ''/test/e2e'' [], None))"

definition Run :: "'w OS \<Rightarrow> cmd \<Rightarrow> 'w env \<Rightarrow> (string \<times> string option) \<times> 'w env" where
  "Run os c e =
     (let dir = fst (GetProjectDir os e);
          (err1, w1) = Chdir os dir (sys e);
          e1 = (case err1 of None \<Rightarrow> id | Some err \<Rightarrow> Fprintf (''chdir dir: '' @ err @ [newline])) (e\<lparr>sys := w1\<rparr>);
          c1 = c\<lparr>Dir := dir, Env := Environ os (sys e1) @ [''GO111MODULE=on'']\<rparr>;
          command = join_sep (CHR '' '') (Args c1);
          e2 = Fprintf (''running: '' @ command @ [newline]) e1;
          ((out, err2), w2) = CombinedOutput os c1 (sys e2);
          e3 = e2\<lparr>sys := w2\<rparr>
      in case err2 of
           Some err \<Rightarrow> ((out, Some (command @ '' failed with error: ('' @ err @ '') '' @ out)), e3)
         | None \<Rightarrow> ((out, None), e3))"

section \<open>Installing and looking for the tools of the tests\<close>

definition prometheusOperatorVersion :: string where "prometheusOperatorVersion = ''v0.77.1''"

definition prometheusOperatorURL :: "string \<Rightarrow> string" where
  "prometheusOperatorURL v =
     ''https://github.com/prometheus-operator/prometheus-operator/'' @ ''releases/download/'' @ v @ ''/bundle.yaml''"

definition certmanagerVersion :: string where "certmanagerVersion = ''v1.16.0''"

definition certmanagerURLTmpl :: "string \<Rightarrow> string" where
  "certmanagerURLTmpl v = ''https://github.com/jetstack/cert-manager/releases/download/'' @ v @ ''/cert-manager.yaml''"

definition InstallPrometheusOperator :: "'w OS \<Rightarrow> 'w env \<Rightarrow> string option \<times> 'w env" where
  "InstallPrometheusOperator os e =
     (case Run os (Command [''kubectl'', ''create'', ''-f'', prometheusOperatorURL prometheusOperatorVersion]) e of
        ((_, err), e1) \<Rightarrow> (err, e1))"

definition UninstallPrometheusOperator :: "'w OS \<Rightarrow> 'w env \<Rightarrow> 'w env" where
  "UninstallPrometheusOperator os e =
     (case Run os (Command [''kubectl'', ''delete'', ''-f'', prometheusOperatorURL prometheusOperatorVersion]) e of
        ((_, Some err), e1) \<Rightarrow> warnError err e1
      | ((_, None), e1) \<Rightarrow> e1)"

definition GetNonEmptyLines :: "string \<Rightarrow> string list" where
  "GetNonEmptyLines output = filter (\<lambda>element. element \<noteq> []) (Split output newline)"

definition prometheusCRDs :: "string list" where
  "prometheusCRDs = [''prometheuses.monitoring.coreos.com'', ''prometheusrules.monitoring.coreos.com'',
     ''prometheusagents.monitoring.coreos.com'']"

text \<open>The two nested loops that look for one of the names in one of the lines.\<close>

definition crd_listed :: "string list \<Rightarrow> string list \<Rightarrow> bool" where
  "crd_listed crds crdList = list_ex (\<lambda>crd. list_ex (\<lambda>line. ContainsString line crd) crdList) crds"

definition IsPrometheusCRDsInstalled :: "'w OS \<Rightarrow> 'w env \<Rightarrow> bool \<times> 'w env" where
  "IsPrometheusCRDsInstalled os e =
     (case Run os (Command [''kubectl'', ''get'', ''crds'', ''-o'', ''custom-columns=NAME:.metadata.name'']) e of
        ((out, Some err), e1) \<Rightarrow> (False, e1)
      | ((out, None), e1) \<Rightarrow> (crd_listed prometheusCRDs (GetNonEmptyLines out), e1))"

definition UninstallCertManager :: "'w OS \<Rightarrow> 'w env \<Rightarrow> 'w env" where
  "UninstallCertManager os e =
     (case Run os (Command [''kubectl'', ''delete'', ''-f'', certmanagerURLTmpl certmanagerVersion]) e of
        ((_, Some err), e1) \<Rightarrow> warnError err e1
      | ((_, None), e1) \<Rightarrow> e1)"

definition InstallCertManager :: "'w OS \<Rightarrow> 'w env \<Rightarrow> string option \<times> 'w env" where
  "InstallCertManager os e =
     (case Run os (Command [''kubectl'', ''apply'', ''-f'', certmanagerURLTmpl certmanagerVersion]) e of
        ((_, Some err), e1) \<Rightarrow> (Some err, e1)
      | ((_, None), e1) \<Rightarrow>
          (case Run os (Command [''kubectl'', ''wait'', ''deployment.apps/cert-manager-webhook'', ''--for'', ''condition=Available'',
               ''--namespace'', ''cert-manager'', ''--timeout'', ''5m'']) e1 of
             ((_, err), e2) \<Rightarrow> (err, e2)))"

definition certManagerCRDs :: "string list" where
  "certManagerCRDs = [''certificates.cert-manager.io'', ''issuers.cert-manager.io'', ''clusterissuers.cert-manager.io'',
     ''certificaterequests.cert-manager.io'', ''orders.acme.cert-manager.io'', ''challenges.acme.cert-manager.io'']"

definition IsCertManagerCRDsInstalled :: "'w OS \<Rightarrow> 'w env \<Rightarrow> bool \<times> 'w env" where
  "IsCertManagerCRDsInstalled os e =
     (case Run os (Command [''kubectl'', ''get'', ''crds'']) e of
        ((out, Some err), e1) \<Rightarrow> (False, e1)
      | ((out, None), e1) \<Rightarrow> (crd_listed certManagerCRDs (GetNonEmptyLines out), e1))"

definition LoadImageToKindClusterWithName :: "'w OS \<Rightarrow> string \<Rightarrow> 'w env \<Rightarrow> string option \<times> 'w env" where
  "LoadImageToKindClusterWithName os name e =
     (let cluster = (case LookupEnv os ''KIND_CLUSTER'' (sys e) of Some v \<Rightarrow> v | None \<Rightarrow> ''kind'')
      in case Run os (Command [''kind'', ''load'', ''docker-image'', name, ''--name'', cluster]) e of
           ((_, err), e1) \<Rightarrow> (err, e1))"

section \<open>Uncommenting\<close>

text \<open>The new content: an error, no change when the target has no line, or what is written.\<close>

definition uncommented :: "string \<Rightarrow> string \<Rightarrow> string \<Rightarrow> string + string option" where
  "uncommented content target pre =
     (case Index content target of
        None \<Rightarrow> Inl (''unable to find the code '' @ target @ '' to be uncomment'')
      | Some idx \<Rightarrow>
          (case ScanLines target of
             [] \<Rightarrow> Inr None
           | ls \<Rightarrow> Inr (Some (take idx content @ join_sep newline (map (\<lambda>l. TrimPrefix l pre) ls) @
               drop (idx + length target) content))))"

definition UncommentCode :: "'w OS \<Rightarrow> string \<Rightarrow> string \<Rightarrow> string \<Rightarrow> 'w env \<Rightarrow> string option \<times> 'w env" where
  "UncommentCode os filename target pre e =
     (case ReadFile os filename (sys e) of
        Inl err \<Rightarrow> (Some err, e)
      | Inr content \<Rightarrow>
          (case uncommented content target pre of
             Inl err \<Rightarrow> (Some err, e)
           | Inr None \<Rightarrow> (None, e)
           | Inr (Some out) \<Rightarrow> (case WriteFile os filename out (sys e) of (err, w) \<Rightarrow> (err, e\<lparr>sys := w\<rparr>))))"

section \<open>Searching\<close>

lemma Index_Some: "Index s t = Some i \<Longrightarrow> s = take i s @ t @ drop (i + length t) s"
  by (induction s t arbitrary: i rule: Index.induct) (auto split: if_splits elim!: prefixE)

lemma Index_None: "Index s t = None \<longleftrightarrow> \<not> sublist t s"
  by (induction s t rule: Index.induct) (auto simp: sublist_Cons_right)

lemma ContainsString_iff: "ContainsString s t \<longleftrightarrow> sublist t s"
  by (simp add: ContainsString_def Index_None)

text \<open>Outside the directory of the tests the project directory is the working directory.\<close>

lemma ReplaceAll_absent: "\<not> sublist old s \<Longrightarrow> ReplaceAll s old new = s"
  by (subst ReplaceAll.simps) (simp add: Index_None [symmetric])

lemma GetProjectDir_outside:
  "Getwd os (sys e) = (wd, None) \<Longrightarrow> \<not> sublist ''/test/e2e'' wd \<Longrightarrow> GetProjectDir os e = (wd, None)"
  by (simp add: GetProjectDir_def ReplaceAll_absent)

text \<open>A string without the separator occurs in the text exactly when it occurs in one of the parts.\<close>

lemma sublist_at_sep:
  assumes "sep \<notin> set t"
  shows "sublist t (p @ sep # q) \<longleftrightarrow> sublist t p \<or> sublist t q"
proof
  assume "sublist t (p @ sep # q)"
  then consider "sublist t p" | "sublist t (sep # q)"
    | a b where "t = a @ b" "suffix a p" "prefix b (sep # q)"
    unfolding sublist_append by blast
  then show "sublist t p \<or> sublist t q"
  proof cases
    case 2
    then show ?thesis using assms by (cases t) (auto simp: sublist_Cons_right)
  next
    case (3 a b)
    then show ?thesis using assms by (cases b) (auto dest: suffix_imp_sublist)
  qed simp
qed (auto simp: sublist_append sublist_Cons_right)

lemma sublist_Split: "sep \<notin> set t \<Longrightarrow> t \<noteq> [] \<Longrightarrow> sublist t s \<longleftrightarrow> (\<exists>l \<in> set (Split s sep). sublist t l)"
proof (induction "length s" arbitrary: s rule: less_induct)
  case less
  show ?case
  proof (cases "sep \<in> set s")
    case True
    then obtain p q where "s = p @ sep # q" "sep \<notin> set p" by (auto dest: split_list_first)
    then show ?thesis using less by (simp add: sublist_at_sep Split_append_sep)
  qed (simp add: Split_no_sep)
qed

lemma crd_listed_output:
  assumes "\<forall>crd \<in> set crds. crd \<noteq> [] \<and> newline \<notin> set crd"
  shows "crd_listed crds (GetNonEmptyLines out) \<longleftrightarrow> (\<exists>crd \<in> set crds. sublist crd out)"
proof -
  have "(\<exists>l \<in> set (GetNonEmptyLines out). sublist crd l) \<longleftrightarrow> sublist crd out" if "crd \<in> set crds" for crd
    using that assms sublist_Split [of newline crd out] by (auto simp: GetNonEmptyLines_def)
  then show ?thesis by (auto simp: crd_listed_def list_ex_iff ContainsString_iff)
qed

text \<open>So the tests take the tool for installed exactly when the command succeeds and its output has one of the names anywhere.\<close>

lemma IsPrometheusCRDsInstalled_iff:
  "fst (IsPrometheusCRDsInstalled os e) \<longleftrightarrow>
     (\<exists>out e1. Run os (Command [''kubectl'', ''get'', ''crds'', ''-o'', ''custom-columns=NAME:.metadata.name'']) e = ((out, None), e1)
        \<and> (\<exists>crd \<in> set prometheusCRDs. sublist crd out))"
proof -
  have "\<forall>crd \<in> set prometheusCRDs. crd \<noteq> [] \<and> newline \<notin> set crd" by (simp add: prometheusCRDs_def newline_def)
  from crd_listed_output [OF this] show ?thesis
    by (auto simp: IsPrometheusCRDsInstalled_def split: prod.splits option.splits)
qed

lemma IsCertManagerCRDsInstalled_iff:
  "fst (IsCertManagerCRDsInstalled os e) \<longleftrightarrow>
     (\<exists>out e1. Run os (Command [''kubectl'', ''get'', ''crds'']) e = ((out, None), e1)
        \<and> (\<exists>crd \<in> set certManagerCRDs. sublist crd out))"
proof -
  have "\<forall>crd \<in> set certManagerCRDs. crd \<noteq> [] \<and> newline \<notin> set crd" by (simp add: certManagerCRDs_def newline_def)
  from crd_listed_output [OF this] show ?thesis
    by (auto simp: IsCertManagerCRDsInstalled_def split: prod.splits option.splits)
qed

section \<open>Lines\<close>

text \<open>Lines that the scanner gives back as they are.\<close>

definition plain_line :: "string \<Rightarrow> bool" where
  "plain_line l \<longleftrightarrow> newline \<notin> set l \<and> (l \<noteq> [] \<longrightarrow> last l \<noteq> return_char) \<and> length l < MaxScanTokenSize"

lemma plain_line_scan: "plain_line l \<Longrightarrow> dropCR l = l" "plain_line l \<Longrightarrow> \<not> MaxScanTokenSize \<le> length l"
  by (auto simp: plain_line_def dropCR_def)

lemma Split_join: "ls \<noteq> [] \<Longrightarrow> \<forall>l \<in> set ls. sep \<notin> set l \<Longrightarrow> Split (join_sep sep ls) sep = ls"
  by (induction sep ls rule: join_sep.induct) (simp_all add: Split_no_sep Split_append_sep)

lemma scan_tokens_plain: "\<forall>l \<in> set ls. plain_line l \<Longrightarrow> ls \<noteq> [] \<Longrightarrow> last ls \<noteq> [] \<Longrightarrow> scan_tokens ls = ls"
proof (induction ls)
  case (Cons l ls)
  then show ?case by (cases "ls = []") (simp_all add: plain_line_scan)
qed simp

lemma ScanLines_join: "\<forall>l \<in> set ls. plain_line l \<Longrightarrow> ls \<noteq> [] \<Longrightarrow> last ls \<noteq> [] \<Longrightarrow> ScanLines (join_sep newline ls) = ls"
  unfolding ScanLines_def by (subst Split_join) (auto simp: plain_line_def intro: scan_tokens_plain)

lemma TrimPrefix_append [simp]: "TrimPrefix (p @ l) p = l"
  by (simp add: TrimPrefix_def)

text \<open>A target that ends in a newline loses it, and what follows joins its last line.\<close>

lemma scan_tokens_snoc_Nil: "ls \<noteq> [] \<Longrightarrow> \<forall>l \<in> set ls. plain_line l \<Longrightarrow> scan_tokens (ls @ [[]]) = ls"
proof (induction ls)
  case (Cons l ls)
  then show ?case by (cases "ls = []") (simp_all add: plain_line_scan)
qed simp

lemma join_sep_snoc: "ls \<noteq> [] \<Longrightarrow> join_sep sep (ls @ [l]) = join_sep sep ls @ sep # l"
  by (induction sep ls rule: join_sep.induct) auto

lemma ScanLines_trailing: 
  assumes "ls \<noteq> []" "\<forall>l \<in> set ls. plain_line l"
  shows "ScanLines (join_sep newline ls @ [newline]) = ls"
proof -
  have "Split (join_sep newline (ls @ [[]])) newline = ls @ [[]]"
    using assms by (intro Split_join) (auto simp: plain_line_def)
  then show ?thesis using assms by (simp add: ScanLines_def join_sep_snoc scan_tokens_snoc_Nil)
qed

section \<open>Properties\<close>

text \<open>C32: uncommenting undoes commenting.  When the first occurrence of the target in the file is a block of lines, each with the
  comment prefix in front, none of them ended by a carriage return or too long for the scanner, the file is written back with exactly
  those prefixes gone and the text around them unchanged.  A block that is given with its last newline loses that newline, so that the
  text behind it is joined to its last line.\<close>

theorem UncommentCode_restores:
  assumes "ReadFile os file (sys e) = Inr (before @ target @ after)"
    and "Index (before @ target @ after) target = Some (length before)"
    and "target = join_sep newline (map (\<lambda>l. pre @ l) ls) @ tail" "tail = [] \<or> tail = [newline]"
    and "ls \<noteq> []" "\<forall>l \<in> set ls. plain_line (pre @ l)" "pre @ last ls \<noteq> []"
  shows "UncommentCode os file target pre e =
    (case WriteFile os file (before @ join_sep newline ls @ after) (sys e) of (err, w) \<Rightarrow> (err, e\<lparr>sys := w\<rparr>))"
proof -
  have "ScanLines target = map (\<lambda>l. pre @ l) ls"
    using assms(3-7) ScanLines_join [of "map (\<lambda>l. pre @ l) ls"] ScanLines_trailing [of "map (\<lambda>l. pre @ l) ls"]
    by (auto simp: last_map)
  then have "uncommented (before @ target @ after) target pre = Inr (Some (before @ join_sep newline ls @ after))"
    using assms(2,5) by (cases ls) (simp_all add: uncommented_def comp_def)
  then show ?thesis by (simp add: UncommentCode_def assms(1))
qed

text \<open>A file store for concrete runs.\<close>

definition demo_OS :: "(string \<rightharpoonup> string) OS" where
  "demo_OS =
     \<lparr>Getwd = \<lambda>w. (''/'', None), Chdir = \<lambda>d w. (None, w), Environ = \<lambda>w. [], LookupEnv = \<lambda>v w. None,
      CombinedOutput = \<lambda>c w. (([], None), w),
      ReadFile = \<lambda>f w. (case w f of None \<Rightarrow> Inl ''no such file'' | Some s \<Rightarrow> Inr s),
      WriteFile = \<lambda>f s w. (None, w(f \<mapsto> s))\<rparr>"

theorem UncommentCode_restores_witness:
  "UncommentCode demo_OS ''f'' ''#- b'' ''#'' \<lparr>sys = [''f'' \<mapsto> ''a:#- b;''], GinkgoWriter = []\<rparr> =
     (None, \<lparr>sys = [''f'' \<mapsto> ''a:- b;''], GinkgoWriter = []\<rparr>)"
proof -
  let ?e = "\<lparr>sys = [''f'' \<mapsto> ''a:#- b;''], GinkgoWriter = []\<rparr>"
  have read: "ReadFile demo_OS ''f'' (sys ?e) = Inr (''a:'' @ ''#- b'' @ '';'')" by (simp add: demo_OS_def)
  have at: "Index (''a:'' @ ''#- b'' @ '';'') ''#- b'' = Some (length ''a:'')" by simp
  have target: "''#- b'' = join_sep newline (map (\<lambda>l. ''#'' @ l) [''- b'']) @ []" by simp
  have plain: "\<forall>l \<in> set [''- b'']. plain_line (''#'' @ l)"
    by (simp add: plain_line_def newline_def return_char_def MaxScanTokenSize_def)
  show ?thesis using UncommentCode_restores [OF read at target _ _ plain] by (simp add: demo_OS_def)
qed

end
