(* ===== verification/Metrics.thy ===== *)
theory Metrics
  imports Complex_Main Helios_Prelude
begin

text \<open>
  \<^verbatim>\<open>internal/metrics/metrics.go\<close>: the metric vectors and the recorder.  The Prometheus library itself is not
  modelled: a recorder method is the list of operations that it performs on the vectors, in order, and the
  other components collect these lists.  \<^verbatim>\<open>WithLabelValues\<close> panics when it gets another number of values than
  the vector has labels, and \<^verbatim>\<open>MustRegister\<close> panics on a name that is taken: \<open>op_ok\<close> and the distinctness of
  \<open>registered\<close> say that neither happens.  \<^verbatim>\<open>float64\<close> values are reals; the code only converts
  \<^verbatim>\<open>int32\<close> values and lengths of maps.
\<close>

section \<open>Vectors\<close>

datatype vec_kind = GaugeVec | CounterVec | HistogramVec

record vec =
  vec_kind :: vec_kind
  vec_name :: string
  vec_labels :: "string list"

definition labelName :: string where "labelName = ''name''"
definition labelNamespace :: string where "labelNamespace = ''namespace''"
definition labelBackendAddress :: string where "labelBackendAddress = ''backend_address''"
definition labelServiceName :: string where "labelServiceName = ''service_name''"
definition labelOperation :: string where "labelOperation = ''operation''"
definition labelStatus :: string where "labelStatus = ''status''"
definition labelResult :: string where "labelResult = ''result''"
definition labelReason :: string where "labelReason = ''reason''"
definition labelIPAddress :: string where "labelIPAddress = ''ip_address''"

definition lbStatus :: vec where
  "lbStatus = \<lparr>vec_kind = GaugeVec, vec_name = ''helios_lb_status'', vec_labels = [labelName, labelNamespace]\<rparr>"

definition backendConnections :: vec where
  "backendConnections = \<lparr>vec_kind = GaugeVec, vec_name = ''helios_backend_connections'',
     vec_labels = [labelBackendAddress, labelServiceName]\<rparr>"

definition backendHealth :: vec where
  "backendHealth = \<lparr>vec_kind = GaugeVec, vec_name = ''helios_backend_health'',
     vec_labels = [labelBackendAddress, labelServiceName]\<rparr>"

definition requestDuration :: vec where
  "requestDuration = \<lparr>vec_kind = HistogramVec, vec_name = ''helios_request_duration_seconds'', vec_labels = [labelServiceName]\<rparr>"

definition operationTotal :: vec where
  "operationTotal = \<lparr>vec_kind = CounterVec, vec_name = ''helios_operations_total'',
     vec_labels = [labelServiceName, labelOperation, labelStatus]\<rparr>"

definition ipAllocationStatus :: vec where
  "ipAllocationStatus = \<lparr>vec_kind = GaugeVec, vec_name = ''helios_ip_allocation_status'', vec_labels = [labelIPAddress]\<rparr>"

definition reconcileDuration :: vec where
  "reconcileDuration = \<lparr>vec_kind = HistogramVec, vec_name = ''helios_reconcile_duration_seconds'',
     vec_labels = [labelName, labelNamespace, labelResult]\<rparr>"

definition reconcileTotal :: vec where
  "reconcileTotal = \<lparr>vec_kind = CounterVec, vec_name = ''helios_reconcile_total'',
     vec_labels = [labelName, labelNamespace, labelResult]\<rparr>"

definition requeueReasonTotal :: vec where
  "requeueReasonTotal = \<lparr>vec_kind = CounterVec, vec_name = ''helios_requeue_reason_total'',
     vec_labels = [labelName, labelNamespace, labelReason]\<rparr>"

definition ipPoolUtilization :: vec where
  "ipPoolUtilization = \<lparr>vec_kind = GaugeVec, vec_name = ''helios_ip_pool_utilization'', vec_labels = [labelName, labelNamespace]\<rparr>"

text \<open>What \<^verbatim>\<open>init\<close> registers, in its order.\<close>

definition registered :: "vec list" where
  "registered = [lbStatus, backendConnections, backendHealth, requestDuration, operationTotal, ipAllocationStatus,
     reconcileDuration, reconcileTotal, requeueReasonTotal, ipPoolUtilization]"

lemmas vec_defs = lbStatus_def backendConnections_def backendHealth_def requestDuration_def operationTotal_def
  ipAllocationStatus_def reconcileDuration_def reconcileTotal_def requeueReasonTotal_def ipPoolUtilization_def

section \<open>The recorder\<close>

datatype metric_op =
    SetGauge vec "string list" real
  | IncCounter vec "string list"
  | Observe vec "string list" real

definition RecordLBStatus :: "string \<Rightarrow> string \<Rightarrow> bool \<Rightarrow> metric_op list" where
  "RecordLBStatus name ns active = [SetGauge lbStatus [name, ns] (if active then 1 else 0)]"

definition RecordBackendConnections :: "string \<Rightarrow> string \<Rightarrow> real \<Rightarrow> metric_op list" where
  "RecordBackendConnections backendAddr serviceName connections =
     [SetGauge backendConnections [backendAddr, serviceName] connections]"

definition RecordBackendHealth :: "string \<Rightarrow> string \<Rightarrow> bool \<Rightarrow> metric_op list" where
  "RecordBackendHealth backendAddr serviceName healthy =
     [SetGauge backendHealth [backendAddr, serviceName] (if healthy then 1 else 0)]"

definition RecordRequestDuration :: "string \<Rightarrow> real \<Rightarrow> metric_op list" where
  "RecordRequestDuration serviceName duration = [Observe requestDuration [serviceName] duration]"

definition RecordOperation :: "string \<Rightarrow> string \<Rightarrow> string \<Rightarrow> metric_op list" where
  "RecordOperation serviceName operation status = [IncCounter operationTotal [serviceName, operation, status]]"

definition RecordIPAllocation :: "string \<Rightarrow> bool \<Rightarrow> metric_op list" where
  "RecordIPAllocation ipAddress allocated = [SetGauge ipAllocationStatus [ipAddress] (if allocated then 1 else 0)]"

definition RecordReconcileDuration :: "string \<Rightarrow> string \<Rightarrow> string \<Rightarrow> real \<Rightarrow> metric_op list" where
  "RecordReconcileDuration name ns result durationSeconds =
     [Observe reconcileDuration [name, ns, result] durationSeconds, IncCounter reconcileTotal [name, ns, result]]"

definition RecordRequeueReason :: "string \<Rightarrow> string \<Rightarrow> string \<Rightarrow> metric_op list" where
  "RecordRequeueReason name ns reason = [IncCounter requeueReasonTotal [name, ns, reason]]"

definition RecordIPPoolUtilization :: "string \<Rightarrow> string \<Rightarrow> nat \<Rightarrow> metric_op list" where
  "RecordIPPoolUtilization name ns count = [SetGauge ipPoolUtilization [name, ns] (real count)]"

lemmas record_defs = RecordLBStatus_def RecordBackendConnections_def RecordBackendHealth_def RecordRequestDuration_def
  RecordOperation_def RecordIPAllocation_def RecordReconcileDuration_def RecordRequeueReason_def RecordIPPoolUtilization_def

section \<open>Well-formed operations\<close>

primrec op_ok :: "metric_op \<Rightarrow> bool" where
  "op_ok (SetGauge v vals x) = (v \<in> set registered \<and> vec_kind v = GaugeVec \<and> length vals = length (vec_labels v))"
| "op_ok (IncCounter v vals) = (v \<in> set registered \<and> vec_kind v = CounterVec \<and> length vals = length (vec_labels v))"
| "op_ok (Observe v vals x) = (v \<in> set registered \<and> vec_kind v = HistogramVec \<and> length vals = length (vec_labels v))"

lemma registered_mem [simp]:
  "lbStatus \<in> set registered" "backendConnections \<in> set registered" "backendHealth \<in> set registered"
  "requestDuration \<in> set registered" "operationTotal \<in> set registered" "ipAllocationStatus \<in> set registered"
  "reconcileDuration \<in> set registered" "reconcileTotal \<in> set registered" "requeueReasonTotal \<in> set registered"
  "ipPoolUtilization \<in> set registered"
  by (simp_all add: registered_def)

lemma record_ok [simp]:
  "list_all op_ok (RecordLBStatus n s a)" "list_all op_ok (RecordBackendConnections b s c)"
  "list_all op_ok (RecordBackendHealth b s h)" "list_all op_ok (RecordRequestDuration s d)"
  "list_all op_ok (RecordOperation s p t)" "list_all op_ok (RecordIPAllocation x a)"
  "list_all op_ok (RecordReconcileDuration n s r d)" "list_all op_ok (RecordRequeueReason n s r)"
  "list_all op_ok (RecordIPPoolUtilization n s k)"
  by (simp_all add: record_defs vec_defs [abs_def] registered_mem [unfolded vec_defs])

text \<open>The last value that a list of operations gives to a gauge.\<close>

fun gauge_value :: "vec \<Rightarrow> string list \<Rightarrow> metric_op list \<Rightarrow> real option" where
  "gauge_value v vals [] = None"
| "gauge_value v vals (SetGauge v' vals' x # ops) =
     (case gauge_value v vals ops of
        Some y \<Rightarrow> Some y
      | None \<Rightarrow> if v' = v \<and> vals' = vals then Some x else None)"
| "gauge_value v vals (_ # ops) = gauge_value v vals ops"

section \<open>Properties\<close>

text \<open>The ten vectors are registered under different names, so \<^verbatim>\<open>MustRegister\<close> does not panic, and every
  recorder method uses registered vectors of the right kind with the right number of label values, so
  \<^verbatim>\<open>WithLabelValues\<close> does not panic either.\<close>

lemma recorder_never_panics:
  "distinct (map vec_name registered) \<and>
   list_all op_ok (RecordLBStatus n s a @ RecordBackendConnections b s c @ RecordBackendHealth b s h @
     RecordRequestDuration s d @ RecordOperation s p t @ RecordIPAllocation x a @ RecordReconcileDuration n s r d @
     RecordRequeueReason n s r @ RecordIPPoolUtilization n s k)"
proof -
  have "distinct (map vec_name registered)" by (simp add: registered_def vec_defs)
  then show ?thesis by simp
qed

end
