(* ===== verification/Load_Balancer.thy ===== *)
theory Load_Balancer
  imports Metrics
begin

text \<open>
  \<^verbatim>\<open>internal/loadbalancer\<close>: \<^verbatim>\<open>types.go\<close>, \<^verbatim>\<open>backend.go\<close>, \<^verbatim>\<open>algorithms.go\<close>, \<^verbatim>\<open>balancer.go\<close> and \<^verbatim>\<open>metrics.go\<close>.

  \<^item> A \<^verbatim>\<open>*Backend\<close> is an address in a store, since the balancer, the health checker and its callers share
    backends and update them in place.  Fields that the code reads and writes atomically are updated in one
    step; a selection sees one store.
  \<^item> \<^verbatim>\<open>int\<close> is 64 bits wide: \<open>wrap64\<close> is the value of a sum or a difference.  \<^verbatim>\<open>int32\<close> and \<^verbatim>\<open>uint32\<close> are words.
  \<^item> \<^verbatim>\<open>rand.Intn\<close> is a parameter.
\<close>

unbundle bit_operations_syntax

section \<open>Types\<close>

type_synonym BalancerType = string

definition RoundRobin :: BalancerType where "RoundRobin = ''roundrobin''"
definition LeastConnection :: BalancerType where "LeastConnection = ''leastconnection''"
definition WeightedRoundRobin :: BalancerType where "WeightedRoundRobin = ''weightedroundrobin''"
definition IPHash :: BalancerType where "IPHash = ''iphash''"
definition RandomSelection :: BalancerType where "RandomSelection = ''random''"

lemmas balancer_types = RoundRobin_def LeastConnection_def WeightedRoundRobin_def IPHash_def RandomSelection_def

record Weight =
  W_ServiceName :: string
  W_Weight :: int

record HealthCheckOptions =
  Timeout :: int
  Protocol :: string
  HO_HTTPPath :: string

record BalancerConfig =
  Type :: BalancerType
  BC_HealthCheck :: bool
  CheckInterval :: int
  MetricsEnabled :: bool
  BC_Weights :: "Weight list"
  HealthCheckOpts :: HealthCheckOptions

record Backend =
  Address :: string
  B_Port :: int
  healthy :: i32
  Connections :: i32
  B_ServiceName :: string
  B_Weight :: int

record LoadBalancerStats =
  TotalConnections :: i32
  ActiveBackends :: int
  HealthyBackends :: int

record RoundRobinState =
  current :: u32

type_synonym ptr = nat
type_synonym store = "ptr \<Rightarrow> Backend"
type_synonym rr_states = "string \<rightharpoonup> RoundRobinState"

datatype Algorithm =
    roundRobinAlgorithm rr_states
  | leastConnectionAlgorithm
  | weightedRoundRobinAlgorithm rr_states "Weight list"
  | ipHashAlgorithm
  | randomAlgorithm

record LoadBalancer =
  backends :: "(string \<times> ptr list) list"
  stats :: "(string \<times> LoadBalancerStats) list"
  config :: BalancerConfig
  algorithm :: Algorithm

section \<open>Backends\<close>

definition IsHealthy :: "Backend \<Rightarrow> bool" where
  "IsHealthy b \<longleftrightarrow> healthy b = 1"

definition SetHealthy :: "store \<Rightarrow> ptr \<Rightarrow> bool \<Rightarrow> store" where
  "SetHealthy st p h = st(p := (st p)\<lparr>healthy := (if h then 1 else 0)\<rparr>)"

definition IncrementConnections :: "store \<Rightarrow> ptr \<Rightarrow> store" where
  "IncrementConnections st p = st(p := (st p)\<lparr>Connections := Connections (st p) + 1\<rparr>)"

definition DecrementConnections :: "store \<Rightarrow> ptr \<Rightarrow> store" where
  "DecrementConnections st p = st(p := (st p)\<lparr>Connections := Connections (st p) - 1\<rparr>)"

definition zero_stats :: LoadBalancerStats where
  "zero_stats = \<lparr>TotalConnections = 0, ActiveBackends = 0, HealthyBackends = 0\<rparr>"

definition AddBackend :: "store \<Rightarrow> LoadBalancer \<Rightarrow> ptr \<Rightarrow> LoadBalancer" where
  "AddBackend st lb backend =
     (let svc = B_ServiceName (st backend);
          lb' = (if map_of (backends lb) svc = None
                 then lb\<lparr>backends := map_set svc [] (backends lb), stats := map_set svc zero_stats (stats lb)\<rparr>
                 else lb)
      in lb'\<lparr>backends := map_set svc (the (map_of (backends lb') svc) @ [backend]) (backends lb')\<rparr>)"

text \<open>The loop of \<^verbatim>\<open>RemoveBackend\<close> stops at the first backend with the address.\<close>

fun remove_address :: "store \<Rightarrow> string \<Rightarrow> ptr list \<Rightarrow> ptr list" where
  "remove_address st address [] = []"
| "remove_address st address (p # ps) = (if Address (st p) = address then ps else p # remove_address st address ps)"

definition RemoveBackend :: "store \<Rightarrow> LoadBalancer \<Rightarrow> string \<Rightarrow> string \<Rightarrow> LoadBalancer" where
  "RemoveBackend st lb address serviceName =
     (case map_of (backends lb) serviceName of
        None \<Rightarrow> lb
      | Some ps \<Rightarrow> lb\<lparr>backends := map_set serviceName (remove_address st address ps) (backends lb)\<rparr>)"

section \<open>Algorithms\<close>

definition wrap64 :: "int \<Rightarrow> int" where
  "wrap64 x = (x + 2 ^ 63) mod 2 ^ 64 - 2 ^ 63"

text \<open>\<^verbatim>\<open>a % b\<close> on \<^verbatim>\<open>int\<close> truncates towards zero.\<close>

definition go_rem :: "int \<Rightarrow> int \<Rightarrow> int" where
  "go_rem a b = (if a < 0 then - ((- a) mod \<bar>b\<bar>) else a mod \<bar>b\<bar>)"

definition rr_current :: "rr_states \<Rightarrow> string \<Rightarrow> u32" where
  "rr_current states svc = (case states svc of None \<Rightarrow> 0 | Some s \<Rightarrow> current s)"

definition roundRobin_Select :: "rr_states \<Rightarrow> ptr list \<Rightarrow> string \<Rightarrow> ptr option \<times> rr_states" where
  "roundRobin_Select states bs serviceName =
     (if length bs = 0 then (None, states)
      else let c = rr_current states serviceName + 1;
               index = c mod of_nat (length bs)
           in (Some (bs ! unat index), states(serviceName \<mapsto> \<lparr>current = c\<rparr>)))"

fun least_loop :: "store \<Rightarrow> i32 \<Rightarrow> ptr option \<Rightarrow> ptr list \<Rightarrow> ptr option" where
  "least_loop st leastConn best [] = best"
| "least_loop st leastConn best (p # ps) =
     (if \<not> IsHealthy (st p) then least_loop st leastConn best ps
      else if Connections (st p) <s leastConn then least_loop st (Connections (st p)) (Some p) ps
      else least_loop st leastConn best ps)"

definition leastConnection_Select :: "store \<Rightarrow> ptr list \<Rightarrow> ptr option" where
  "leastConnection_Select st bs = least_loop st (drop_bit 1 (NOT 0)) None bs"

definition resolveWeight :: "Weight list \<Rightarrow> Backend \<Rightarrow> int" where
  "resolveWeight weights b =
     (let w = (case find (\<lambda>w. W_ServiceName w = B_ServiceName b) weights of Some w \<Rightarrow> W_Weight w | None \<Rightarrow> B_Weight b)
      in if w = 0 then 1 else w)"

fun pick_weighted :: "int \<Rightarrow> (ptr \<times> int) list \<Rightarrow> ptr option" where
  "pick_weighted point [] = None"
| "pick_weighted point ((p, w) # rest) =
     (let point' = wrap64 (point - w) in if point' < 0 then Some p else pick_weighted point' rest)"

definition weightedRoundRobin_Select ::
  "rr_states \<Rightarrow> Weight list \<Rightarrow> store \<Rightarrow> ptr list \<Rightarrow> string \<Rightarrow> ptr option \<times> rr_states" where
  "weightedRoundRobin_Select states weights st bs serviceName =
     (if length bs = 0 then (None, states)
      else let states' = (if states serviceName = None then states(serviceName \<mapsto> \<lparr>current = 0\<rparr>) else states);
               pairs = map (\<lambda>p. (p, resolveWeight weights (st p))) (filter (\<lambda>p. IsHealthy (st p)) bs);
               totalWeight = foldl (\<lambda>t pw. wrap64 (t + snd pw)) 0 pairs
           in if totalWeight = 0 then (None, states')
              else let c = rr_current states' serviceName + 1;
                       point = go_rem (uint c) totalWeight;
                       states'' = states'(serviceName \<mapsto> \<lparr>current = c\<rparr>)
                   in (case pick_weighted point pairs of
                         Some p \<Rightarrow> (Some p, states'')
                       | None \<Rightarrow> (Some (fst (hd pairs)), states'')))"

text \<open>FNV-1a over the bytes of the client address.\<close>

definition fnv32a :: "string \<Rightarrow> u32" where
  "fnv32a s = foldl (\<lambda>h c. (h XOR of_char c) * 16777619) 2166136261 s"

definition ipHash_Select :: "store \<Rightarrow> ptr list \<Rightarrow> string \<Rightarrow> ptr option" where
  "ipHash_Select st bs clientIP =
     (if length bs = 0 then None
      else let healthyBackends = filter (\<lambda>p. IsHealthy (st p)) bs in
        if length healthyBackends = 0 then None
        else Some (healthyBackends ! unat (fnv32a clientIP mod of_nat (length healthyBackends))))"

definition random_Select :: "(nat \<Rightarrow> nat) \<Rightarrow> store \<Rightarrow> ptr list \<Rightarrow> ptr option" where
  "random_Select Intn st bs =
     (if length bs = 0 then None
      else let healthyBackends = filter (\<lambda>p. IsHealthy (st p)) bs in
        if length healthyBackends = 0 then None
        else Some (healthyBackends ! Intn (length healthyBackends)))"

definition Select :: "(nat \<Rightarrow> nat) \<Rightarrow> Algorithm \<Rightarrow> store \<Rightarrow> ptr list \<Rightarrow> string \<Rightarrow> string \<Rightarrow> ptr option \<times> Algorithm" where
  "Select Intn alg st bs serviceName clientIP =
     (case alg of
        roundRobinAlgorithm states \<Rightarrow> apsnd roundRobinAlgorithm (roundRobin_Select states bs serviceName)
      | leastConnectionAlgorithm \<Rightarrow> (leastConnection_Select st bs, alg)
      | weightedRoundRobinAlgorithm states ws \<Rightarrow>
          apsnd (\<lambda>s. weightedRoundRobinAlgorithm s ws) (weightedRoundRobin_Select states ws st bs serviceName)
      | ipHashAlgorithm \<Rightarrow> (ipHash_Select st bs clientIP, alg)
      | randomAlgorithm \<Rightarrow> (random_Select Intn st bs, alg))"

definition NewAlgorithm :: "BalancerType \<Rightarrow> Weight list \<Rightarrow> Algorithm" where
  "NewAlgorithm balancerType weights =
     (if balancerType = LeastConnection then leastConnectionAlgorithm
      else if balancerType = WeightedRoundRobin then weightedRoundRobinAlgorithm Map.empty weights
      else if balancerType = IPHash then ipHashAlgorithm
      else if balancerType = RandomSelection then randomAlgorithm
      else roundRobinAlgorithm Map.empty)"

section \<open>The balancer\<close>

definition second :: int where "second = 1000000000"

definition protocolTCP :: string where "protocolTCP = ''TCP''"

text \<open>\<^verbatim>\<open>NewLoadBalancer\<close>, with whether it starts the health check loop.\<close>

definition NewLoadBalancer :: "BalancerConfig \<Rightarrow> LoadBalancer \<times> bool" where
  "NewLoadBalancer conf =
     (let c1 = (if BC_HealthCheck conf \<and> CheckInterval conf \<le> 0 then conf\<lparr>CheckInterval := second * 5\<rparr> else conf);
          o1 = HealthCheckOpts c1;
          o2 = (if Timeout o1 \<le> 0 then o1\<lparr>Timeout := second\<rparr> else o1);
          o3 = (if Protocol o2 = [] then o2\<lparr>Protocol := protocolTCP\<rparr> else o2);
          c2 = c1\<lparr>HealthCheckOpts := o3\<rparr>
      in (\<lparr>backends = [], stats = [], config = c2, algorithm = NewAlgorithm (Type c2) (BC_Weights c2)\<rparr>,
          BC_HealthCheck c2))"

definition NextBackend ::
  "(nat \<Rightarrow> nat) \<Rightarrow> store \<Rightarrow> LoadBalancer \<Rightarrow> string \<Rightarrow> string \<Rightarrow> ptr option \<times> LoadBalancer" where
  "NextBackend Intn st lb serviceName clientIP =
     (case map_of (backends lb) serviceName of
        None \<Rightarrow> (None, lb)
      | Some bs \<Rightarrow>
          if length bs = 0 then (None, lb)
          else apsnd (\<lambda>a. lb\<lparr>algorithm := a\<rparr>) (Select Intn (algorithm lb) st bs serviceName clientIP))"

definition GetStats :: "LoadBalancer \<Rightarrow> string \<Rightarrow> LoadBalancerStats" where
  "GetStats lb serviceName = (case map_of (stats lb) serviceName of Some s \<Rightarrow> s | None \<Rightarrow> zero_stats)"

definition UpdateMetrics :: "store \<Rightarrow> LoadBalancer \<Rightarrow> metric_op list" where
  "UpdateMetrics st lb =
     concat (map (\<lambda>(serviceName, ps). concat (map (\<lambda>p.
        RecordBackendHealth (Address (st p)) serviceName (IsHealthy (st p)) @
        RecordBackendConnections (Address (st p)) serviceName (real_of_int (sint (Connections (st p))))) ps)) (backends lb))"

section \<open>Selection in cycles\<close>

text \<open>The results of \<open>n\<close> selections in a row.\<close>

primrec picks :: "('s \<Rightarrow> 'b option \<times> 's) \<Rightarrow> nat \<Rightarrow> 's \<Rightarrow> 'b option list" where
  "picks sel 0 s = []"
| "picks sel (Suc n) s = fst (sel s) # picks sel n (snd (sel s))"

lemma count_list_rotate: "count_list (rotate m xs) x = count_list xs x"
proof -
  have "count_list (rotate m xs) x = count_list (take (m mod length xs) xs @ drop (m mod length xs) xs) x"
    unfolding rotate_drop_take count_list_append by simp
  then show ?thesis by simp
qed

text \<open>A selector with a counter that steps through a list, its cycle, as long as the counter does not wrap
  around.  The parameter \<open>a\<close> is what stays fixed from one selection to the next.\<close>

locale cyclic_choice =
  fixes sel :: "'a \<Rightarrow> 's \<Rightarrow> 'b option \<times> 's"
    and counter :: "'a \<Rightarrow> 's \<Rightarrow> nat"
    and cycle :: "'a \<Rightarrow> 'b list"
    and ready :: "'a \<Rightarrow> bool"
  assumes cycle_nonempty: "ready a \<Longrightarrow> cycle a \<noteq> []"
    and sel_at: "ready a \<Longrightarrow> counter a s + 1 < 2 ^ 32
      \<Longrightarrow> fst (sel a s) = Some (cycle a ! ((counter a s + 1) mod length (cycle a)))"
    and counter_step: "ready a \<Longrightarrow> counter a s + 1 < 2 ^ 32 \<Longrightarrow> counter a (snd (sel a s)) = counter a s + 1"
begin

lemma picks_at:
  "ready a \<Longrightarrow> counter a s + n < 2 ^ 32
   \<Longrightarrow> picks (sel a) n s = map (\<lambda>k. Some (cycle a ! ((counter a s + 1 + k) mod length (cycle a)))) [0..<n]"
proof (induction n arbitrary: s)
  case (Suc n)
  then have IH: "picks (sel a) n (snd (sel a s)) =
      map (\<lambda>k. Some (cycle a ! ((counter a s + 2 + k) mod length (cycle a)))) [0..<n]"
    by (simp add: counter_step)
  have "[0..<Suc n] = 0 # map Suc [0..<n]" by (simp add: map_Suc_upt upt_conv_Cons del: upt_Suc)
  then show ?case using Suc.prems by (simp add: IH sel_at comp_def)
qed simp

lemma one_cycle:
  assumes "ready a" "counter a s + length (cycle a) < 2 ^ 32"
  shows "picks (sel a) (length (cycle a)) s =
    map Some (rotate ((counter a s + 1) mod length (cycle a)) (cycle a))"
  by (rule nth_equalityI)
     (simp_all add: picks_at [OF assms] nth_rotate mod_add_left_eq add.assoc)

lemma one_cycle_counts:
  assumes "ready a" "counter a s + length (cycle a) < 2 ^ 32"
  shows "count_list (picks (sel a) (length (cycle a)) s) (Some x) = count_list (cycle a) x"
proof -
  have "count_list (map Some xs) (Some x) = count_list xs x" for xs :: "'b list"
    by (induction xs) auto
  then show ?thesis by (simp add: one_cycle [OF assms] count_list_rotate)
qed

end

subsection \<open>Round robin\<close>

lemma unat_inc_u32: "unat c + 1 < 2 ^ 32 \<Longrightarrow> unat (c + 1) = unat c + 1" for c :: u32
  by (simp add: unat_word_ariths)

lemma unat_of_nat_u32: "n < 2 ^ 32 \<Longrightarrow> unat (of_nat n :: u32) = n"
  by (simp add: unsigned_of_nat take_bit_nat_eq_self)

definition rr_sel :: "ptr list \<times> string \<Rightarrow> rr_states \<Rightarrow> ptr option \<times> rr_states" where
  "rr_sel = (\<lambda>(bs, svc) states. roundRobin_Select states bs svc)"

interpretation rr: cyclic_choice rr_sel "\<lambda>(bs, svc) states. unat (rr_current states svc)" fst
  "\<lambda>(bs, svc). bs \<noteq> [] \<and> length bs < 2 ^ 32"
  by unfold_locales
     (auto simp: rr_sel_def roundRobin_Select_def Let_def rr_current_def unat_mod unat_inc_u32 unat_of_nat_u32
           split: option.splits)

subsection \<open>Weighted round robin\<close>

lemma wrap64_id: "- (2 ^ 63) \<le> x \<Longrightarrow> x < 2 ^ 63 \<Longrightarrow> wrap64 x = x"
  by (simp add: wrap64_def)

definition weighted :: "Weight list \<Rightarrow> store \<Rightarrow> ptr list \<Rightarrow> (ptr \<times> int) list" where
  "weighted ws st bs = map (\<lambda>p. (p, resolveWeight ws (st p))) (filter (\<lambda>p. IsHealthy (st p)) bs)"

text \<open>The cycle of the weighted selection: every healthy backend as often as its weight says.\<close>

definition expand :: "(ptr \<times> int) list \<Rightarrow> ptr list" where
  "expand pairs = concat (map (\<lambda>(p, w). replicate (nat w) p) pairs)"

definition positive :: "(ptr \<times> int) list \<Rightarrow> bool" where
  "positive pairs \<longleftrightarrow> list_all (\<lambda>pw. 0 < snd pw) pairs \<and> sum_list (map snd pairs) < 2 ^ 63"

lemma sum_nonneg: "list_all (\<lambda>pw. 0 < snd pw) pairs \<Longrightarrow> 0 \<le> sum_list (map snd pairs)" for pairs :: "('a \<times> int) list"
  by (induction pairs) auto

lemma foldl_total:
  "0 \<le> t \<Longrightarrow> list_all (\<lambda>pw. 0 < snd pw) pairs \<Longrightarrow> t + sum_list (map snd pairs) < 2 ^ 63
   \<Longrightarrow> foldl (\<lambda>t pw. wrap64 (t + snd pw)) t pairs = t + sum_list (map snd pairs)"
proof (induction pairs arbitrary: t)
  case (Cons pw pairs)
  then have "0 \<le> sum_list (map snd pairs)" using sum_nonneg [of pairs] by simp
  with Cons.prems have "wrap64 (t + snd pw) = t + snd pw" by (intro wrap64_id) auto
  then show ?case using Cons by simp
qed simp

lemma length_expand:
  "list_all (\<lambda>pw. 0 < snd pw) pairs \<Longrightarrow> int (length (expand pairs)) = sum_list (map snd pairs)"
  by (induction pairs) (auto simp: expand_def)

lemma pick_weighted_nth:
  "list_all (\<lambda>pw. 0 < snd pw) pairs \<Longrightarrow> sum_list (map snd pairs) < 2 ^ 63 \<Longrightarrow> 0 \<le> point
   \<Longrightarrow> point < sum_list (map snd pairs) \<Longrightarrow> pick_weighted point pairs = Some (expand pairs ! nat point)"
proof (induction pairs arbitrary: point)
  case (Cons pw pairs)
  obtain p w where pw: "pw = (p, w)" by (cases pw)
  have s: "0 \<le> sum_list (map snd pairs)" using Cons.prems(1) sum_nonneg [of pairs] by simp
  have wrap: "wrap64 (point - w) = point - w"
    using Cons.prems pw s by (intro wrap64_id) auto
  have exp: "expand (pw # pairs) = replicate (nat w) p @ expand pairs" by (simp add: expand_def pw)
  show ?case
  proof (cases "point < w")
    case True
    then have "expand (pw # pairs) ! nat point = p"
      using Cons.prems(3) unfolding exp by (subst nth_append) auto
    then show ?thesis using True by (simp add: pw wrap)
  next
    case False
    have "nat point - nat w = nat (point - w)" using False Cons.prems(1,3) pw by auto
    then have "expand (pw # pairs) ! nat point = expand pairs ! nat (point - w)"
      using False unfolding exp by (subst nth_append) auto
    moreover have "pick_weighted (point - w) pairs = Some (expand pairs ! nat (point - w))"
      using Cons.prems pw False by (intro Cons.IH) auto
    ultimately show ?thesis using False by (simp add: pw wrap)
  qed
qed simp

lemma expand_nonempty: "positive pairs \<Longrightarrow> pairs \<noteq> [] \<Longrightarrow> expand pairs \<noteq> []"
  by (cases pairs) (auto simp: expand_def positive_def)

definition wrr_sel :: "Weight list \<times> store \<times> ptr list \<times> string \<Rightarrow> rr_states \<Rightarrow> ptr option \<times> rr_states" where
  "wrr_sel = (\<lambda>(ws, st, bs, svc) states. weightedRoundRobin_Select states ws st bs svc)"

lemma weightedRoundRobin_Select_eq:
  assumes "positive (weighted ws st bs)" "weighted ws st bs \<noteq> []"
  shows "weightedRoundRobin_Select states ws st bs svc =
    (let c = rr_current states svc + 1
     in (Some (expand (weighted ws st bs) ! (unat c mod length (expand (weighted ws st bs)))),
         states(svc \<mapsto> \<lparr>current = c\<rparr>)))"
proof -
  let ?pairs = "weighted ws st bs" and ?c = "rr_current states svc + 1"
  let ?T = "sum_list (map snd ?pairs)"
  have pos: "list_all (\<lambda>pw. 0 < snd pw) ?pairs" "?T < 2 ^ 63" using assms(1) by (simp_all add: positive_def)
  have len: "int (length (expand ?pairs)) = ?T" using length_expand [OF pos(1)] .
  have T: "0 < ?T" using assms(2) pos(1) sum_nonneg [of "tl ?pairs"] by (cases ?pairs) auto
  have total: "foldl (\<lambda>t pw. wrap64 (t + snd pw)) 0 ?pairs = ?T" using foldl_total [of 0 ?pairs] pos by simp
  have rem: "go_rem (uint ?c) ?T = int (unat ?c mod length (expand ?pairs))"
  proof -
    have "go_rem (uint ?c) ?T = uint ?c mod ?T" using T by (simp add: go_rem_def)
    also have "\<dots> = int (unat ?c) mod int (length (expand ?pairs))" by (simp only: len uint_nat)
    finally show ?thesis by (simp only: zmod_int)
  qed
  have "0 < length (expand ?pairs)" using T unfolding len [symmetric] by simp
  then have "unat ?c mod length (expand ?pairs) < length (expand ?pairs)" by (rule mod_less_divisor)
  then have pick: "pick_weighted (go_rem (uint ?c) ?T) ?pairs =
      Some (expand ?pairs ! (unat ?c mod length (expand ?pairs)))"
    unfolding rem using pick_weighted_nth [OF pos, of "int (unat ?c mod length (expand ?pairs))"]
    by (simp only: len [symmetric] of_nat_0_le_iff of_nat_less_iff nat_int simp_thms)
  have ne: "length bs \<noteq> 0" using assms(2) by (auto simp: weighted_def)
  have cur: "rr_current (if states svc = None then states(svc \<mapsto> \<lparr>current = 0\<rparr>) else states) svc = rr_current states svc"
    by (simp add: rr_current_def)
  show ?thesis
    using T ne pick unfolding weightedRoundRobin_Select_def weighted_def [symmetric] Let_def total cur
    by simp
qed

interpretation wrr: cyclic_choice wrr_sel "\<lambda>(ws, st, bs, svc) states. unat (rr_current states svc)"
  "\<lambda>(ws, st, bs, svc). expand (weighted ws st bs)"
  "\<lambda>(ws, st, bs, svc). positive (weighted ws st bs) \<and> weighted ws st bs \<noteq> []"
proof (unfold_locales, goal_cases)
  case (1 a)
  then show ?case
    by (auto simp: expand_nonempty split: prod.splits)
next
  case (2 a s)
  then show ?case
    by (auto simp: wrr_sel_def weightedRoundRobin_Select_eq Let_def unat_inc_u32 split: prod.splits)
next
  case (3 a s)
  then show ?case
    by (auto simp: wrr_sel_def weightedRoundRobin_Select_eq Let_def unat_inc_u32 rr_current_def split: prod.splits option.splits)
qed

subsection \<open>Least connections\<close>

abbreviation conns :: "store \<Rightarrow> ptr \<Rightarrow> int" where
  "conns st p \<equiv> sint (Connections (st p))"

definition least_at :: "store \<Rightarrow> ptr list \<Rightarrow> ptr \<Rightarrow> bool" where
  "least_at st bs p \<longleftrightarrow> IsHealthy (st p) \<and> (\<exists>xs ys. bs = xs @ p # ys
     \<and> (\<forall>q \<in> set xs. IsHealthy (st q) \<longrightarrow> conns st p < conns st q)
     \<and> (\<forall>q \<in> set ys. IsHealthy (st q) \<longrightarrow> conns st p \<le> conns st q))"

lemma least_at_Cons: "least_at st bs p \<Longrightarrow> IsHealthy (st q) \<longrightarrow> conns st p < conns st q \<Longrightarrow> least_at st (q # bs) p"
  unfolding least_at_def by (metis append_Cons set_ConsD)

lemma least_loop_cases:
  "(least_loop st m best ps = best \<and> (\<forall>q \<in> set ps. IsHealthy (st q) \<longrightarrow> sint m \<le> conns st q))
   \<or> (\<exists>p. least_loop st m best ps = Some p \<and> least_at st ps p \<and> conns st p < sint m)"
proof (induction ps arbitrary: m best)
  case (Cons p ps)
  show ?case
  proof (cases "IsHealthy (st p) \<and> conns st p < sint m")
    case True
    then have step: "least_loop st m best (p # ps) = least_loop st (Connections (st p)) (Some p) ps"
      by (simp add: word_sless_alt)
    from Cons.IH [of "Connections (st p)" "Some p"] show ?thesis
    proof (elim disjE conjE exE)
      assume "least_loop st (Connections (st p)) (Some p) ps = Some p"
        "\<forall>q \<in> set ps. IsHealthy (st q) \<longrightarrow> conns st p \<le> conns st q"
      moreover from this True have "least_at st (p # ps) p" unfolding least_at_def by (metis append_Nil empty_iff empty_set)
      ultimately show ?thesis using True step by auto
    next
      fix q assume "least_loop st (Connections (st p)) (Some p) ps = Some q" "least_at st ps q" "conns st q < conns st p"
      then show ?thesis using True step least_at_Cons [of st ps q p] by fastforce
    qed
  next
    case False
    then have step: "least_loop st m best (p # ps) = least_loop st m best ps" by (auto simp: word_sless_alt)
    from Cons.IH [of m best] show ?thesis
      using False step least_at_Cons [of st ps _ p] by fastforce
  qed
qed simp

lemma max_int32: "sint (drop_bit 1 (NOT 0) :: i32) = 2 ^ 31 - 1"
  by (simp add: drop_bit_eq_div)

lemma conns_le: "conns st p \<le> 2 ^ 31 - 1"
  using sint_less [of "Connections (st p)"] by simp

section \<open>The contract of an algorithm\<close>

text \<open>What the balancer relies on: a selection is one of the given backends.  \<open>sane\<close> is what the state of the
  algorithm has to satisfy; a list of \<open>2^32\<close> backends or more is out of reach.\<close>

locale algorithm_contract =
  fixes select :: "store \<Rightarrow> ptr list \<Rightarrow> string \<Rightarrow> string \<Rightarrow> 's \<Rightarrow> ptr option \<times> 's"
    and sane :: "'s \<Rightarrow> bool"
  assumes member: "fst (select st bs svc client s) = Some p \<Longrightarrow> sane s \<Longrightarrow> length bs < 2 ^ 32 \<Longrightarrow> p \<in> set bs"
begin

lemma select_empty: "sane s \<Longrightarrow> fst (select st [] svc client s) = None"
  using member [of st "[]" svc client s] by (cases "fst (select st [] svc client s)") auto

lemma select_singleton: "fst (select st [q] svc client s) = Some p \<Longrightarrow> sane s \<Longrightarrow> p = q"
  using member [of st "[q]" svc client s p] by simp

end

text \<open>The algorithms that look at the health of the backends.\<close>

locale healthy_algorithm = algorithm_contract +
  assumes healthy: "fst (select st bs svc client s) = Some p \<Longrightarrow> sane s \<Longrightarrow> length bs < 2 ^ 32 \<Longrightarrow> IsHealthy (st p)"
begin

lemma none_healthy:
  assumes "\<forall>p \<in> set bs. \<not> IsHealthy (st p)" "sane s" "length bs < 2 ^ 32"
  shows "fst (select st bs svc client s) = None"
  using assms member [of st bs svc client s] healthy [of st bs svc client s]
  by (cases "fst (select st bs svc client s)") auto

end

lemma unat_mod_less: "0 < n \<Longrightarrow> n < 2 ^ 32 \<Longrightarrow> unat (c mod of_nat n :: u32) < n"
  by (simp add: unat_mod unat_of_nat_u32)

interpretation rr_alg: algorithm_contract "\<lambda>st bs svc client s. roundRobin_Select s bs svc" "\<lambda>_. True"
  by unfold_locales (auto simp: roundRobin_Select_def Let_def unat_mod_less split: if_splits)

interpretation lc_alg: healthy_algorithm "\<lambda>st bs svc client (s :: unit). (leastConnection_Select st bs, s)" "\<lambda>_. True"
proof (unfold_locales, goal_cases)
  case (1 st bs svc client s p)
  then show ?case
    using least_loop_cases [of st "drop_bit 1 (NOT 0)" None bs] by (auto simp: leastConnection_Select_def least_at_def)
next
  case (2 st bs svc client s p)
  then show ?case
    using least_loop_cases [of st "drop_bit 1 (NOT 0)" None bs] by (auto simp: leastConnection_Select_def least_at_def)
qed

lemma pick_weighted_member: "pick_weighted point pairs = Some p \<Longrightarrow> p \<in> fst ` set pairs"
  by (induction point pairs rule: pick_weighted.induct) (auto simp: Let_def split: if_splits)

lemma weightedRoundRobin_member:
  assumes "fst (weightedRoundRobin_Select s ws st bs svc) = Some p"
  shows "p \<in> set bs \<and> IsHealthy (st p)"
proof -
  define pairs where "pairs = weighted ws st bs"
  note sel = assms [unfolded weightedRoundRobin_Select_def Let_def weighted_def [symmetric] pairs_def [symmetric]]
  have "pairs \<noteq> []" using sel by (auto split: if_splits)
  then have "p \<in> fst ` set pairs"
    using sel by (auto dest: pick_weighted_member split: if_splits option.splits)
  then show ?thesis by (auto simp: pairs_def weighted_def)
qed

interpretation wrr_alg: healthy_algorithm
  "\<lambda>st bs svc client (s, ws). map_prod id (\<lambda>s'. (s', ws)) (weightedRoundRobin_Select s ws st bs svc)" "\<lambda>_. True"
  by unfold_locales (auto dest: weightedRoundRobin_member)

lemma nth_healthy: "i < length (filter (\<lambda>p. IsHealthy (st p)) bs) \<Longrightarrow>
    filter (\<lambda>p. IsHealthy (st p)) bs ! i \<in> set bs \<and> IsHealthy (st (filter (\<lambda>p. IsHealthy (st p)) bs ! i))"
  using nth_mem [of i "filter (\<lambda>p. IsHealthy (st p)) bs"] by simp

lemma ipHash_member:
  assumes "ipHash_Select st bs client = Some p" "length bs < 2 ^ 32"
  shows "p \<in> set bs \<and> IsHealthy (st p)"
proof -
  have "length (filter (\<lambda>p. IsHealthy (st p)) bs) < 2 ^ 32" using assms(2) le_less_trans [OF length_filter_le] by blast
  then show ?thesis
    using assms(1) nth_healthy [OF unat_mod_less] by (auto simp: ipHash_Select_def Let_def split: if_splits)
qed

interpretation iph_alg: healthy_algorithm "\<lambda>st bs svc client (s :: unit). (ipHash_Select st bs client, s)" "\<lambda>_. True"
  by unfold_locales (auto dest: ipHash_member)

lemma random_member:
  "random_Select Intn st bs = Some p \<Longrightarrow> \<forall>n > 0. Intn n < n \<Longrightarrow> p \<in> set bs \<and> IsHealthy (st p)"
  using nth_healthy [of "Intn (length (filter (\<lambda>p. IsHealthy (st p)) bs))" st bs]
  by (auto simp: random_Select_def Let_def split: if_splits)

interpretation rnd_alg: healthy_algorithm "\<lambda>st bs svc client Intn. (random_Select Intn st bs, Intn)" "\<lambda>Intn. \<forall>n > 0. Intn n < n"
  by unfold_locales (auto dest: random_member)

lemma Select_member:
  assumes "fst (Select Intn alg st bs svc client) = Some p" "\<forall>n > 0. Intn n < n" "length bs < 2 ^ 32"
  shows "p \<in> set bs \<and> ((\<exists>states. alg = roundRobinAlgorithm states) \<or> IsHealthy (st p))"
proof (cases alg)
  case (roundRobinAlgorithm states)
  then show ?thesis using assms rr_alg.member [where bs = bs and p = p] by (simp add: Select_def)
next
  case leastConnectionAlgorithm
  then show ?thesis
    using assms lc_alg.member [where st = st and bs = bs and p = p] lc_alg.healthy [where st = st and bs = bs and p = p]
    by (simp add: Select_def)
next
  case (weightedRoundRobinAlgorithm states ws)
  then show ?thesis using assms weightedRoundRobin_member [of states ws st bs svc p] by (simp add: Select_def)
next
  case ipHashAlgorithm
  then show ?thesis
    using assms iph_alg.member [where st = st and bs = bs and p = p] iph_alg.healthy [where st = st and bs = bs and p = p]
    by (simp add: Select_def)
next
  case randomAlgorithm
  then show ?thesis
    using assms rnd_alg.member [where st = st and bs = bs and p = p] rnd_alg.healthy [where st = st and bs = bs and p = p]
    by (simp add: Select_def)
qed

lemma NextBackend_Some:
  "fst (NextBackend Intn st lb svc client) = Some p \<Longrightarrow>
   \<exists>bs. map_of (backends lb) svc = Some bs \<and> fst (Select Intn (algorithm lb) st bs svc client) = Some p"
  by (auto simp: NextBackend_def split: option.splits if_splits)

section \<open>The balancer over time\<close>

text \<open>The states that the balancer's operations can produce; the store and the random source may be different
  at every step.\<close>

inductive lb_reachable :: "LoadBalancer \<Rightarrow> bool" where
  new: "lb_reachable (fst (NewLoadBalancer conf))"
| add: "lb_reachable lb \<Longrightarrow> lb_reachable (AddBackend st lb p)"
| remove: "lb_reachable lb \<Longrightarrow> lb_reachable (RemoveBackend st lb address svc)"
| select: "lb_reachable lb \<Longrightarrow> lb_reachable (snd (NextBackend Intn st lb svc client))"

lemma backends_AddBackend:
  "map_of (backends (AddBackend st lb p)) =
     (map_of (backends lb))(B_ServiceName (st p) \<mapsto>
        (case map_of (backends lb) (B_ServiceName (st p)) of None \<Rightarrow> [] | Some bs \<Rightarrow> bs) @ [p])"
  by (auto simp: AddBackend_def Let_def split: option.splits)

lemma backends_RemoveBackend:
  "map_of (backends (RemoveBackend st lb address svc)) =
     (case map_of (backends lb) svc of None \<Rightarrow> map_of (backends lb)
      | Some bs \<Rightarrow> (map_of (backends lb))(svc \<mapsto> remove_address st address bs))"
  by (auto simp: RemoveBackend_def split: option.splits)

lemma stats_simps [simp]:
  "stats (RemoveBackend st lb address svc) = stats lb"
  "stats (snd (NextBackend Intn st lb svc client)) = stats lb"
  by (auto simp: RemoveBackend_def NextBackend_def split: option.splits)

lemma stats_AddBackend:
  "map_of (stats (AddBackend st lb p)) k = map_of (stats lb) k \<or> map_of (stats (AddBackend st lb p)) k = Some zero_stats"
  by (simp add: AddBackend_def Let_def)

lemma stats_zero: "lb_reachable lb \<Longrightarrow> map_of (stats lb) k = None \<or> map_of (stats lb) k = Some zero_stats"
proof (induction rule: lb_reachable.induct)
  case (new conf)
  then show ?case by (simp add: NewLoadBalancer_def Let_def)
next
  case (add lb st p)
  then show ?case using stats_AddBackend [of st lb p k] by auto
qed simp_all

lemma remove_address_snoc:
  "Address (st p) \<notin> (\<lambda>q. Address (st q)) ` set bs \<Longrightarrow> remove_address st (Address (st p)) (bs @ [p]) = bs"
  by (induction bs) auto

lemma count_expand:
  "distinct (map fst pairs) \<Longrightarrow> (p, w) \<in> set pairs \<Longrightarrow> count_list (expand pairs) p = nat w"
proof (induction pairs)
  case (Cons pw pairs)
  have rep: "count_list (replicate n x) y = (if x = y then n else 0)" for n and x y :: ptr
    by (induction n) auto
  have none: "p \<notin> fst ` set xs \<Longrightarrow> count_list (expand xs) p = 0" for xs
    by (induction xs) (auto simp: expand_def rep)
  show ?case
  proof (cases "pw = (p, w)")
    case True
    then show ?thesis using Cons.prems(1) none [of pairs] by (simp add: expand_def rep)
  next
    case False
    then have "(p, w) \<in> set pairs" using Cons.prems(2) by simp
    moreover from this have "fst pw \<noteq> p" using Cons.prems(1) by (force simp: image_iff)
    ultimately show ?thesis using Cons by (cases pw) (simp add: expand_def rep)
  qed
qed simp

lemma positive_bounded:
  assumes "\<forall>q \<in> set bs. IsHealthy (st q) \<longrightarrow> 0 < resolveWeight ws (st q) \<and> resolveWeight ws (st q) \<le> 100"
    "length bs < 2 ^ 32"
  shows "positive (weighted ws st bs)"
proof -
  have "sum_list (map snd (weighted ws st bs)) \<le> 100 * int (length bs)"
    using assms(1) by (induction bs) (auto simp: weighted_def)
  moreover have "(100 :: int) * int (length bs) < 2 ^ 63" using assms(2) by simp
  moreover have "list_all (\<lambda>pw. 0 < snd pw) (weighted ws st bs)"
    using assms(1) by (auto simp: weighted_def list_all_iff)
  ultimately show ?thesis by (simp add: positive_def)
qed

lemma max_int32_mask: "sint (mask 31 :: i32) = 2147483647"
  by (simp add: mask_eq_exp_minus_1)

section \<open>Properties\<close>

text \<open>C22: round robin is fair: as many selections in a row as there are backends give every position of the list
  once, in order, starting after the last one given (while the 32-bit counter does not wrap around).\<close>

theorem roundRobin_fair:
  assumes "bs \<noteq> []" "unat (rr_current states svc) + length bs < 2 ^ 32"
  shows "picks (\<lambda>s. roundRobin_Select s bs svc) (length bs) states =
    map Some (rotate ((unat (rr_current states svc) + 1) mod length bs) bs)"
  using rr.one_cycle [of "(bs, svc)" states] assms by (simp add: rr_sel_def)

theorem roundRobin_fair_witness:
  "picks (\<lambda>s. roundRobin_Select s [7, 8, 9] ''web'') 3 Map.empty = [Some 8, Some 9, Some 7]"
proof -
  have three: "3 = length [7 :: ptr, 8, 9]" by simp
  show ?thesis unfolding three
    using roundRobin_fair [of "[7, 8, 9]" Map.empty "''web''"] by (simp add: rr_current_def)
qed

text \<open>C23: weighted round robin is proportional: in as many selections as the healthy weights add up to, a
  healthy backend is chosen as often as its weight says (weights from 1 to 100, while the 32-bit counter does not wrap around).\<close>

theorem weightedRoundRobin_proportional:
  assumes "distinct bs" "p \<in> set bs" "IsHealthy (st p)" "length bs < 2 ^ 32"
    "\<forall>q \<in> set bs. IsHealthy (st q) \<longrightarrow> 0 < resolveWeight ws (st q) \<and> resolveWeight ws (st q) \<le> 100"
    "n = nat (\<Sum>q \<leftarrow> filter (\<lambda>q. IsHealthy (st q)) bs. resolveWeight ws (st q))"
    "unat (rr_current states svc) + n < 2 ^ 32"
  shows "count_list (picks (\<lambda>s. weightedRoundRobin_Select s ws st bs svc) n states) (Some p) = nat (resolveWeight ws (st p))"
proof -
  let ?pairs = "weighted ws st bs"
  have pos: "positive ?pairs" using assms(5,4) by (rule positive_bounded)
  have mem: "(p, resolveWeight ws (st p)) \<in> set ?pairs" using assms(2,3) by (auto simp: weighted_def)
  then have ne: "?pairs \<noteq> []" by auto
  have "int (length (expand ?pairs)) = sum_list (map snd ?pairs)"
    using pos length_expand by (simp add: positive_def)
  also have "\<dots> = (\<Sum>q \<leftarrow> filter (\<lambda>q. IsHealthy (st q)) bs. resolveWeight ws (st q))"
    by (simp add: weighted_def comp_def)
  finally have n: "n = length (expand ?pairs)" using assms(6) by simp
  have "count_list (picks (\<lambda>s. weightedRoundRobin_Select s ws st bs svc) n states) (Some p) = count_list (expand ?pairs) p"
    using wrr.one_cycle_counts [of "(ws, st, bs, svc)" states p] pos ne assms(7) n by (simp add: wrr_sel_def)
  also have "\<dots> = nat (resolveWeight ws (st p))"
    using assms(1) mem by (intro count_expand) (simp_all add: weighted_def comp_def)
  finally show ?thesis .
qed

definition example_backend :: "string \<Rightarrow> i32 \<Rightarrow> i32 \<Rightarrow> int \<Rightarrow> Backend" where
  "example_backend addr h c w =
     \<lparr>Address = addr, B_Port = 80, healthy = h, Connections = c, B_ServiceName = ''web'', B_Weight = w\<rparr>"

definition example_store :: store where
  "example_store = (\<lambda>_. example_backend ''10.0.0.9'' 0 0 1)
     (0 := example_backend ''10.0.0.1'' 1 4 3, 1 := example_backend ''10.0.0.2'' 1 2 0, 2 := example_backend ''10.0.0.3'' 0 0 5)"

lemmas example_defs = example_store_def example_backend_def IsHealthy_def resolveWeight_def

theorem weightedRoundRobin_proportional_witness:
  "count_list (picks (\<lambda>s. weightedRoundRobin_Select s [] example_store [0, 1, 2] ''web'') 4 Map.empty) (Some 0) = 3"
  using weightedRoundRobin_proportional [of "[0, 1, 2]" 0 example_store "[]" 4 Map.empty "''web''"]
  by (simp add: example_defs rr_current_def)

text \<open>C24: least connections returns the first healthy backend with the fewest connections; it returns none only
  when every healthy backend has reached the largest \<^verbatim>\<open>int32\<close>.\<close>

theorem leastConnection_least:
  "case leastConnection_Select st bs of
     Some p \<Rightarrow> least_at st bs p
   | None \<Rightarrow> (\<forall>q \<in> set bs. IsHealthy (st q) \<longrightarrow> conns st q = 2 ^ 31 - 1)"
proof -
  consider (none) "leastConnection_Select st bs = None" "\<forall>q \<in> set bs. IsHealthy (st q) \<longrightarrow> 2 ^ 31 - 1 \<le> conns st q"
    | (some) p where "leastConnection_Select st bs = Some p" "least_at st bs p"
    using least_loop_cases [of st "drop_bit 1 (NOT 0)" None bs] max_int32
    unfolding leastConnection_Select_def by metis
  then show ?thesis
  proof cases
    case none
    then show ?thesis using conns_le [of st] by (auto intro: antisym)
  next
    case some
    then show ?thesis by simp
  qed
qed

theorem leastConnection_least_witness:
  "leastConnection_Select example_store [0, 1, 2] = Some 1 \<and> least_at example_store [0, 1, 2] 1"
proof -
  have "leastConnection_Select example_store [0, 1, 2] = Some 1"
    by (simp add: leastConnection_Select_def example_defs word_sless_alt max_int32_mask)
  then show ?thesis using leastConnection_least [where st = example_store and bs = "[0, 1, 2]"] by simp
qed

text \<open>C25: \<^verbatim>\<open>NextBackend\<close> gives a backend that is registered for the service, and a healthy one with every
  algorithm except round robin.\<close>

theorem NextBackend_safe:
  assumes "fst (NextBackend Intn st lb svc client) = Some p" "\<forall>n > 0. Intn n < n"
    "\<forall>bs. map_of (backends lb) svc = Some bs \<longrightarrow> length bs < 2 ^ 32"
  shows "(\<exists>bs. map_of (backends lb) svc = Some bs \<and> p \<in> set bs) \<and>
    ((\<exists>states. algorithm lb = roundRobinAlgorithm states) \<or> IsHealthy (st p))"
  using NextBackend_Some [OF assms(1)] Select_member [OF _ assms(2)] assms(3) by metis

definition example_lb :: "Algorithm \<Rightarrow> LoadBalancer" where
  "example_lb alg =
     \<lparr>backends = [(''web'', [0, 1, 2])], stats = [],
      config = \<lparr>Type = LeastConnection, BC_HealthCheck = False, CheckInterval = 0, MetricsEnabled = False, BC_Weights = [],
        HealthCheckOpts = \<lparr>Timeout = 1, Protocol = protocolTCP, HO_HTTPPath = []\<rparr>\<rparr>,
      algorithm = alg\<rparr>"

theorem NextBackend_safe_witness:
  "fst (NextBackend (\<lambda>n. n - 1) example_store (example_lb randomAlgorithm) ''web'' []) = Some 1 \<and> IsHealthy (example_store 1)"
proof -
  have "fst (NextBackend (\<lambda>n. n - 1) example_store (example_lb randomAlgorithm) ''web'' []) = Some 1"
    by (simp add: NextBackend_def Select_def random_Select_def example_lb_def example_defs)
  then show ?thesis
    using NextBackend_safe [of "\<lambda>n. n - 1" example_store "example_lb randomAlgorithm" "''web''" "[]" 1]
    by (simp add: example_lb_def)
qed

text \<open>Round robin does not look at the backends: its choice is the same whatever their health is.  A backend
  that failed its checks keeps its turns.\<close>

lemma roundRobin_ignores_health:
  assumes "algorithm lb = roundRobinAlgorithm states" "map_of (backends lb) svc = Some bs" "bs \<noteq> []"
  shows "fst (NextBackend Intn st lb svc client) = Some (bs ! unat ((rr_current states svc + 1) mod of_nat (length bs)))"
  using assms by (simp add: NextBackend_def Select_def roundRobin_Select_def Let_def)

text \<open>The hash keeps a client on its backend: the choice depends on the client address and on which of the
  backends are healthy, in their order, and on nothing else that changes; a choice is made exactly when a
  backend is healthy.\<close>

lemma ipHash_affinity:
  assumes "filter (\<lambda>p. IsHealthy (st p)) bs = filter (\<lambda>p. IsHealthy (st' p)) bs'"
  shows "ipHash_Select st bs client = ipHash_Select st' bs' client
    \<and> (ipHash_Select st bs client = None \<longleftrightarrow> (\<forall>p \<in> set bs. \<not> IsHealthy (st p)))"
  using assms by (auto simp: ipHash_Select_def Let_def filter_empty_conv) (metis filter_empty_conv list.size(3))+

text \<open>C31: removing a backend undoes adding it: the service has its old list again and the other services are as
  they were, when no backend of the service had the address before.\<close>

theorem RemoveBackend_AddBackend:
  assumes "\<forall>bs. map_of (backends lb) (B_ServiceName (st p)) = Some bs \<longrightarrow> (\<forall>q \<in> set bs. Address (st q) \<noteq> Address (st p))"
  shows "map_of (backends (RemoveBackend st (AddBackend st lb p) (Address (st p)) (B_ServiceName (st p)))) =
    (map_of (backends lb))(B_ServiceName (st p) \<mapsto>
       (case map_of (backends lb) (B_ServiceName (st p)) of None \<Rightarrow> [] | Some bs \<Rightarrow> bs))"
proof (cases "map_of (backends lb) (B_ServiceName (st p))")
  case None
  then show ?thesis by (simp add: backends_RemoveBackend backends_AddBackend)
next
  case (Some bs)
  with assms have "remove_address st (Address (st p)) (bs @ [p]) = bs"
    by (intro remove_address_snoc) (metis (no_types, lifting) image_iff)
  with Some show ?thesis by (simp add: backends_RemoveBackend backends_AddBackend)
qed

theorem RemoveBackend_AddBackend_witness:
  "map_of (backends (RemoveBackend example_store (AddBackend example_store (example_lb ipHashAlgorithm) 3) ''10.0.0.9'' ''web'')) ''web''
   = Some [0, 1, 2]"
  using RemoveBackend_AddBackend [of "example_lb ipHashAlgorithm" example_store 3]
  by (simp add: example_lb_def example_store_def example_backend_def)

text \<open>No operation updates the statistics of a service: in every reachable state \<^verbatim>\<open>GetStats\<close> reports zero
  connections and zero backends.\<close>

lemma GetStats_always_zero:
  assumes "lb_reachable lb"
  shows "GetStats lb svc = zero_stats"
  using stats_zero [OF assms, of svc] by (auto simp: GetStats_def)

end
