(* ===== verification/Api_Types.thy ===== *)
theory Api_Types
  imports Helios_Prelude
begin

text \<open>
  \<^verbatim>\<open>api/v1/heliosconfig_types.go\<close>: the custom resource and its constants.

  \<^item> \<^verbatim>\<open>int32\<close> fields are 32-bit words, read with \<open>sint\<close>.
  \<^item> A pointer that may be \<^verbatim>\<open>nil\<close> is an option.
  \<^item> A \<^verbatim>\<open>map[string]string\<close> of the status is an association list with distinct keys.  The code ranges
    over these maps, in an order that Go leaves open: a statement about every such list covers every
    order.  Reading a \<^verbatim>\<open>nil\<close> map is reading an empty one, and the code replaces a \<^verbatim>\<open>nil\<close> map before it
    writes, so both are the empty list.
  \<^item> Of \<^verbatim>\<open>metav1.ObjectMeta\<close> and \<^verbatim>\<open>metav1.Condition\<close> the fields that the code reads or writes are kept;
    \<^verbatim>\<open>LastUpdated\<close> of the status, which no code uses, and the type metadata appear in \<open>Deep_Copy\<close> only.
    A message that quotes an error carries the error itself, of the type \<open>'e\<close>.
\<close>

section \<open>Specification\<close>

record PortConfig =
  Port :: i32
  Port_Protocol :: string

record WeightConfig =
  WC_ServiceName :: string
  WC_Weight :: i32

record HealthCheckConfig =
  Enabled :: bool
  IntervalSeconds :: i32
  TimeoutMs :: i32
  HC_Protocol :: string
  HTTPPath :: string

record HeliosConfigSpec =
  IPRange :: string
  IPv6Range :: string
  Spec_Service :: string
  Spec_Protocol :: string
  Ports :: "PortConfig list"
  Spec_Method :: string
  Weights :: "WeightConfig list"
  HealthCheck :: "HealthCheckConfig option"
  NamespaceSelector :: "string list"
  MaxAllocations :: i32

section \<open>Status\<close>

datatype 'e message = MsgText string | MsgCount string nat | MsgErr 'e

record 'e Condition =
  Cond_Type :: string
  Cond_Status :: string
  Cond_Reason :: string
  Cond_Message :: "'e message"
  ObservedGeneration :: int

record 'e HeliosConfigStatus =
  AllocatedIPs :: "(string \<times> string) list"
  AllocatedIPv6s :: "(string \<times> string) list"
  State :: string
  Message :: "'e message"
  Conditions :: "'e Condition list"
  Phase :: string

record ObjectMeta =
  Name :: string
  Namespace :: string
  Generation :: int
  DeletionTimestamp :: "nat option"
  Finalizers :: "string list"

record 'e HeliosConfig =
  Meta :: ObjectMeta
  Spec :: HeliosConfigSpec
  Status :: "'e HeliosConfigStatus"

type_synonym 'e HeliosConfigList = "'e HeliosConfig list"

section \<open>Constants\<close>

definition LoadBalancerClassHelios :: string where "LoadBalancerClassHelios = ''helios-lb''"

definition MethodWeightedRoundRobin :: string where "MethodWeightedRoundRobin = ''WeightedRoundRobin''"

definition ProtocolTCP :: string where "ProtocolTCP = ''TCP''"

definition ProtocolUDP :: string where "ProtocolUDP = ''UDP''"

definition ProtocolHTTP :: string where "ProtocolHTTP = ''HTTP''"

definition StateActive :: string where "StateActive = ''Active''"

definition StateFailed :: string where "StateFailed = ''Failed''"

definition ConditionTypeReady :: string where "ConditionTypeReady = ''Ready''"

definition ConditionTypeDegraded :: string where "ConditionTypeDegraded = ''Degraded''"

definition ReasonInitializing :: string where "ReasonInitializing = ''Initializing''"

definition ReasonNetworkConfigured :: string where "ReasonNetworkConfigured = ''NetworkConfigured''"

definition ReasonIPAllocationError :: string where "ReasonIPAllocationError = ''IPAllocationError''"

definition ReasonIPConflict :: string where "ReasonIPConflict = ''IPConflict''"

lemmas [go_eval] = MethodWeightedRoundRobin_def ProtocolTCP_def ProtocolUDP_def ProtocolHTTP_def

lemma state_neq [simp]: "StateActive \<noteq> StateFailed" "StateFailed \<noteq> StateActive"
  by (simp_all add: StateActive_def StateFailed_def)

end
