(* ===== verification/Go_Net.thy ===== *)
theory Go_Net
  imports Go_Strings
begin

unbundle bit_operations_syntax

text \<open>
  What the program uses of Go's \<^verbatim>\<open>net\<close> and \<^verbatim>\<open>net/netip\<close> packages.  A \<^verbatim>\<open>net.IP\<close> is its byte slice
  (\<open>ip\<close>, with \<^verbatim>\<open>nil\<close> as the empty list); IPv4 addresses occur both as 4 bytes and in their
  16-byte IPv4-mapped form.

  \<^item> \<open>To4\<close>, \<open>To16\<close>, \<open>IP_Equal\<close>, \<open>IP_String\<close>: the methods of \<^verbatim>\<open>net.IP\<close>.
  \<^item> \<open>ParseIP\<close> and \<open>ParseCIDR\<close>, built as the library builds them, on \<open>ParseAddr\<close> with the
    loops of \<^verbatim>\<open>parseIPv4Fields\<close> and \<^verbatim>\<open>parseIPv6\<close>.
  \<^item> \<open>CIDRMask\<close>, \<open>Mask_Size\<close>, \<open>IP_Mask\<close>, \<open>IPNet_Contains\<close>: the masks of a CIDR block.
\<close>

type_synonym ip = "byte list"

section \<open>Address forms\<close>

definition v4InV6Prefix :: ip where
  "v4InV6Prefix = [0, 0, 0, 0, 0, 0, 0, 0, 0, 0, 255, 255]"

definition To4 :: "ip \<Rightarrow> ip" where
  "To4 a = (if length a = 4 then a
            else if length a = 16 \<and> take 12 a = v4InV6Prefix then drop 12 a
            else [])"

definition To16 :: "ip \<Rightarrow> ip" where
  "To16 a = (if length a = 4 then v4InV6Prefix @ a else if length a = 16 then a else [])"

definition IP_Equal :: "ip \<Rightarrow> ip \<Rightarrow> bool" where
  "IP_Equal a x =
     (if length a = length x then a = x
      else if length a = 4 \<and> length x = 16 then take 12 x = v4InV6Prefix \<and> a = drop 12 x
      else if length a = 16 \<and> length x = 4 then take 12 a = v4InV6Prefix \<and> drop 12 a = x
      else False)"

section \<open>IP.String\<close>

definition digit_char :: "nat \<Rightarrow> char" where
  "digit_char d = ''0123456789abcdef'' ! d"

definition appendDecimal :: "nat \<Rightarrow> string" where
  "appendDecimal x =
     (if x \<ge> 100 then [digit_char (x div 100)] else [])
   @ (if x \<ge> 10 then [digit_char (x div 10 mod 10)] else [])
   @ [digit_char (x mod 10)]"

definition appendHex :: "nat \<Rightarrow> string" where
  "appendHex x =
     (if x \<ge> 0x1000 then [digit_char (x div 0x1000)] else [])
   @ (if x \<ge> 0x100 then [digit_char (x div 0x100 mod 16)] else [])
   @ (if x \<ge> 0x10 then [digit_char (x div 0x10 mod 16)] else [])
   @ [digit_char (x mod 16)]"

definition string4 :: "ip \<Rightarrow> string" where
  "string4 a = join_sep (CHR ''.'') (map (\<lambda>b. appendDecimal (unat b)) a)"

text \<open>The eight 16-bit groups of a 16-byte address.\<close>

fun groups :: "ip \<Rightarrow> nat list" where
  "groups (h # l # bs) = (unat h * 256 + unat l) # groups bs"
| "groups bs = []"

text \<open>The first longest run of at least two zero groups, as its start and end; \<open>(255, 255)\<close>
  where there is none.\<close>

definition zero_run_end :: "nat list \<Rightarrow> nat \<Rightarrow> nat" where
  "zero_run_end gs i = i + length (takeWhile (\<lambda>g. g = 0) (drop i gs))"

definition widen_span :: "nat list \<Rightarrow> nat \<times> nat \<Rightarrow> nat \<Rightarrow> nat \<times> nat" where
  "widen_span gs z i =
     (let j = zero_run_end gs i in if j - i \<ge> 2 \<and> j - i > snd z - fst z then (i, j) else z)"

definition zero_span :: "nat list \<Rightarrow> nat \<times> nat" where
  "zero_span gs = foldl (widen_span gs) (255, 255) [0, 1, 2, 3, 4, 5, 6, 7]"

text \<open>The printing loop: \<open>i\<close> is the index of the first of the remaining groups.\<close>

function print6 :: "nat \<Rightarrow> nat \<Rightarrow> nat \<Rightarrow> nat list \<Rightarrow> string" where
  "print6 zs ze i gs =
     (if gs = [] then []
      else if i = zs then
        ''::'' @ (case drop (ze - zs) gs of
                    [] \<Rightarrow> []
                  | g # gs' \<Rightarrow> appendHex g @ print6 zs ze (ze + 1) gs')
      else (if i > 0 then '':'' else []) @ appendHex (hd gs) @ print6 zs ze (i + 1) (tl gs))"
  by pat_completeness auto
termination
proof (relation "measure (\<lambda>(zs, ze, i, gs). length gs)")
  fix zs ze i :: nat and gs gs' :: "nat list" and g :: nat
  assume "gs \<noteq> []" and "drop (ze - zs) gs = g # gs'"
  then have "length (drop (ze - zs) gs) = Suc (length gs')" by simp
  then show "((zs, ze, ze + 1, gs'), zs, ze, i, gs) \<in> measure (\<lambda>(zs, ze, i, gs). length gs)"
    by simp
qed auto

declare print6.simps [simp del]

definition string6 :: "ip \<Rightarrow> string" where
  "string6 a = (let gs = groups a; (zs, ze) = zero_span gs in print6 zs ze 0 gs)"

definition hexString :: "ip \<Rightarrow> string" where
  "hexString a = concat (map (\<lambda>b. [digit_char (unat b div 16), digit_char (unat b mod 16)]) a)"

definition IP_String :: "ip \<Rightarrow> string" where
  "IP_String a =
     (if length a = 0 then ''<nil>''
      else if length a \<noteq> 4 \<and> length a \<noteq> 16 then ''?'' @ hexString a
      else if length (To4 a) = 4 then string4 (To4 a)
      else string6 a)"

section \<open>ParseIP\<close>

definition dec_value :: "char \<Rightarrow> nat option" where
  "dec_value c = (let n = of_char c in if 48 \<le> n \<and> n \<le> 57 then Some (n - 48) else None)"

definition hex_value :: "char \<Rightarrow> nat option" where
  "hex_value c = (let n = of_char c in
     if 48 \<le> n \<and> n \<le> 57 then Some (n - 48)
     else if 97 \<le> n \<and> n \<le> 102 then Some (n - 97 + 10)
     else if 65 \<le> n \<and> n \<le> 70 then Some (n - 65 + 10)
     else None)"

text \<open>The loop of \<^verbatim>\<open>parseIPv4Fields\<close>: the previous character (none at the start), the rest of
  the input, \<^verbatim>\<open>val\<close>, \<^verbatim>\<open>digLen\<close> and the fields stored so far (\<^verbatim>\<open>pos\<close> is their number).\<close>

fun parseIPv4Fields_loop :: "char option \<Rightarrow> string \<Rightarrow> nat \<Rightarrow> nat \<Rightarrow> ip \<Rightarrow> ip option" where
  "parseIPv4Fields_loop prev [] val digLen fields =
     (if length fields < 3 then None else Some (fields @ [of_nat val]))"
| "parseIPv4Fields_loop prev (c # cs) val digLen fields =
     (case dec_value c of
        Some d \<Rightarrow>
          if digLen = 1 \<and> val = 0 then None
          else if val * 10 + d > 255 then None
          else parseIPv4Fields_loop (Some c) cs (val * 10 + d) (digLen + 1) fields
      | None \<Rightarrow>
          if c = CHR ''.'' then
            (if prev = None \<or> cs = [] \<or> prev = Some (CHR ''.'') then None
             else if length fields = 3 then None
             else parseIPv4Fields_loop (Some c) cs 0 0 (fields @ [of_nat val]))
          else None)"

definition parseIPv4Fields :: "string \<Rightarrow> ip option" where
  "parseIPv4Fields s = parseIPv4Fields_loop None s 0 0 []"

text \<open>The inner loop of \<^verbatim>\<open>parseIPv6\<close>: the number of digits read, their value, the rest.\<close>

fun hex_run :: "string \<Rightarrow> nat \<Rightarrow> nat \<Rightarrow> (nat \<times> nat \<times> string) option" where
  "hex_run [] off acc = Some (off, acc, [])"
| "hex_run (c # cs) off acc =
     (case hex_value c of
        None \<Rightarrow> Some (off, acc, c # cs)
      | Some d \<Rightarrow>
          if off > 3 then None
          else if acc * 16 + d > 65535 then None
          else hex_run cs (off + 1) (acc * 16 + d))"

text \<open>The outer loop: the rest of the input, the bytes stored so far (\<^verbatim>\<open>i\<close> is their number) and
  the position of the ellipsis.\<close>

function parseIPv6_loop :: "string \<Rightarrow> ip \<Rightarrow> nat option \<Rightarrow> (string \<times> ip \<times> nat option) option" where
  "parseIPv6_loop s a el =
     (if length a \<ge> 16 then Some (s, a, el)
      else (case hex_run s 0 0 of
         None \<Rightarrow> None
       | Some (off, acc, rest) \<Rightarrow>
           if off = 0 then None
           else if rest \<noteq> [] \<and> hd rest = CHR ''.'' then
             (if el = None \<and> length a \<noteq> 12 then None
              else if length a + 4 > 16 then None
              else (case parseIPv4Fields s of None \<Rightarrow> None | Some f \<Rightarrow> Some ([], a @ f, el)))
           else
             (let a' = a @ [of_nat (acc div 256), of_nat acc] in
              case rest of
                [] \<Rightarrow> Some ([], a', el)
              | c # r \<Rightarrow>
                  if c \<noteq> CHR '':'' then None
                  else if r = [] then None
                  else if hd r = CHR '':'' then
                    (if el \<noteq> None then None
                     else if tl r = [] then Some ([], a', Some (length a'))
                     else parseIPv6_loop (tl r) a' (Some (length a')))
                  else parseIPv6_loop r a' el)))"
  by pat_completeness auto
termination
  by (relation "measure (\<lambda>(s, a, el). 16 - length a)") auto

declare parseIPv6_loop.simps [simp del]

text \<open>A \<^verbatim>\<open>netip.Addr\<close>: four bytes, or sixteen with a zone.\<close>

datatype Addr = Addr4 ip | Addr6 ip string

fun Zone :: "Addr \<Rightarrow> string" where
  "Zone (Addr4 a) = []"
| "Zone (Addr6 a z) = z"

fun As16 :: "Addr \<Rightarrow> ip" where
  "As16 (Addr4 a) = v4InV6Prefix @ a"
| "As16 (Addr6 a z) = a"

fun BitLen :: "Addr \<Rightarrow> nat" where
  "BitLen (Addr4 a) = 32"
| "BitLen (Addr6 a z) = 128"

definition expand_ellipsis :: "string \<times> ip \<times> nat option \<Rightarrow> ip option" where
  "expand_ellipsis r =
     (case r of (s, a, el) \<Rightarrow>
        if s \<noteq> [] then None
        else if length a < 16 then
          (case el of
             None \<Rightarrow> None
           | Some e \<Rightarrow> Some (take e a @ replicate (16 - length a) 0 @ drop e a))
        else if el \<noteq> None then None
        else Some a)"

definition parseIPv6 :: "string \<Rightarrow> Addr option" where
  "parseIPv6 input =
     (let s = takeWhile (\<lambda>c. c \<noteq> CHR ''%'') input;
          zone = drop (length s + 1) input in
      if Contains input (CHR ''%'') \<and> zone = [] then None
      else if length s \<ge> 2 \<and> hd s = CHR '':'' \<and> hd (tl s) = CHR '':'' then
        (if length s = 2 then Some (Addr6 (replicate 16 0) zone)
         else map_option (\<lambda>a. Addr6 a zone)
                (Option.bind (parseIPv6_loop (drop 2 s) [] (Some 0)) expand_ellipsis))
      else map_option (\<lambda>a. Addr6 a zone)
             (Option.bind (parseIPv6_loop s [] None) expand_ellipsis))"

definition ParseAddr :: "string \<Rightarrow> Addr option" where
  "ParseAddr s =
     (case find (\<lambda>c. c = CHR ''.'' \<or> c = CHR '':'' \<or> c = CHR ''%'') s of
        None \<Rightarrow> None
      | Some c \<Rightarrow>
          if c = CHR ''.'' then map_option Addr4 (parseIPv4Fields s)
          else if c = CHR '':'' then parseIPv6 s
          else None)"

definition ParseIP :: "string \<Rightarrow> ip option" where
  "ParseIP s = (case ParseAddr s of
     None \<Rightarrow> None
   | Some a \<Rightarrow> if Zone a \<noteq> [] then None else Some (As16 a))"

section \<open>Masks and CIDR blocks\<close>

fun CIDRMask_bytes :: "nat \<Rightarrow> nat \<Rightarrow> byte list" where
  "CIDRMask_bytes n 0 = []"
| "CIDRMask_bytes n (Suc l) =
     (if n \<ge> 8 then 255 # CIDRMask_bytes (n - 8) l
      else NOT (drop_bit n 255) # CIDRMask_bytes 0 l)"

definition CIDRMask :: "nat \<Rightarrow> nat \<Rightarrow> byte list" where
  "CIDRMask ones bits = CIDRMask_bytes ones (bits div 8)"

text \<open>Counting the leading one bits of a byte shifts it until its top bit is clear.\<close>

lemma top_bit_iff: "(v :: byte) AND 0x80 \<noteq> 0 \<longleftrightarrow> bit v 7"
  using and_exp_eq_0_iff_not_bit [of v 7] by simp

lemma unat_double_less:
  fixes v :: byte
  assumes "v AND 0x80 \<noteq> 0"
  shows "unat (push_bit 1 v) < unat v"
proof -
  from assms have "bit v 7" by (simp only: top_bit_iff)
  then have "bit (unat v) 7" by (simp add: bit_unsigned_iff)
  then have "odd (unat v div 128)" by (simp add: bit_iff_odd)
  then have big: "128 \<le> unat v" by (cases "unat v < 128") simp_all
  have "unat (push_bit 1 v) = (2 * unat v) mod 256"
    by (simp add: push_bit_eq_mult unat_word_ariths mult.commute)
  also have "\<dots> = 2 * unat v - 256"
    using big unat_byte_less [of v] by (subst le_mod_geq) auto
  finally show ?thesis using big unat_byte_less [of v] by linarith
qed

function leading_ones :: "byte \<Rightarrow> nat \<times> byte" where
  "leading_ones v = (if v AND 0x80 \<noteq> 0
                     then (let (n, r) = leading_ones (push_bit 1 v) in (n + 1, r))
                     else (0, v))"
  by pat_completeness auto
termination
proof (relation "measure unat")
  fix v :: byte
  assume "v AND 0x80 \<noteq> 0"
  then show "(push_bit 1 v, v) \<in> measure unat"
    unfolding in_measure by (rule unat_double_less)
qed (rule wf_measure)

declare leading_ones.simps [simp del]

text \<open>\<^verbatim>\<open>simpleMaskLength\<close>, with \<^verbatim>\<open>-1\<close> as \<open>None\<close>.\<close>

fun simpleMaskLength :: "byte list \<Rightarrow> nat option" where
  "simpleMaskLength [] = Some 0"
| "simpleMaskLength (v # m) =
     (if v = 255 then map_option (\<lambda>n. n + 8) (simpleMaskLength m)
      else (let (n, r) = leading_ones v in
            if r \<noteq> 0 then None
            else if list_all (\<lambda>b. b = 0) m then Some n else None))"

definition Mask_Size :: "byte list \<Rightarrow> nat \<times> nat" where
  "Mask_Size m = (case simpleMaskLength m of None \<Rightarrow> (0, 0) | Some n \<Rightarrow> (n, length m * 8))"

definition IP_Mask :: "ip \<Rightarrow> byte list \<Rightarrow> ip" where
  "IP_Mask a msk =
     (let msk' = (if length msk = 16 \<and> length a = 4 \<and> list_all (\<lambda>b. b = 255) (take 12 msk)
                   then drop 12 msk else msk);
          a' = (if length msk' = 4 \<and> length a = 16 \<and> take 12 a = v4InV6Prefix
                then drop 12 a else a)
      in if length a' \<noteq> length msk' then [] else map2 (AND) a' msk')"

record IPNet =
  Net_IP :: ip
  Net_Mask :: "byte list"

text \<open>\<^verbatim>\<open>dtoi\<close>: the digits at the front, \<open>None\<close> where it reports failure.\<close>

fun dtoi_loop :: "string \<Rightarrow> nat \<Rightarrow> nat \<Rightarrow> (nat \<times> nat) option" where
  "dtoi_loop [] n i = (if i = 0 then None else Some (n, i))"
| "dtoi_loop (c # cs) n i =
     (case dec_value c of
        None \<Rightarrow> (if i = 0 then None else Some (n, i))
      | Some d \<Rightarrow> if n * 10 + d \<ge> 0xFFFFFF then None else dtoi_loop cs (n * 10 + d) (i + 1))"

definition dtoi :: "string \<Rightarrow> (nat \<times> nat) option" where
  "dtoi s = dtoi_loop s 0 0"

definition ParseCIDR :: "string \<Rightarrow> (ip \<times> IPNet) option" where
  "ParseCIDR s =
     (if \<not> Contains s (CHR ''/'') then None
      else let addr = takeWhile (\<lambda>c. c \<noteq> CHR ''/'') s; bits = drop (length addr + 1) s in
        (case ParseAddr addr of
           None \<Rightarrow> None
         | Some a \<Rightarrow>
             if Zone a \<noteq> [] then None
             else (case dtoi bits of
                None \<Rightarrow> None
              | Some (n, i) \<Rightarrow>
                  if i \<noteq> length bits \<or> n > BitLen a then None
                  else let m = CIDRMask n (BitLen a) in
                    Some (As16 a, \<lparr>Net_IP = IP_Mask (As16 a) m, Net_Mask = m\<rparr>))))"

text \<open>\<^verbatim>\<open>networkNumberAndMask\<close>, with \<^verbatim>\<open>nil, nil\<close> as two empty lists.\<close>

definition networkNumberAndMask :: "IPNet \<Rightarrow> ip \<times> byte list" where
  "networkNumberAndMask n =
     (let a = (if To4 (Net_IP n) \<noteq> [] then To4 (Net_IP n) else Net_IP n); m = Net_Mask n in
      if To4 (Net_IP n) = [] \<and> length (Net_IP n) \<noteq> 16 then ([], [])
      else if length m = 4 then (if length a \<noteq> 4 then ([], []) else (a, m))
      else if length m = 16 then (if length a = 4 then (a, drop 12 m) else (a, m))
      else ([], []))"

text \<open>The loop over the bytes compares \<^verbatim>\<open>nn[i] & m[i]\<close> with \<^verbatim>\<open>ip[i] & m[i]\<close> at every index.\<close>

definition IPNet_Contains :: "IPNet \<Rightarrow> ip \<Rightarrow> bool" where
  "IPNet_Contains n x =
     (let (nn, m) = networkNumberAndMask n;
          a = (if To4 x \<noteq> [] then To4 x else x)
      in length a = length nn \<and> map2 (AND) nn m = map2 (AND) a m)"

section \<open>Evaluation on concrete inputs\<close>

lemma CIDRMask_bytes_numeral [go_eval]:
  "CIDRMask_bytes n (numeral k) =
     (if n \<ge> 8 then 255 # CIDRMask_bytes (n - 8) (pred_numeral k)
      else NOT (drop_bit n 255) # CIDRMask_bytes 0 (pred_numeral k))"
  by (simp add: numeral_eq_Suc)

lemmas [go_eval] =
  ParseIP_def ParseAddr_def parseIPv4Fields_def parseIPv6_def parseIPv6_loop.simps
  dec_value_def hex_value_def expand_ellipsis_def v4InV6Prefix_def
  IP_String_def To4_def To16_def string4_def string6_def zero_span_def widen_span_def zero_run_end_def
  print6.simps appendHex_def appendDecimal_def digit_char_def
  ParseCIDR_def dtoi_def CIDRMask_def Mask_Size_def leading_ones.simps IP_Mask_def
  networkNumberAndMask_def IPNet_Contains_def IP_Equal_def

end
