(* ===== verification/Go_Net_Text.thy ===== *)
theory Go_Net_Text
  imports Go_Net
begin

text \<open>
  Printing an address and parsing the text gives the address back (\<open>ParseIP_IP_String\<close>), for
  IPv4 and for IPv6 with its ellipsis.  The proof follows the two loops: a decimal field and a
  hexadecimal group are read back digit by digit (\<open>parseIPv4Fields_loop_decimal\<close>,
  \<open>hex_run_appendHex\<close>), a run of groups is read back by induction (\<open>parseIPv6_loop_groups\<close>,
  \<open>parseIPv6_loop_ellipsis\<close>), and the printer's run of zeros is a run of zeros
  (\<open>zero_span_ok_zero_span\<close>).  \<open>ip_chars_not\<close> records that a printed address has nothing to trim
  and contains neither a slash nor a dash.
\<close>

section \<open>Decimal fields and hexadecimal groups\<close>

lemma dec_value_digit [simp]: "d < 10 \<Longrightarrow> dec_value (digit_char d) = Some d"
  by (auto simp: numeral_eq_Suc less_Suc_eq dec_value_def digit_char_def)

lemma hex_value_digit [simp]: "d < 16 \<Longrightarrow> hex_value (digit_char d) = Some d"
  by (auto simp: numeral_eq_Suc less_Suc_eq hex_value_def digit_char_def)

lemma appendDecimal_nonempty [simp]: "appendDecimal x \<noteq> []"
  by (simp add: appendDecimal_def)

lemma appendHex_nonempty [simp]: "appendHex x \<noteq> []"
  by (simp add: appendHex_def)

lemma div_div_add_mod: "x div (k * k) * k + x div k mod k = x div k" for x k :: nat
  by (simp only: div_mult2_eq div_mult_mod_eq)

lemma appendDecimal_cases:
  assumes "x < 256"
  obtains (one) c where "x = c" "c < 10" "appendDecimal x = [digit_char c]"
  | (two) b c where "x = b * 10 + c" "0 < b" "b < 10" "c < 10"
      "appendDecimal x = [digit_char b, digit_char c]"
  | (three) a b c where "x = (a * 10 + b) * 10 + c" "0 < a" "a < 10" "b < 10" "c < 10"
      "appendDecimal x = [digit_char a, digit_char b, digit_char c]"
proof -
  consider "x < 10" | "10 \<le> x" "x < 100" | "100 \<le> x" by linarith
  then show ?thesis
  proof cases
    case 1
    then show ?thesis by (intro one) (simp_all add: appendDecimal_def)
  next
    case 2
    then have "x div 10 < 10" by auto
    with 2 show ?thesis by (intro two [of "x div 10" "x mod 10"]) (simp_all add: appendDecimal_def)
  next
    case 3
    have eq: "x = (x div 100 * 10 + x div 10 mod 10) * 10 + x mod 10"
      using div_div_add_mod [of x 10] by simp
    have "0 < x div 100" "x div 100 < 10" using 3 assms by auto
    then show ?thesis using 3
      by (intro three [OF eq]) (simp_all add: appendDecimal_def)
  qed
qed

lemma appendHex_cases:
  assumes "x < 65536"
  obtains (one) d where "x = d" "d < 16" "appendHex x = [digit_char d]"
  | (two) c d where "x = c * 16 + d" "c < 16" "d < 16" "appendHex x = [digit_char c, digit_char d]"
  | (three) b c d where "x = (b * 16 + c) * 16 + d" "b < 16" "c < 16" "d < 16"
      "appendHex x = [digit_char b, digit_char c, digit_char d]"
  | (four) a b c d where "x = ((a * 16 + b) * 16 + c) * 16 + d" "a < 16" "b < 16" "c < 16" "d < 16"
      "appendHex x = [digit_char a, digit_char b, digit_char c, digit_char d]"
proof -
  consider "x < 16" | "16 \<le> x" "x < 256" | "256 \<le> x" "x < 4096" | "4096 \<le> x" by linarith
  then show ?thesis
  proof cases
    case 1
    then show ?thesis by (intro one) (simp_all add: appendHex_def)
  next
    case 2
    then have "x div 16 < 16" by auto
    with 2 show ?thesis by (intro two [of "x div 16" "x mod 16"]) (simp_all add: appendHex_def)
  next
    case 3
    have eq: "x = (x div 256 * 16 + x div 16 mod 16) * 16 + x mod 16"
      using div_div_add_mod [of x 16] by simp
    have "x div 256 < 16" using 3 by auto
    then show ?thesis using 3
      by (intro three [OF eq]) (simp_all add: appendHex_def)
  next
    case 4
    have eq: "x = ((x div 4096 * 16 + x div 256 mod 16) * 16 + x div 16 mod 16) * 16 + x mod 16"
      using div_div_add_mod [of x 16] div_div_add_mod [of "x div 16" 16]
      by (simp add: div_mult2_eq [symmetric])
    have "x div 4096 < 16" using assms by auto
    then show ?thesis using 4
      by (intro four [OF eq]) (simp_all add: appendHex_def)
  qed
qed

lemma parseIPv4Fields_loop_decimal:
  assumes "x < 256"
  shows "parseIPv4Fields_loop prev (appendDecimal x @ rest) 0 0 fs =
         parseIPv4Fields_loop (Some (last (appendDecimal x))) rest x (length (appendDecimal x)) fs"
  using assms by (cases x rule: appendDecimal_cases) (use assms in simp_all)

lemma hex_run_stop: "rest = [] \<or> hex_value (hd rest) = None \<Longrightarrow> hex_run rest off acc = Some (off, acc, rest)"
  by (cases rest) auto

lemma hex_run_appendHex:
  assumes "x < 65536" and stop: "rest = [] \<or> hex_value (hd rest) = None"
  shows "hex_run (appendHex x @ rest) 0 0 = Some (length (appendHex x), x, rest)"
  using assms(1) by (cases x rule: appendHex_cases) (use assms(1) in \<open>simp_all add: hex_run_stop [OF stop]\<close>)


section \<open>The characters of an address\<close>

definition addr_char :: "char \<Rightarrow> bool" where
  "addr_char c = (c \<in> set ''0123456789abcdef'')"

abbreviation addr_chars :: "string \<Rightarrow> bool" where
  "addr_chars s \<equiv> list_all addr_char s"

lemma addr_char_digit: "d < 16 \<Longrightarrow> addr_char (digit_char d)"
  unfolding addr_char_def digit_char_def by (rule nth_mem) simp

lemma addr_chars_appendDecimal: "x < 256 \<Longrightarrow> addr_chars (appendDecimal x)"
  by (cases x rule: appendDecimal_cases) (simp_all add: addr_char_digit)

lemma addr_chars_appendHex: "x < 65536 \<Longrightarrow> addr_chars (appendHex x)"
  by (cases x rule: appendHex_cases) (simp_all add: addr_char_digit)

lemma addr_char_not: "\<not> addr_char (CHR ''.'')" "\<not> addr_char (CHR '':'')" "\<not> addr_char (CHR ''%'')"
    "\<not> addr_char (CHR ''/'')" "\<not> addr_char (CHR ''-'')"
  by (simp_all add: addr_char_def)

lemma addr_chars_not:
  assumes "addr_chars s"
  shows "CHR ''.'' \<notin> set s" "CHR '':'' \<notin> set s" "CHR ''%'' \<notin> set s" "CHR ''/'' \<notin> set s"
    "CHR ''-'' \<notin> set s"
  using assms addr_char_not by (auto simp: list_all_iff)

lemma addr_char_plain: "addr_char c \<Longrightarrow> plain_char c"
  by (auto simp: plain_char_def addr_char_def)

lemma find_skip: "\<forall>c\<in>set xs. \<not> P c \<Longrightarrow> find P (xs @ ys) = find P ys"
  by (induction xs) auto

section \<open>IPv4 text\<close>

lemma parseIPv4Fields_loop_dot:
  assumes "x < 256" "p \<noteq> CHR ''.''" "length fs < 3"
  shows "parseIPv4Fields_loop (Some p) (CHR ''.'' # appendDecimal x @ rest) val n fs =
         parseIPv4Fields_loop (Some (last (appendDecimal x))) rest x (length (appendDecimal x))
           (fs @ [of_nat val])"
  using assms parseIPv4Fields_loop_decimal [OF assms(1)] by (simp add: dec_value_def)

lemmas parseIPv4Fields_loop_dot_end = parseIPv4Fields_loop_dot [where rest = "[]", unfolded append_Nil2]

lemma last_appendDecimal: "x < 256 \<Longrightarrow> last (appendDecimal x) \<noteq> CHR ''.''"
  using addr_chars_not(1) [OF addr_chars_appendDecimal, of x] last_in_set [of "appendDecimal x"]
  by (metis appendDecimal_nonempty)

lemma string4_eq:
  "string4 [a, b, c, d] = appendDecimal (unat a) @ CHR ''.'' # appendDecimal (unat b) @
     CHR ''.'' # appendDecimal (unat c) @ CHR ''.'' # appendDecimal (unat d)"
  by (simp add: string4_def)

lemma parseIPv4Fields_string4: "parseIPv4Fields (string4 [a, b, c, d]) = Some [a, b, c, d]"
  unfolding string4_eq parseIPv4Fields_def
  by (simp add: parseIPv4Fields_loop_decimal parseIPv4Fields_loop_dot last_appendDecimal
      parseIPv4Fields_loop_dot_end unat_byte_less
      del: parseIPv4Fields_loop.simps(2))

lemma length4_cases: "length a = 4 \<Longrightarrow> (\<And>w x y z. a = [w, x, y, z] \<Longrightarrow> P) \<Longrightarrow> P"
  by (auto simp: numeral_eq_Suc length_Suc_conv)

lemma ParseAddr_string4: "length a = 4 \<Longrightarrow> ParseAddr (string4 a) = Some (Addr4 a)"
proof (erule length4_cases)
  fix w x y z assume a: "a = [w, x, y, z]"
  have "find (\<lambda>c. c = CHR ''.'' \<or> c = CHR '':'' \<or> c = CHR ''%'') (string4 a) = Some (CHR ''.'')"
    unfolding a string4_eq
    using addr_chars_not [OF addr_chars_appendDecimal [OF unat_byte_less [of w]]]
    by (subst find_skip) auto
  then show ?thesis
    by (simp add: ParseAddr_def a parseIPv4Fields_string4)
qed

section \<open>IPv6 text\<close>

text \<open>The text of a run of groups, and the bytes they stand for.\<close>

definition hex_groups :: "nat list \<Rightarrow> string" where
  "hex_groups gs = join_sep (CHR '':'') (map appendHex gs)"

definition group_bytes :: "nat list \<Rightarrow> ip" where
  "group_bytes gs = concat (map (\<lambda>g. [of_nat (g div 256), of_nat g]) gs)"

abbreviation groups_ok :: "nat list \<Rightarrow> bool" where
  "groups_ok gs \<equiv> list_all (\<lambda>g. g < 65536) gs"

lemma hex_groups_simps [simp]:
  "hex_groups [] = []" "hex_groups [g] = appendHex g"
  "hex_groups (g # h # gs) = appendHex g @ CHR '':'' # hex_groups (h # gs)"
  by (simp_all add: hex_groups_def)

lemma hex_groups_eq_Nil [simp]: "hex_groups gs = [] \<longleftrightarrow> gs = []"
  by (induction gs rule: induct_list012) auto

lemma group_bytes_simps [simp]:
  "group_bytes [] = []" "group_bytes (g # gs) = of_nat (g div 256) # of_nat g # group_bytes gs"
  by (simp_all add: group_bytes_def)

lemma group_bytes_append [simp]: "group_bytes (gs @ hs) = group_bytes gs @ group_bytes hs"
  by (induction gs) simp_all

lemma length_group_bytes [simp]: "length (group_bytes gs) = 2 * length gs"
  by (induction gs) simp_all

lemma group_bytes_zeros: "group_bytes (replicate n 0) = replicate (2 * n) 0"
  by (induction n) simp_all

lemma group_of_bytes: "unat (h :: byte) * 256 + unat (l :: byte) < 65536"
  using unat_byte_le [of h] unat_byte_le [of l] by linarith

lemma group_bytes_groups: "even (length a) \<Longrightarrow> group_bytes (groups a) = a"
proof (induction a rule: groups.induct)
  case (1 h l bs)
  have "(unat h * 256 + unat l) div 256 = unat h"
    using unat_byte_less [of l] by simp
  moreover have "(of_nat (unat h * 256 + unat l) :: byte) = l"
  proof -
    have "(256 :: byte) = 0" by simp
    then have "(of_nat (unat h * 256) :: byte) = 0" by (simp only: of_nat_mult of_nat_numeral mult_zero_right)
    then show ?thesis by (simp only: of_nat_add add_0) simp
  qed
  ultimately show ?case using 1 by (simp del: of_nat_add)
qed auto

lemma groups_ok_groups: "groups_ok (groups a)"
  by (induction a rule: groups.induct) (auto simp: group_of_bytes)

lemma length_groups: "length (groups a) = length a div 2"
  by (induction a rule: groups.induct) auto

lemma hex_stop_colon: "CHR '':'' # s = [] \<or> hex_value (hd (CHR '':'' # s)) = None"
  by (simp add: hex_value_def)

text \<open>The parser on one group, at the end of the text and before a colon.\<close>

lemma parseIPv6_loop_last:
  assumes "g < 65536" "length a < 16"
  shows "parseIPv6_loop (appendHex g) a el = Some ([], a @ group_bytes [g], el)"
proof -
  have "hex_run (appendHex g) 0 0 = Some (length (appendHex g), g, [])"
    using hex_run_appendHex [OF assms(1), of "[]"] by simp
  then show ?thesis using assms(2) by (simp add: parseIPv6_loop.simps)
qed

lemma parseIPv6_loop_colon:
  assumes "g < 65536" "length a < 16" "s \<noteq> []"
  shows "parseIPv6_loop (appendHex g @ CHR '':'' # s) a el =
    (if hd s = CHR '':'' then
       (if el \<noteq> None then None
        else if tl s = [] then Some ([], a @ group_bytes [g], Some (length a + 2))
        else parseIPv6_loop (tl s) (a @ group_bytes [g]) (Some (length a + 2)))
     else parseIPv6_loop s (a @ group_bytes [g]) el)"
  using assms hex_run_appendHex [OF assms(1) hex_stop_colon, of s]
  by (simp add: parseIPv6_loop.simps [of "appendHex g @ CHR '':'' # s"])

lemma hd_appendHex [simp]: "x < 65536 \<Longrightarrow> hd (appendHex x) \<noteq> CHR '':''"
  using addr_chars_not(2) [OF addr_chars_appendHex, of x] hd_in_set [of "appendHex x"]
  by (metis appendHex_nonempty)

lemma hd_hex_groups: "groups_ok gs \<Longrightarrow> gs \<noteq> [] \<Longrightarrow> hd (hex_groups gs @ t) \<noteq> CHR '':''"
  by (induction gs rule: induct_list012)
     auto

lemma parseIPv6_loop_groups:
  assumes "groups_ok gs" "gs \<noteq> []" "length a + 2 * length gs \<le> 16"
  shows "parseIPv6_loop (hex_groups gs) a el = Some ([], a @ group_bytes gs, el)"
  using assms
proof (induction gs arbitrary: a rule: induct_list012)
  case (2 g)
  then show ?case by (simp add: parseIPv6_loop_last)
next
  case (3 g h gs)
  then show ?case
    using hd_hex_groups [of "h # gs" "[]"] by (simp add: parseIPv6_loop_colon)
qed simp

lemma parseIPv6_loop_ellipsis:
  assumes "groups_ok gs" "gs \<noteq> []" "length a + 2 * length gs \<le> 16"
  shows "parseIPv6_loop (hex_groups gs @ ''::'' @ t) a None =
    (if t = [] then Some ([], a @ group_bytes gs, Some (length a + 2 * length gs))
     else parseIPv6_loop t (a @ group_bytes gs) (Some (length a + 2 * length gs)))"
  using assms
proof (induction gs arbitrary: a rule: induct_list012)
  case (2 g)
  then show ?case by (simp add: parseIPv6_loop_colon)
next
  case (3 g h gs)
  then show ?case
    using hd_hex_groups [of "h # gs" "CHR '':'' # CHR '':'' # t"] by (simp add: parseIPv6_loop_colon)
qed simp

text \<open>The printer: the groups before the chosen run of zeros, the ellipsis, the groups after it.\<close>

lemma print6_plain:
  assumes "zs < i \<or> i + length gs \<le> zs"
  shows "print6 zs ze i gs = (if gs \<noteq> [] \<and> i > 0 then CHR '':'' # hex_groups gs else hex_groups gs)"
  using assms
proof (induction gs arbitrary: i rule: induct_list012)
  case 1
  then show ?case by (simp add: print6.simps)
next
  case (2 g)
  then show ?case by (auto simp: print6.simps)
next
  case (3 g h gs)
  then have "print6 zs ze (i + 1) (h # gs) = CHR '':'' # hex_groups (h # gs)"
    by auto
  with 3(3) show ?case by (auto simp: print6.simps [of zs ze i])
qed

lemma print6_run:
  assumes "i \<le> zs" "zs < ze" "ze \<le> i + length gs"
  shows "print6 zs ze i gs =
    (if zs = i then [] else (if i > 0 then '':'' else []) @ hex_groups (take (zs - i) gs))
    @ ''::'' @ hex_groups (drop (ze - i) gs)"
  using assms
proof (induction gs arbitrary: i)
  case Nil
  then show ?case by simp
next
  case (Cons g gs)
  show ?case
  proof (cases "i = zs")
    case True
    show ?thesis
    proof (cases "drop (ze - zs) (g # gs)")
      case Nil
      with True show ?thesis by (simp add: print6.simps)
    next
      case (Cons h hs)
      have "print6 zs ze (ze + 1) hs = (if hs \<noteq> [] then CHR '':'' # hex_groups hs else [])"
        using print6_plain [of zs "ze + 1" hs ze] assms(2) by auto
      with True Cons show ?thesis
        by (cases hs) (auto simp: print6.simps [of zs ze zs])
    qed
  next
    case False
    with Cons.prems have less: "i + 1 \<le> zs" and step: "ze - i = Suc (ze - (i + 1))" "zs - i = Suc (zs - (i + 1))"
      by auto
    have "print6 zs ze (i + 1) gs =
      (if zs = i + 1 then [] else '':'' @ hex_groups (take (zs - (i + 1)) gs))
      @ ''::'' @ hex_groups (drop (ze - (i + 1)) gs)"
      using Cons.IH [of "i + 1"] Cons.prems less by simp
    moreover have "hex_groups (g # take (zs - (i + 1)) gs) =
      appendHex g @ (if zs = i + 1 then [] else '':'' @ hex_groups (take (zs - (i + 1)) gs))"
      using Cons.prems less by (cases gs; cases "zs - (i + 1)") auto
    ultimately show ?thesis
      using False step by (simp add: print6.simps [of zs ze i])
  qed
qed

definition zero_span_ok :: "nat list \<Rightarrow> nat \<times> nat \<Rightarrow> bool" where
  "zero_span_ok gs z = (z = (255, 255) \<or>
     (fst z < snd z \<and> snd z \<le> length gs \<and>
      gs = take (fst z) gs @ replicate (snd z - fst z) 0 @ drop (snd z) gs))"

lemma zero_run_split:
  assumes "i \<le> length gs"
  defines "j \<equiv> zero_run_end gs i"
  shows "j \<le> length gs" "gs = take i gs @ replicate (j - i) 0 @ drop j gs"
proof -
  let ?t = "takeWhile (\<lambda>g. g = 0) (drop i gs)"
  have "length ?t \<le> length (drop i gs)" by (rule length_takeWhile_le)
  with assms(1) show "j \<le> length gs" by (simp add: j_def zero_run_end_def)
  have "?t = replicate (length ?t) 0"
    by (rule replicate_eqI) (auto dest: set_takeWhileD)
  moreover have "drop i gs = ?t @ drop (length ?t) (drop i gs)"
    by (metis append_take_drop_id takeWhile_eq_take)
  ultimately have "drop i gs = replicate (j - i) 0 @ drop j gs"
    by (simp add: j_def zero_run_end_def add.commute)
  then show "gs = take i gs @ replicate (j - i) 0 @ drop j gs"
    by (metis append_take_drop_id)
qed

lemma zero_span_ok_zero_span:
  assumes "length gs = 8"
  shows "zero_span_ok gs (zero_span gs)"
proof -
  have step: "zero_span_ok gs (widen_span gs z i)"
    if "zero_span_ok gs z" "i \<le> length gs" for z i
    using that zero_run_split [OF that(2)] by (auto simp: Let_def zero_span_ok_def widen_span_def)
  have run: "zero_span_ok gs (foldl (widen_span gs) z is)"
    if "zero_span_ok gs z" "list_all (\<lambda>i. i \<le> length gs) is" for z "is"
    using that by (induction "is" arbitrary: z) (simp_all add: step)
  show ?thesis
    unfolding zero_span_def by (rule run) (simp_all add: assms zero_span_ok_def)
qed

text \<open>The text of a 16-byte address: all eight groups, or an ellipsis for a run of zeros.\<close>

lemma string6_cases:
  assumes "length a = 16"
  obtains (full) "string6 a = hex_groups (groups a)"
  | (gap) zs ze where "zs < ze" "ze \<le> 8"
      "groups a = take zs (groups a) @ replicate (ze - zs) 0 @ drop ze (groups a)"
      "string6 a = hex_groups (take zs (groups a)) @ ''::'' @ hex_groups (drop ze (groups a))"
proof -
  have len: "length (groups a) = 8" using assms by (simp add: length_groups)
  obtain zs ze where z: "zero_span (groups a) = (zs, ze)" by (cases "zero_span (groups a)")
  have "zero_span_ok (groups a) (zs, ze)" using zero_span_ok_zero_span [OF len] z by simp
  then consider "zs = 255" "ze = 255"
    | "zs < ze" "ze \<le> 8" "groups a = take zs (groups a) @ replicate (ze - zs) 0 @ drop ze (groups a)"
    unfolding zero_span_ok_def using len by auto
  then show ?thesis
  proof cases
    case 1
    with z len show ?thesis by (intro full) (simp add: string6_def print6_plain)
  next
    case 2
    have "string6 a = hex_groups (take zs (groups a)) @ ''::'' @ hex_groups (drop ze (groups a))"
      using z len 2(1,2) print6_run [of 0 zs ze "groups a"] by (simp add: string6_def Let_def)
    with 2 show ?thesis by (intro gap)
  qed
qed

lemma ParseAddr_colon:
  assumes "CHR '':'' \<in> set s" "CHR ''.'' \<notin> set s" "CHR ''%'' \<notin> set s"
  shows "ParseAddr s = parseIPv6 s"
proof -
  have "find (\<lambda>c. c = CHR ''.'' \<or> c = CHR '':'' \<or> c = CHR ''%'') s = Some (CHR '':'')"
    using assms by (induction s) auto
  then show ?thesis by (simp add: ParseAddr_def)
qed

lemma parseIPv6_no_zone:
  assumes "CHR ''%'' \<notin> set s"
  shows "parseIPv6 s =
    (if length s \<ge> 2 \<and> hd s = CHR '':'' \<and> hd (tl s) = CHR '':'' then
       (if length s = 2 then Some (Addr6 (replicate 16 0) [])
        else map_option (\<lambda>a. Addr6 a []) (Option.bind (parseIPv6_loop (drop 2 s) [] (Some 0)) expand_ellipsis))
     else map_option (\<lambda>a. Addr6 a []) (Option.bind (parseIPv6_loop s [] None) expand_ellipsis))"
proof -
  have tw: "takeWhile (\<lambda>c. c \<noteq> CHR ''%'') s = s"
    using assms by (simp add: takeWhile_eq_all_conv) metis
  show ?thesis unfolding parseIPv6_def tw using assms by (simp add: Let_def)
qed

lemma set_hex_groups:
  assumes "groups_ok gs"
  shows "CHR ''.'' \<notin> set (hex_groups gs)" "CHR ''%'' \<notin> set (hex_groups gs)"
    "2 \<le> length gs \<Longrightarrow> CHR '':'' \<in> set (hex_groups gs)"
  using assms by (induction gs rule: induct_list012) (auto simp: addr_chars_not [OF addr_chars_appendHex])

lemma groups_ok_part: "groups_ok gs \<Longrightarrow> groups_ok (take n gs)" "groups_ok gs \<Longrightarrow> groups_ok (drop n gs)"
  by (auto simp: list_all_iff dest: in_set_takeD in_set_dropD)

lemma parseIPv6_full:
  assumes "groups_ok gs" "length gs = 8"
  shows "parseIPv6 (hex_groups gs) = Some (Addr6 (group_bytes gs) [])"
proof -
  have "gs \<noteq> []" using assms(2) by auto
  then show ?thesis
    using assms hd_hex_groups [OF assms(1), of "[]"]
    by (simp add: parseIPv6_no_zone set_hex_groups parseIPv6_loop_groups expand_ellipsis_def)
qed

lemma parseIPv6_gap:
  assumes ok: "groups_ok pre" "groups_ok post" and len: "length pre + length post < 8"
  shows "parseIPv6 (hex_groups pre @ ''::'' @ hex_groups post) =
    Some (Addr6 (group_bytes (pre @ replicate (8 - (length pre + length post)) 0 @ post)) [])"
proof -
  let ?s = "hex_groups pre @ ''::'' @ hex_groups post"
  let ?e = "2 * length pre"
  have nz: "CHR ''%'' \<notin> set ?s" using set_hex_groups ok by auto
  have exp: "expand_ellipsis ([], group_bytes pre @ group_bytes post, Some ?e) =
      Some (group_bytes (pre @ replicate (8 - (length pre + length post)) 0 @ post))"
    using len by (simp add: expand_ellipsis_def group_bytes_zeros algebra_simps)
  have post: "parseIPv6_loop (hex_groups post) (group_bytes pre) (Some ?e) =
      Some ([], group_bytes pre @ group_bytes post, Some ?e)" if "post \<noteq> []"
    using parseIPv6_loop_groups [OF ok(2) that] len by simp
  show ?thesis
  proof (cases "pre = []")
    case True
    with nz exp post show ?thesis
      by (cases "post = []") (simp_all add: parseIPv6_no_zone group_bytes_zeros)
  next
    case False
    with hd_hex_groups [OF ok(1)] have hd: "hd ?s \<noteq> CHR '':''" by simp
    show ?thesis
      using parseIPv6_loop_ellipsis [OF ok(1) False, of "[]" "hex_groups post"] len nz hd exp post
      by (cases "post = []") (simp_all add: parseIPv6_no_zone)
  qed
qed

lemma ParseAddr_string6:
  assumes "length a = 16"
  shows "ParseAddr (string6 a) = Some (Addr6 a [])"
  using assms
proof (cases a rule: string6_cases)
  case full
  have "length (groups a) = 8" using assms by (simp add: length_groups)
  then show ?thesis
    using full set_hex_groups [OF groups_ok_groups [of a]] parseIPv6_full [OF groups_ok_groups [of a]]
    by (simp add: ParseAddr_colon group_bytes_groups assms)
next
  case (gap zs ze)
  let ?pre = "take zs (groups a)" and ?post = "drop ze (groups a)"
  have len: "length (groups a) = 8" using assms by (simp add: length_groups)
  have ok: "groups_ok ?pre" "groups_ok ?post" by (simp_all add: groups_ok_part groups_ok_groups)
  have n: "8 - (length ?pre + length ?post) = ze - zs" "length ?pre + length ?post < 8"
    using gap(1,2) len by auto
  have "ParseAddr (string6 a) = parseIPv6 (string6 a)"
    unfolding gap(4) using set_hex_groups [OF ok(1)] set_hex_groups [OF ok(2)]
    by (intro ParseAddr_colon) auto
  also have "\<dots> = Some (Addr6 (group_bytes (groups a)) [])"
    using parseIPv6_gap [OF ok n(2)] unfolding n(1) gap(3) [symmetric] gap(4) .
  finally show ?thesis using assms by (simp add: group_bytes_groups)
qed

section \<open>Printing and parsing are inverse\<close>

lemma To4_length: "length (To4 a) = 4 \<or> To4 a = []"
  by (simp add: To4_def)

lemma ParseIP_IP_String:
  assumes "length a = 4 \<or> length a = 16"
  shows "ParseIP (IP_String a) = Some (To16 a)"
proof (cases "length (To4 a) = 4")
  case True
  then have "ParseIP (IP_String a) = Some (v4InV6Prefix @ To4 a)"
    using assms by (auto simp: IP_String_def ParseIP_def ParseAddr_string4)
  with True assms show ?thesis
    by (auto simp: To4_def To16_def split: if_splits) (metis append_take_drop_id)
next
  case False
  with assms show ?thesis
    by (auto simp: IP_String_def ParseIP_def ParseAddr_string6 To16_def To4_def)
qed

definition ip_chars :: "string \<Rightarrow> bool" where
  "ip_chars s = list_all (\<lambda>c. addr_char c \<or> c = CHR ''.'' \<or> c = CHR '':'') s"

lemma ip_chars_addr: "addr_chars s \<Longrightarrow> ip_chars s"
  by (auto simp: ip_chars_def list_all_iff)

lemma ip_chars_append [simp]: "ip_chars (s @ t) \<longleftrightarrow> ip_chars s \<and> ip_chars t"
  and ip_chars_sep [simp]: "ip_chars (CHR ''.'' # s) \<longleftrightarrow> ip_chars s" "ip_chars (CHR '':'' # s) \<longleftrightarrow> ip_chars s"
  and ip_chars_Nil [simp]: "ip_chars []"
  by (simp_all add: ip_chars_def)

lemma ip_chars_hex_groups: "groups_ok gs \<Longrightarrow> ip_chars (hex_groups gs)"
  by (induction gs rule: induct_list012) (auto simp: ip_chars_addr addr_chars_appendHex)

lemma ip_chars_IP_String:
  assumes "length a = 4 \<or> length a = 16"
  shows "ip_chars (IP_String a)"
proof (cases "length (To4 a) = 4")
  case True
  then obtain w x y z where "To4 a = [w, x, y, z]" by (rule length4_cases) blast
  with True assms show ?thesis
    by (auto simp: IP_String_def string4_eq ip_chars_addr addr_chars_appendDecimal unat_byte_less)
next
  case False
  with assms have l: "length a = 16" by (auto simp: To4_def)
  with False have "IP_String a = string6 a" by (simp add: IP_String_def)
  with l show ?thesis
    by (cases a rule: string6_cases)
       (auto simp: ip_chars_hex_groups groups_ok_groups groups_ok_part)
qed

lemma ip_chars_not:
  assumes "ip_chars s"
  shows "CHR ''/'' \<notin> set s" "CHR ''-'' \<notin> set s" "TrimSpace s = s"
proof -
  show "CHR ''/'' \<notin> set s" "CHR ''-'' \<notin> set s"
    using assms addr_char_not by (auto simp: ip_chars_def list_all_iff)
  have "plain_char (CHR ''.'')" "plain_char (CHR '':'')" by (simp_all add: plain_char_def)
  with assms have "list_all plain_char s"
    by (auto simp: ip_chars_def list_all_iff addr_char_plain)
  then show "TrimSpace s = s" by (rule TrimSpace_plain)
qed

end
