(* ===== verification/Go_Net_Mask.thy ===== *)
theory Go_Net_Mask
  imports Go_Net_Text
begin

unbundle bit_operations_syntax

text \<open>
  Facts on parsed addresses and prefix masks.  A parsed address has 4 or 16 bytes
  (\<open>ParseAddr_length\<close>, \<open>ParseIP_length\<close>).  A prefix mask clears the low bits of an address read as
  a number (\<open>be_val_and_CIDRMask\<close>), its length is read back by \<open>simpleMaskLength\<close>, and
  \<open>ParseCIDR_cases\<close> says what a parsed CIDR block is.
\<close>

section \<open>Lengths of parsed addresses\<close>

lemma parseIPv4Fields_loop_length:
  "parseIPv4Fields_loop p s v n fs = Some a \<Longrightarrow> length fs \<le> 3 \<Longrightarrow> length a = 4"
  by (induction p s v n fs rule: parseIPv4Fields_loop.induct) (auto split: option.splits if_splits)

lemma parseIPv6_loop_step:
  assumes "parseIPv6_loop s a el = Some (s', a', el')" "length a < 16"
  shows "(\<exists>f. length f = 4 \<and> length a + 4 \<le> 16 \<and> a' = a @ f) \<or> (\<exists>x y. a' = a @ [x, y])
    \<or> (\<exists>x y s2 el2. parseIPv6_loop s2 (a @ [x, y]) el2 = Some (s', a', el'))"
  using assms
  by (subst (asm) parseIPv6_loop.simps)
     (auto simp: Let_def parseIPv4Fields_def dest: parseIPv4Fields_loop_length
       split: option.splits if_splits list.splits prod.splits)

lemma parseIPv6_loop_length:
  "parseIPv6_loop s a el = Some (s', a', el') \<Longrightarrow> even (length a) \<Longrightarrow> length a \<le> 16 \<Longrightarrow> length a' \<le> 16"
proof (induction "16 - length a" arbitrary: s a el rule: less_induct)
  case less
  show ?case
  proof (cases "length a < 16")
    case True
    with less.prems(2) have room: "length a + 2 \<le> 16" by presburger
    with less.prems less.hyps [of "a @ [_, _]"] parseIPv6_loop_step [OF less.prems(1) True] show ?thesis
      by auto
  next
    case False
    with less.prems(1,3) show ?thesis by (simp add: parseIPv6_loop.simps)
  qed
qed

lemma ParseAddr_length:
  "ParseAddr s = Some a \<Longrightarrow> (\<exists>b. a = Addr4 b \<and> length b = 4) \<or> (\<exists>b z. a = Addr6 b z \<and> length b = 16)"
proof -
  assume a: "ParseAddr s = Some a"
  have six: "length b = 16" if "parseIPv6_loop t [] el = Some r" "expand_ellipsis r = Some b" for t el r b
    using that parseIPv6_loop_length [of t "[]" el] 
    by (cases r) (auto simp: expand_ellipsis_def split: if_splits option.splits)
  show ?thesis
    using a unfolding ParseAddr_def parseIPv6_def parseIPv4Fields_def
    by (auto simp: Let_def six dest: parseIPv4Fields_loop_length
        split: option.splits if_splits Option.bind_splits)
qed

lemma length_As16: "ParseAddr s = Some a \<Longrightarrow> length (As16 a) = 16"
  using ParseAddr_length [of s a] by (auto simp: v4InV6Prefix_def)

lemma ParseIP_length: "ParseIP s = Some a \<Longrightarrow> length a = 16"
  by (auto simp: ParseIP_def length_As16 split: option.splits if_splits)

section \<open>Prefix masks\<close>

lemma less8_cases: "n < (8::nat) \<Longrightarrow> n = 0 \<or> n = 1 \<or> n = 2 \<or> n = 3 \<or> n = 4 \<or> n = 5 \<or> n = 6 \<or> n = 7"
  by linarith

lemma drop_bit_255: "n < 8 \<Longrightarrow> drop_bit n (255 :: byte) = mask (8 - n)"
  by (drule less8_cases) (auto simp: mask_eq_exp_minus_1 drop_bit_eq_div)

lemma unat_take_bit_byte: "unat (take_bit k (b :: byte)) = unat b mod 2 ^ k"
  using unsigned_take_bit_eq [of k b, where ?'a = nat] by (simp only: take_bit_nat_def)

lemma unat_and_not_mask: "unat (b AND NOT (mask k) :: byte) = unat b - unat b mod 2 ^ k"
proof -
  have "b AND NOT (mask k) = b - take_bit k b"
    by (subst disjunctive_diff_eq_and_not) (auto simp: bit_eq_iff bit_simps)
  moreover have "take_bit k b \<le> b"
    by (simp add: word_le_nat_alt unsigned_take_bit_eq take_bit_nat_less_eq_self)
  moreover have "unat (take_bit k b) = unat b mod 2 ^ k"
    by (rule unat_take_bit_byte)
  ultimately show ?thesis
    by (simp only: unat_sub)
qed

lemma block_end_less:
  fixes x d D :: nat
  assumes "x < D" "d dvd D" "0 < d"
  shows "x - x mod d + (d - 1) < D"
proof -
  from assms(2) obtain q where D: "D = d * q" by auto
  with assms(1) have "x div d < q" by (simp add: less_mult_imp_div_less mult.commute)
  then have "d * (x div d + 1) \<le> d * q" by (intro mult_le_mono2) simp
  then have "d * (x div d) + d \<le> D" by (simp add: D)
  moreover have "x - x mod d = d * (x div d)" by (simp add: minus_mod_eq_mult_div)
  ultimately show ?thesis using assms(3) by linarith
qed

lemma unat_or_mask:
  assumes "k \<le> 8"
  shows "unat (b OR mask k :: byte) = unat b - unat b mod 2 ^ k + (2 ^ k - 1)"
proof -
  have m: "unat (mask k :: byte) = 2 ^ k - 1"
    using assms less8_cases [of k] by (cases "k = 8") (auto simp: mask_eq_exp_minus_1)
  have "b OR mask k = (b AND NOT (mask k)) + mask k"
    by (subst disjunctive_add_eq_or) (auto simp: bit_eq_iff bit_simps)
  then have "unat (b OR mask k) = (unat b - unat b mod 2 ^ k + (2 ^ k - 1)) mod 256"
    by (simp only: unat_word_ariths unat_and_not_mask m) simp
  moreover have "unat b - unat b mod 2 ^ k + (2 ^ k - 1) < 256"
    using assms le_imp_power_dvd [of k 8 "2::nat"] unat_byte_less [of b]
    by (intro block_end_less) simp_all
  ultimately show ?thesis by simp
qed

lemma byte_255 [simp]: "(b :: byte) AND 255 = b" "(b :: byte) OR - 256 = b"
proof -
  have m: "(255 :: byte) = - 1" "(- 256 :: byte) = 0" by simp_all
  show "b AND 255 = b" "b OR - 256 = b" by (simp_all only: m and.right_neutral or.right_neutral)
qed

lemma CIDRMask_bytes_0: "CIDRMask_bytes 0 L = replicate L 0"
  by (induction L) simp_all

lemma length_CIDRMask_bytes [simp]: "length (CIDRMask_bytes n L) = L"
  by (induction n L rule: CIDRMask_bytes.induct) simp_all

lemma power_256: "(256 :: nat) ^ L = 2 ^ (8 * L)"
  by (simp add: power_mult)

lemma be_val_map2_zero: "be_val (map2 (AND) bs (replicate (length bs) 0)) = 0"
  by (induction bs) (simp_all add: be_simps)

lemma sub_mod_high: "h * D - h mod q * D = (h * D + v) - (h * D + v) mod (D * q)" if "v < D" for h D v q :: nat
proof -
  have "(h * D + v) mod (D * q) = D * ((h * D + v) div D mod q) + (h * D + v) mod D"
    by (rule mod_mult2_eq)
  also have "\<dots> = D * (h mod q) + v" using that by simp
  finally show ?thesis by (simp add: mult.commute)
qed

lemma sub_mod_low: "h * D + (v - v mod d) = (h * D + v) - (h * D + v) mod d" if "d dvd D" for h D v d :: nat
proof -
  from that obtain q where "D = d * q" by auto
  then have "(h * D + v) mod d = v mod d" by (metis mod_mult_self4 mult.assoc mult.commute mult.left_commute)
  then show ?thesis by simp
qed

lemma be_val_and_CIDRMask:
  assumes "n \<le> 8 * length a"
  shows "be_val (map2 (AND) a (CIDRMask_bytes n (length a))) =
         be_val a - be_val a mod 2 ^ (8 * length a - n)"
  using assms
proof (induction a arbitrary: n)
  case (Cons b bs)
  let ?L = "length bs"
  show ?case
  proof (cases "8 \<le> n")
    case True
    let ?d = "(2::nat) ^ (8 * ?L - (n - 8))"
    have d: "(2::nat) ^ (8 * length (b # bs) - n) = ?d" using True Cons.prems by simp
    have "?d dvd 256 ^ ?L" by (simp add: power_256 le_imp_power_dvd)
    then have "unat b * 256 ^ ?L + (be_val bs - be_val bs mod ?d) =
        unat b * 256 ^ ?L + be_val bs - (unat b * 256 ^ ?L + be_val bs) mod ?d"
      by (rule sub_mod_low)
    moreover have "be_val (map2 (AND) bs (CIDRMask_bytes (n - 8) ?L)) = be_val bs - be_val bs mod ?d"
      using Cons.IH [of "n - 8"] Cons.prems by simp
    ultimately show ?thesis
      unfolding d using True by (simp only: CIDRMask_bytes.simps if_True list.size list.map zip_Cons_Cons
          be_val_Cons length_map length_zip length_CIDRMask_bytes min.idem byte_255 prod.case add_Suc_right add_0_right)
  next
    case False
    have p: "(2::nat) ^ (8 * length (b # bs) - n) = 256 ^ ?L * 2 ^ (8 - n)"
      using False by (simp add: power_256 power_add [symmetric])
    show ?thesis
      using False sub_mod_high [of "be_val bs" "256 ^ ?L" "unat b" "2 ^ (8 - n)"] be_val_less [of bs]
      unfolding p
      by (simp add: be_simps CIDRMask_bytes_0 be_val_map2_zero drop_bit_255 unat_and_not_mask diff_mult_distrib)
  qed
qed simp

lemma leading_ones_mask: "n < 8 \<Longrightarrow> leading_ones (NOT (drop_bit n 255)) = (n, 0)"
  by (drule less8_cases) (elim disjE; simp add: leading_ones.simps drop_bit_eq_div)

lemma mask_byte_neq: "n < 8 \<Longrightarrow> NOT (drop_bit n (255 :: byte)) \<noteq> 255"
  by (drule less8_cases) (elim disjE; simp add: drop_bit_eq_div)

lemma simpleMaskLength_CIDRMask: "n \<le> 8 * L \<Longrightarrow> simpleMaskLength (CIDRMask_bytes n L) = Some n"
proof (induction L arbitrary: n)
  case (Suc L)
  show ?case
  proof (cases "8 \<le> n")
    case True
    with Suc show ?thesis by simp
  next
    case False
    with mask_byte_neq [of n] leading_ones_mask [of n] show ?thesis
      by (simp add: CIDRMask_bytes_0 list_all_iff)
  qed
qed simp

section \<open>CIDR blocks\<close>

text \<open>What a successful \<open>ParseCIDR\<close> gives: an IPv4 block with a 4-byte mask, or an IPv6 block
  (possibly of IPv4-mapped addresses) with a 16-byte mask.\<close>

lemma ParseCIDR_cases:
  assumes "ParseCIDR s = Some (x, net)"
  obtains (v4) a n where "length a = 4" "n \<le> 32"
      "x = v4InV6Prefix @ a" "Net_Mask net = CIDRMask_bytes n 4" "Net_IP net = map2 (AND) a (CIDRMask_bytes n 4)"
  | (v6) n where "length x = 16" "n \<le> 128"
      "Net_Mask net = CIDRMask_bytes n 16" "Net_IP net = map2 (AND) x (CIDRMask_bytes n 16)"
proof -
  from assms obtain adr n where
    adr: "ParseAddr (takeWhile (\<lambda>c. c \<noteq> CHR ''/'') s) = Some adr" and n: "n \<le> BitLen adr"
    and x: "x = As16 adr" and m: "Net_Mask net = CIDRMask n (BitLen adr)"
    and net: "Net_IP net = IP_Mask (As16 adr) (CIDRMask n (BitLen adr))"
    by (auto simp: ParseCIDR_def Let_def not_less split: if_splits option.splits)
  from ParseAddr_length [OF adr] show ?thesis
  proof (elim disjE exE conjE)
    fix b assume b: "adr = Addr4 b" "length b = 4"
    show ?thesis
      using x m net n b
      by (intro v4 [of b n]) (simp_all add: CIDRMask_def IP_Mask_def v4InV6Prefix_def)
  next
    fix b z assume b: "adr = Addr6 b z" "length b = 16"
    show ?thesis
      using x m net n b by (intro v6 [of n]) (simp_all add: CIDRMask_def IP_Mask_def)
  qed
qed

end
