(* ===== verification/IP_Range.thy ===== *)
theory IP_Range
  imports Go_Net_Mask
begin

unbundle bit_operations_syntax

text \<open>
  \<^verbatim>\<open>internal/network/parse.go\<close>: normal forms of addresses, the three notations of an address
  range, comparison, increment and decrement.

  The lemmas give the arithmetic meaning of the byte loops: \<open>IncrementIP\<close> and \<open>DecrementIP\<close> add
  and subtract one modulo the size of the address family, \<open>CompareIPs\<close> is the numeric order
  within a family, and a parsed range consists of two addresses of 4 or 16 bytes.
\<close>

section \<open>Definitions\<close>

text \<open>The errors of the package \<^verbatim>\<open>network\<close>.  The last three wrap \<^verbatim>\<open>ErrIPUnavailable\<close>.\<close>

datatype net_error =
    InvalidCIDR string
  | InvalidRangeFormat string
  | InvalidRangeAddrs string
  | ScanLimit string nat
  | NoAvailable string
  | NotValidIP string
  | NotAllocatable string string
  | AlreadyAllocated string

definition is_ErrIPUnavailable :: "net_error \<Rightarrow> bool" where
  "is_ErrIPUnavailable e =
     (case e of NotValidIP _ \<Rightarrow> True | NotAllocatable _ _ \<Rightarrow> True | AlreadyAllocated _ \<Rightarrow> True | _ \<Rightarrow> False)"

definition NormalizeIP :: "ip \<Rightarrow> ip" where
  "NormalizeIP a = (if To4 a \<noteq> [] then To4 a else To16 a)"

definition CompareIPs :: "ip \<Rightarrow> ip \<Rightarrow> int" where
  "CompareIPs a b = bytes_Compare (NormalizeIP a) (NormalizeIP b)"

text \<open>The loops run from the last byte to the first; here over the reversed list.\<close>

fun inc_from_last :: "byte list \<Rightarrow> byte list" where
  "inc_from_last [] = []"
| "inc_from_last (b # bs) = (if b + 1 \<noteq> 0 then (b + 1) # bs else (b + 1) # inc_from_last bs)"

fun dec_from_last :: "byte list \<Rightarrow> byte list" where
  "dec_from_last [] = []"
| "dec_from_last (b # bs) = (if b - 1 \<noteq> 0xFF then (b - 1) # bs else (b - 1) # dec_from_last bs)"

definition IncrementIP :: "ip \<Rightarrow> ip" where
  "IncrementIP a = rev (inc_from_last (rev a))"

definition DecrementIP :: "ip \<Rightarrow> ip" where
  "DecrementIP a = rev (dec_from_last (rev a))"

text \<open>The last address of a block: every byte of the first one with the inverted mask byte at
  the same index.  The mask is never shorter than the normalized address
  (\<open>cidr_mask_covers\<close> below), so no index is out of range.\<close>

definition last_of_block :: "ip \<Rightarrow> byte list \<Rightarrow> ip" where
  "last_of_block start m = map2 (\<lambda>b x. b OR NOT x) start m"

definition ParseIPRange :: "string \<Rightarrow> net_error + ip \<times> ip" where
  "ParseIPRange ipRange =
     (let trimmed = TrimSpace ipRange in
      if Contains trimmed (CHR ''/'') then
        (case ParseCIDR trimmed of
           None \<Rightarrow> Inl (InvalidCIDR ipRange)
         | Some (_, ipNet) \<Rightarrow>
             let start = NormalizeIP (Net_IP ipNet);
                 end_ip = last_of_block start (Net_Mask ipNet);
                 (ones, bits) = Mask_Size (Net_Mask ipNet)
             in if bits = 32 \<and> bits - ones > 1 then Inr (IncrementIP start, DecrementIP end_ip)
                else Inr (start, end_ip))
      else (case ParseIP trimmed of
         Some a \<Rightarrow> Inr (NormalizeIP a, NormalizeIP a)
       | None \<Rightarrow>
           (let parts = Split trimmed (CHR ''-'') in
            if length parts \<noteq> 2 then Inl (InvalidRangeFormat ipRange)
            else (case (ParseIP (TrimSpace (parts ! 0)), ParseIP (TrimSpace (parts ! 1))) of
                (Some s, Some e) \<Rightarrow> Inr (NormalizeIP s, NormalizeIP e)
              | _ \<Rightarrow> Inl (InvalidRangeAddrs ipRange)))))"

lemmas [go_eval] = NormalizeIP_def IncrementIP_def DecrementIP_def last_of_block_def
  ParseIPRange_def CompareIPs_def

section \<open>Normal forms\<close>

lemma NormalizeIP_length: "length a = 4 \<or> length a = 16 \<Longrightarrow> length (NormalizeIP a) = 4 \<or> length (NormalizeIP a) = 16"
  by (auto simp: NormalizeIP_def To4_def To16_def)

lemma NormalizeIP_4 [simp]: "length a = 4 \<Longrightarrow> NormalizeIP a = a"
  by (auto simp: NormalizeIP_def To4_def)

lemma NormalizeIP_idem [simp]: "NormalizeIP (NormalizeIP a) = NormalizeIP a"
  by (auto simp: NormalizeIP_def To4_def To16_def)

lemma NormalizeIP_To16 [simp]: "length a = 4 \<or> length a = 16 \<Longrightarrow> NormalizeIP (To16 a) = NormalizeIP a"
  by (auto simp: NormalizeIP_def To4_def To16_def v4InV6Prefix_def)

definition normal_ip :: "ip \<Rightarrow> bool" where
  "normal_ip a \<longleftrightarrow> (length a = 4 \<or> length a = 16) \<and> NormalizeIP a = a"

lemma normal_NormalizeIP: "length a = 4 \<or> length a = 16 \<Longrightarrow> normal_ip (NormalizeIP a)"
  using NormalizeIP_length by (simp add: normal_ip_def)

lemma IP_String_NormalizeIP: "length a = 4 \<or> length a = 16 \<Longrightarrow> IP_String (NormalizeIP a) = IP_String a"
  by (auto simp: IP_String_def NormalizeIP_def To4_def To16_def)

text \<open>Parsing what was printed gives back the normal form, so printing is injective on it.\<close>

lemma ParseIP_String_normal: "normal_ip a \<Longrightarrow> map_option NormalizeIP (ParseIP (IP_String a)) = Some a"
  by (auto simp: normal_ip_def ParseIP_IP_String)

lemma IP_String_inject: "normal_ip a \<Longrightarrow> normal_ip b \<Longrightarrow> IP_String a = IP_String b \<longleftrightarrow> a = b"
  by (metis ParseIP_String_normal option.inject)

section \<open>Increment and decrement\<close>

lemma length_inc_from_last [simp]: "length (inc_from_last bs) = length bs"
  by (induction bs) auto

lemma length_dec_from_last [simp]: "length (dec_from_last bs) = length bs"
  by (induction bs) auto

lemma length_IncrementIP [simp]: "length (IncrementIP a) = length a"
  and length_DecrementIP [simp]: "length (DecrementIP a) = length a"
  by (simp_all add: IncrementIP_def DecrementIP_def)

lemma be_val_inc_from_last:
  "be_val (rev (inc_from_last bs)) =
     (if be_val (rev bs) + 1 < 256 ^ length bs then be_val (rev bs) + 1 else 0)"
proof (induction bs)
  case (Cons b bs)
  have small: "be_val (rev bs) < 256 ^ length bs" using be_val_less [of "rev bs"] by simp
  show ?case
  proof (cases "b + 1 = 0")
    case True
    then have "unat b = 255" by (simp only: unat_wrap_byte)
    with True Cons.IH small show ?thesis by (auto simp: be_simps)
  next
    case False
    then have "unat (b + 1) = unat b + 1" by (simp add: unat_inc_byte)
    moreover have "be_val (rev bs @ [b + 1]) < 256 ^ Suc (length bs)"
      using be_val_less [of "rev bs @ [b + 1]"] by simp
    ultimately show ?thesis using False by (simp add: be_simps)
  qed
qed simp

lemma be_val_dec_from_last:
  "be_val (rev (dec_from_last bs)) =
     (if be_val (rev bs) = 0 then 256 ^ length bs - 1 else be_val (rev bs) - 1)"
proof (induction bs)
  case (Cons b bs)
  show ?case
  proof (cases "b = 0")
    case True
    have shift: "(n - 1) * 256 + 255 = n * 256 - 1" if "0 < n" for n :: nat
      using that by (cases n) simp_all
    have "be_val (rev (dec_from_last (b # bs))) = be_val (rev (dec_from_last bs)) * 256 + 255"
      using True by (simp add: be_simps dec_byte_wraps)
    also have "\<dots> = (if be_val (rev bs) = 0 then 256 ^ length bs else be_val (rev bs)) * 256 - 1"
      using Cons.IH shift by simp
    finally show ?thesis using True by (simp add: be_simps mult.commute)
  next
    case False
    then have "unat (b - 1) = unat b - 1" "0 < unat b" by (simp_all add: unat_dec_byte unat_gt_0)
    then show ?thesis using False by (simp add: be_simps dec_byte_wraps)
  qed
qed simp

lemma be_val_IncrementIP:
  "be_val (IncrementIP a) = (if be_val a + 1 < 256 ^ length a then be_val a + 1 else 0)"
  using be_val_inc_from_last [of "rev a"] by (simp add: IncrementIP_def)

lemma be_val_DecrementIP:
  "be_val (DecrementIP a) = (if be_val a = 0 then 256 ^ length a - 1 else be_val a - 1)"
  using be_val_dec_from_last [of "rev a"] by (simp add: DecrementIP_def)

lemma IncrementIP_DecrementIP: "IncrementIP (DecrementIP a) = a"
proof (rule be_val_inject [THEN iffD1])
  show "be_val (IncrementIP (DecrementIP a)) = be_val a"
    using be_val_less [of a] by (simp add: be_val_IncrementIP be_val_DecrementIP)
qed simp

lemma DecrementIP_IncrementIP: "DecrementIP (IncrementIP a) = a"
proof (rule be_val_inject [THEN iffD1])
  show "be_val (DecrementIP (IncrementIP a)) = be_val a"
    using be_val_less [of a] by (auto simp: be_val_IncrementIP be_val_DecrementIP)
qed simp

section \<open>Last addresses of blocks\<close>

lemma be_val_map2_ones: "be_val (map2 (\<lambda>b m. b OR NOT m) bs (replicate (length bs) 0)) = 256 ^ length bs - 1"
proof (induction bs)
  case (Cons b bs)
  have "unat b * 0 + 255 * 256 ^ length bs + (256 ^ length bs - 1) = 256 * 256 ^ length bs - (1 :: nat)"
    by simp
  with Cons show ?case by (simp add: be_simps)
qed simp

lemma shift_block: "0 < P \<Longrightarrow> 0 < q \<Longrightarrow> (A + (q - 1)) * P + (P - 1) = A * P + (P * q - 1)" for P q A :: nat
  by (cases P; cases q) (simp_all add: algebra_simps)

lemma be_val_last_of_block:
  assumes "n \<le> 8 * length a"
  shows "be_val (last_of_block a (CIDRMask_bytes n (length a))) =
         be_val a - be_val a mod 2 ^ (8 * length a - n) + (2 ^ (8 * length a - n) - 1)"
  using assms
proof (induction a arbitrary: n)
  case Nil
  then show ?case by (simp add: last_of_block_def)
next
  case (Cons b bs)
  let ?L = "length bs"
  show ?case
  proof (cases "8 \<le> n")
    case True
    let ?d = "(2::nat) ^ (8 * ?L - (n - 8))"
    have d: "(2::nat) ^ (8 * length (b # bs) - n) = ?d" using True Cons.prems by simp
    have "?d dvd 256 ^ ?L" by (simp add: power_256 le_imp_power_dvd)
    then have "unat b * 256 ^ ?L + (be_val bs - be_val bs mod ?d) =
        unat b * 256 ^ ?L + be_val bs - (unat b * 256 ^ ?L + be_val bs) mod ?d"
      by (rule sub_mod_low)
    moreover have "be_val (last_of_block bs (CIDRMask_bytes (n - 8) ?L)) = be_val bs - be_val bs mod ?d + (?d - 1)"
      using Cons.IH [of "n - 8"] Cons.prems by simp
    moreover have "be_val (last_of_block (b # bs) (CIDRMask_bytes n (length (b # bs)))) =
        unat b * 256 ^ ?L + be_val (last_of_block bs (CIDRMask_bytes (n - 8) ?L))"
      using True by (simp add: last_of_block_def be_simps)
    ultimately show ?thesis
      unfolding d be_val_Cons by linarith
  next
    case False
    let ?k = "8 - n"
    have p: "(2::nat) ^ (8 * length (b # bs) - n) = 256 ^ ?L * 2 ^ ?k"
      using False by (simp add: power_256 power_add [symmetric])
    have "be_val (last_of_block (b # bs) (CIDRMask_bytes n (length (b # bs)))) =
        (unat b - unat b mod 2 ^ ?k + (2 ^ ?k - 1)) * 256 ^ ?L + (256 ^ ?L - 1)"
      using False by (simp add: last_of_block_def be_simps CIDRMask_bytes_0 be_val_map2_ones
          drop_bit_255 unat_or_mask)
    also have "\<dots> = (unat b * 256 ^ ?L - unat b mod 2 ^ ?k * 256 ^ ?L) + (256 ^ ?L * 2 ^ ?k - 1)"
      using shift_block [of "256 ^ ?L" "2 ^ ?k" "unat b - unat b mod 2 ^ ?k"]
      by (simp only: diff_mult_distrib) simp
    finally show ?thesis
      using sub_mod_high [of "be_val bs" "256 ^ ?L" "unat b" "2 ^ ?k"] be_val_less [of bs]
      unfolding p be_val_Cons by simp
  qed
qed

lemma cidr_mask_covers:
  assumes "ParseCIDR s = Some (x, net)"
  shows "length (NormalizeIP (Net_IP net)) \<le> length (Net_Mask net)"
    "length (NormalizeIP (Net_IP net)) = 4 \<or> length (NormalizeIP (Net_IP net)) = 16"
  using assms NormalizeIP_length [of "Net_IP net"]
  by (cases rule: ParseCIDR_cases; auto simp: NormalizeIP_def To4_def To16_def)+

section \<open>Blocks of addresses\<close>

text \<open>The first and the last address of the block of \<open>a\<close> under a mask of \<open>n\<close> ones.\<close>

lemma block_number: "0 < D \<Longrightarrow> D dvd N \<Longrightarrow> v - v mod D = N \<longleftrightarrow> N \<le> v \<and> v \<le> N + (D - 1)" for D N v :: nat
proof
  assume D: "0 < D" and eq: "v - v mod D = N"
  have "v mod D \<le> v" by (rule mod_less_eq_dividend)
  moreover have "v mod D < D" using D by (rule mod_less_divisor)
  ultimately show "N \<le> v \<and> v \<le> N + (D - 1)" using eq by linarith
next
  assume D: "0 < D" "D dvd N" and "N \<le> v \<and> v \<le> N + (D - 1)"
  then have "v = N + (v - N)" "v - N < D" by linarith+
  moreover have "(N + (v - N)) mod D = (v - N) mod D" using D(2) by (simp add: mod_add_eq [symmetric])
  ultimately show "v - v mod D = N" by simp
qed

definition net_base :: "ip \<Rightarrow> nat \<Rightarrow> ip" where
  "net_base a n = map2 (AND) a (CIDRMask_bytes n (length a))"

definition net_last :: "ip \<Rightarrow> nat \<Rightarrow> ip" where
  "net_last a n = last_of_block (net_base a n) (CIDRMask_bytes n (length a))"

definition block_size :: "ip \<Rightarrow> nat \<Rightarrow> nat" where
  "block_size a n = 2 ^ (8 * length a - n)"

lemma length_last_of_block [simp]: "length (last_of_block a m) = min (length a) (length m)"
  by (simp add: last_of_block_def)

lemma length_net_base [simp]: "length (net_base a n) = length a"
  by (simp add: net_base_def)

lemma length_net_last [simp]: "length (net_last a n) = length a"
  by (simp add: net_last_def)

lemma block_size_pos [simp]: "0 < block_size a n"
  by (simp add: block_size_def)

lemma be_val_net_base: "n \<le> 8 * length a \<Longrightarrow> be_val (net_base a n) = be_val a - be_val a mod block_size a n"
  by (simp add: net_base_def be_val_and_CIDRMask block_size_def)

lemma block_dvd: "n \<le> 8 * length a \<Longrightarrow> block_size a n dvd be_val (net_base a n)"
  by (simp add: be_val_net_base dvd_minus_mod)

lemma be_val_net_last: "n \<le> 8 * length a \<Longrightarrow> be_val (net_last a n) = be_val (net_base a n) + (block_size a n - 1)"
  using be_val_last_of_block [of n "net_base a n"] block_dvd [of n a]
  by (simp add: net_last_def block_size_def dvd_imp_mod_0)

lemma net_base_idem:
  assumes "n \<le> 8 * length a"
  shows "net_base (net_base a n) n = net_base a n"
proof -
  have "be_val (net_base (net_base a n) n) = be_val (net_base a n)"
    using be_val_net_base [of n "net_base a n"] block_dvd [OF assms] assms
    by (simp add: block_size_def dvd_imp_mod_0)
  then show ?thesis using be_val_inject [of "net_base (net_base a n) n" "net_base a n"] by simp
qed

lemma in_block:
  assumes "n \<le> 8 * length a" "length t = length a"
  shows "net_base t n = net_base a n \<longleftrightarrow> net_base a n \<le> t \<and> t \<le> net_last a n"
proof -
  have "net_base t n = net_base a n \<longleftrightarrow> be_val (net_base t n) = be_val (net_base a n)"
    using assms be_val_inject [of "net_base t n" "net_base a n"] by auto
  also have "\<dots> \<longleftrightarrow> be_val (net_base a n) \<le> be_val t \<and> be_val t \<le> be_val (net_last a n)"
    using assms block_number [OF block_size_pos block_dvd [OF assms(1)], of "be_val t"]
    by (simp add: be_val_net_base [of n t] be_val_net_last block_size_def)
  also have "\<dots> \<longleftrightarrow> net_base a n \<le> t \<and> t \<le> net_last a n"
    using assms by (simp add: be_val_le_iff)
  finally show ?thesis .
qed

lemma CIDRMask_bytes_ones: "8 * k \<le> n \<Longrightarrow> k \<le> L \<Longrightarrow> take k (CIDRMask_bytes n L) = replicate k 255"
proof (induction L arbitrary: k n)
  case (Suc L)
  then show ?case by (cases k) auto
qed simp

lemma CIDRMask_bytes_255:
  assumes "i < L" "CIDRMask_bytes n L ! i = 255"
  shows "8 * (i + 1) \<le> n"
  using assms
proof (induction L arbitrary: i n)
  case (Suc L)
  show ?case
  proof (cases "8 \<le> n")
    case True
    with Suc show ?thesis by (cases i) fastforce+
  next
    case False
    with Suc.prems show ?thesis using mask_byte_neq [of n]
      by (cases i) (auto simp: CIDRMask_bytes_0)
  qed
qed simp

lemma and_255_right: "(b :: byte) AND m = 255 \<Longrightarrow> m = 255"
  by (metis and.left_commute and.right_idem and.commute byte_255(1))

text \<open>A block whose base is an IPv4-mapped address has a mask that covers the whole prefix, so
  the first four bytes of that mask are all ones.\<close>

lemma mapped_base_mask:
  assumes "length x = 16" "take 12 (net_base x n) = v4InV6Prefix"
  shows "96 \<le> n" "take 4 (CIDRMask_bytes n 16) = [255, 255, 255, 255]"
proof -
  have "take 12 (net_base x n) ! 11 = 255" unfolding assms(2) by (simp add: v4InV6Prefix_def)
  then have "x ! 11 AND CIDRMask_bytes n 16 ! 11 = 255"
    using assms(1) by (simp add: net_base_def)
  then have "8 * (11 + 1) \<le> n" using CIDRMask_bytes_255 [of 11 16 n] and_255_right by simp
  then show n: "96 \<le> n" by simp
  then show "take 4 (CIDRMask_bytes n 16) = [255, 255, 255, 255]"
    using CIDRMask_bytes_ones [of 4 n 16] by (simp add: numeral_eq_Suc)
qed

lemma last_of_block_mapped:
  assumes "take 4 m = [255, 255, 255, 255]" "length a = 4"
  shows "last_of_block a m = a"
proof -
  obtain m' where "m = [255, 255, 255, 255] @ m'" using assms(1) append_take_drop_id [of 4 m] by metis
  moreover obtain a1 a2 a3 a4 where "a = [a1, a2, a3, a4]" using length4_cases [OF assms(2)] by blast
  ultimately show ?thesis by (simp add: last_of_block_def)
qed

section \<open>Parsed ranges\<close>

text \<open>The five ways in which a range string parses.\<close>

lemma ParseIPRange_cases:
  assumes "ParseIPRange r = Inr (s, e)"
  obtains (single) a where "CHR ''/'' \<notin> set r" "ParseIP (TrimSpace r) = Some a" "s = NormalizeIP a" "e = s"
  | (dash) p q a b where "CHR ''/'' \<notin> set r" "ParseIP (TrimSpace r) = None"
      "Split (TrimSpace r) (CHR ''-'') = [p, q]"
      "ParseIP (TrimSpace p) = Some a" "ParseIP (TrimSpace q) = Some b" "s = NormalizeIP a" "e = NormalizeIP b"
  | (cidr4) x net a n where "CHR ''/'' \<in> set r" "ParseCIDR (TrimSpace r) = Some (x, net)"
      "length a = 4" "n \<le> 32" "Net_IP net = net_base a n" "Net_Mask net = CIDRMask_bytes n 4"
      "s = (if n < 31 then IncrementIP (net_base a n) else net_base a n)"
      "e = (if n < 31 then DecrementIP (net_last a n) else net_last a n)"
  | (cidr6) x net n where "CHR ''/'' \<in> set r" "ParseCIDR (TrimSpace r) = Some (x, net)"
      "length x = 16" "n \<le> 128" "Net_IP net = net_base x n" "Net_Mask net = CIDRMask_bytes n 16"
      "take 12 (net_base x n) \<noteq> v4InV6Prefix" "s = net_base x n" "e = net_last x n"
  | (mapped) x net n where "CHR ''/'' \<in> set r" "ParseCIDR (TrimSpace r) = Some (x, net)"
      "length x = 16" "n \<le> 128" "Net_IP net = net_base x n" "Net_Mask net = CIDRMask_bytes n 16"
      "take 12 (net_base x n) = v4InV6Prefix" "s = drop 12 (net_base x n)" "e = s"
proof (cases "CHR ''/'' \<in> set r")
  case slash: True
  with assms obtain x net where net: "ParseCIDR (TrimSpace r) = Some (x, net)"
    by (auto simp: ParseIPRange_def Let_def split: option.splits)
  note r = assms [unfolded ParseIPRange_def Let_def Contains_iff slash_TrimSpace, simplified slash net, simplified]
  from net show thesis
  proof (cases rule: ParseCIDR_cases)
    case (v4 a n)
    have "Net_IP net = net_base a n" "length (Net_IP net) = 4" using v4 by (simp_all add: net_base_def)
    then show thesis using v4 r slash net
      by (intro cidr4 [of x net a n])
         (auto simp: Mask_Size_def simpleMaskLength_CIDRMask net_last_def split: if_splits)
  next
    case (v6 n)
    have b: "Net_IP net = net_base x n" "length (net_base x n) = 16" using v6 by (simp_all add: net_base_def)
    show thesis
    proof (cases "take 12 (net_base x n) = v4InV6Prefix")
      case True
      then have "NormalizeIP (Net_IP net) = drop 12 (net_base x n)"
        using b by (auto simp: NormalizeIP_def To4_def)
      then show thesis using v6 r slash net b True mapped_base_mask [OF v6(1) True]
        by (intro mapped [of x net n])
           (auto simp: Mask_Size_def simpleMaskLength_CIDRMask last_of_block_mapped split: if_splits)
    next
      case False
      then have "NormalizeIP (Net_IP net) = net_base x n"
        using b by (auto simp: NormalizeIP_def To4_def To16_def)
      then show thesis using v6 r slash net b False
        by (intro cidr6 [of x net n])
           (auto simp: Mask_Size_def simpleMaskLength_CIDRMask net_last_def split: if_splits)
    qed
  qed
next
  case False
  show thesis
  proof (cases "ParseIP (TrimSpace r)")
    case (Some a)
    with assms False show thesis by (intro single [of a]) (auto simp: ParseIPRange_def)
  next
    case None
    let ?parts = "Split (TrimSpace r) (CHR ''-'')"
    from assms False None have "length ?parts = 2"
      by (auto simp: ParseIPRange_def Let_def split: if_splits)
    then obtain p q where pq: "?parts = [p, q]" by (auto simp: numeral_2_eq_2 length_Suc_conv)
    with assms False None show thesis
      by (auto simp: ParseIPRange_def split: option.splits intro: dash)
  qed
qed

lemma ParseIPRange_lengths:
  assumes "ParseIPRange r = Inr (s, e)"
  shows "(length s = 4 \<or> length s = 16) \<and> (length e = 4 \<or> length e = 16)"
proof (cases "Contains (TrimSpace r) (CHR ''/'')")
  case True
  with assms obtain x net where net: "ParseCIDR (TrimSpace r) = Some (x, net)"
    by (auto simp: ParseIPRange_def Let_def split: option.splits)
  with assms True show ?thesis
    using cidr_mask_covers [OF net]
    by (auto simp: ParseIPRange_def Let_def min_def split: if_splits prod.splits)
next
  case False
  with assms show ?thesis
    using NormalizeIP_length ParseIP_length
    by (auto simp: ParseIPRange_def Let_def split: if_splits option.splits)
qed

section \<open>Blocks as intervals\<close>

text \<open>The two ends of an IPv4 block, as addresses that the allocator skips.\<close>

lemma host_bounds:
  assumes "length a = 4" "n < 31"
  shows "be_val (IncrementIP (net_base a n)) = be_val (net_base a n) + 1"
    "be_val (DecrementIP (net_last a n)) + 1 = be_val (net_last a n)"
    "be_val (net_base a n) + 3 \<le> be_val (net_last a n)"
proof -
  have "(2::nat) ^ 2 \<le> 2 ^ (32 - n)" using assms(2) by (intro power_increasing) auto
  then have D: "4 \<le> block_size a n" using assms by (simp add: block_size_def)
  have last: "be_val (net_last a n) = be_val (net_base a n) + (block_size a n - 1)"
    using assms by (intro be_val_net_last) simp
  with D show *: "be_val (net_base a n) + 3 \<le> be_val (net_last a n)" by linarith
  have "be_val (net_last a n) < 256 ^ length (net_last a n)" by (rule be_val_less)
  with * show "be_val (IncrementIP (net_base a n)) = be_val (net_base a n) + 1"
    by (simp add: be_val_IncrementIP)
  from * show "be_val (DecrementIP (net_last a n)) + 1 = be_val (net_last a n)"
    by (simp add: be_val_DecrementIP)
qed

lemma net_base_le_last: "n \<le> 8 * length a \<Longrightarrow> net_base a n \<le> net_last a n"
  by (simp add: be_val_le_iff be_val_net_last)

lemma host_interval:
  assumes "length a = 4" "n < 31" "length t = 4"
  shows "IncrementIP (net_base a n) \<le> t \<and> t \<le> DecrementIP (net_last a n) \<longleftrightarrow>
         net_base a n \<le> t \<and> t \<le> net_last a n \<and> t \<noteq> net_base a n \<and> t \<noteq> net_last a n"
  using assms host_bounds [OF assms(1,2)] be_val_inject [of t "net_base a n"] be_val_inject [of t "net_last a n"]
  by (auto simp: be_val_le_iff)

text \<open>A range in CIDR form, or a single address, has its ends in order and in one family.\<close>

lemma ParseIPRange_ordered:
  assumes "ParseIPRange r = Inr (s, e)" "CHR ''/'' \<in> set r \<or> ParseIP (TrimSpace r) \<noteq> None"
  shows "length s = length e \<and> s \<le> e"
  using assms(1)
proof (cases rule: ParseIPRange_cases)
  case (dash p q a b)
  with assms(2) show ?thesis by simp
next
  case (cidr4 x net a n)
  then show ?thesis
    using host_bounds [of a n] net_base_le_last [of n a] by (auto simp: be_val_le_iff)
next
  case (cidr6 x net n)
  then show ?thesis using net_base_le_last [of n x] by simp
qed simp_all

lemma NormalizeIP_conv: "length t = 16 \<Longrightarrow> NormalizeIP t = (if To4 t \<noteq> [] then To4 t else t)"
  by (auto simp: NormalizeIP_def To16_def)

lemma IPNet_Contains_4:
  assumes "length a = 4" "n \<le> 32" "Net_IP net = net_base a n" "Net_Mask net = CIDRMask_bytes n 4" "length t = 16"
  shows "IPNet_Contains net t \<longleftrightarrow>
    length (NormalizeIP t) = 4 \<and> net_base a n \<le> NormalizeIP t \<and> NormalizeIP t \<le> net_last a n"
proof -
  have "net_base a n \<noteq> []" using assms(1) length_net_base [of a n] by (metis list.size(3) zero_neq_numeral)
  then have nm: "networkNumberAndMask net = (net_base a n, CIDRMask_bytes n 4)"
    using assms by (auto simp: networkNumberAndMask_def Let_def To4_def)
  have "IPNet_Contains net t \<longleftrightarrow>
      length (NormalizeIP t) = 4 \<and> net_base (NormalizeIP t) n = net_base (net_base a n) n"
    unfolding IPNet_Contains_def nm NormalizeIP_conv [OF assms(5)]
    using assms(1) by (auto simp: net_base_def Let_def)
  then show ?thesis using in_block [of n a "NormalizeIP t"] net_base_idem [of n a] assms by auto
qed

lemma IPNet_Contains_6:
  assumes "length x = 16" "n \<le> 128" "Net_IP net = net_base x n" "Net_Mask net = CIDRMask_bytes n 16"
    "take 12 (net_base x n) \<noteq> v4InV6Prefix" "length t = 16"
  shows "IPNet_Contains net t \<longleftrightarrow>
    length (NormalizeIP t) = 16 \<and> net_base x n \<le> NormalizeIP t \<and> NormalizeIP t \<le> net_last x n"
proof -
  have nm: "networkNumberAndMask net = (net_base x n, CIDRMask_bytes n 16)"
    using assms by (auto simp: networkNumberAndMask_def Let_def To4_def)
  have "IPNet_Contains net t \<longleftrightarrow>
      length (NormalizeIP t) = 16 \<and> net_base (NormalizeIP t) n = net_base (net_base x n) n"
    unfolding IPNet_Contains_def nm NormalizeIP_conv [OF assms(6)]
    using assms(1) by (auto simp: net_base_def Let_def)
  then show ?thesis using in_block [of n x "NormalizeIP t"] net_base_idem [of n x] assms by auto
qed

lemma drop_CIDRMask_bytes:
  "8 * k \<le> n \<Longrightarrow> k \<le> L \<Longrightarrow> drop k (CIDRMask_bytes n L) = CIDRMask_bytes (n - 8 * k) (L - k)"
proof (induction k arbitrary: n L)
  case (Suc k)
  then show ?case by (cases L) (auto simp: diff_diff_left)
qed simp

lemma IPNet_Contains_mapped:
  assumes "length x = 16" "Net_IP net = net_base x n" "Net_Mask net = CIDRMask_bytes n 16"
    "n \<le> 128" "take 12 (net_base x n) = v4InV6Prefix" "length t = 16"
  shows "IPNet_Contains net t \<longleftrightarrow>
    length (NormalizeIP t) = 4 \<and> net_base (NormalizeIP t) (n - 96) = drop 12 (net_base x n)"
proof -
  let ?b = "drop 12 (net_base x n)"
  have n: "96 \<le> n" using mapped_base_mask [OF assms(1,5)] by simp
  have m: "drop 12 (CIDRMask_bytes n 16) = CIDRMask_bytes (n - 96) 4"
    using drop_CIDRMask_bytes [of 12 n 16] n by simp
  have b: "?b = net_base (drop 12 x) (n - 96)"
    using assms(1) by (simp add: net_base_def drop_map drop_zip m)
  have "length ?b = 4" using assms(1) by simp
  then have "?b \<noteq> []" by (metis list.size(3) zero_neq_numeral)
  then have nm: "networkNumberAndMask net = (?b, CIDRMask_bytes (n - 96) 4)"
    using assms m by (auto simp: networkNumberAndMask_def Let_def To4_def)
  have "IPNet_Contains net t \<longleftrightarrow>
      length (NormalizeIP t) = 4 \<and> net_base (NormalizeIP t) (n - 96) = net_base ?b (n - 96)"
    unfolding IPNet_Contains_def nm NormalizeIP_conv [OF assms(6)]
    using assms(1) by (auto simp: net_base_def Let_def)
  moreover have "net_base ?b (n - 96) = ?b" using b net_base_idem [of "n - 96" "drop 12 x"] assms(1,4) by simp
  ultimately show ?thesis by simp
qed

lemma ParseIPRange_slash:
  assumes "ParseCIDR (TrimSpace r) = Some (x, net)"
  shows "\<exists>s e. ParseIPRange r = Inr (s, e)"
  using assms by (auto simp: ParseIPRange_def ParseCIDR_def Let_def split: if_splits prod.splits)

lemma ParseIP_Nil: "ParseIP [] = None"
  by (simp add: ParseIP_def ParseAddr_def)

lemma ParseIPRange_empty: "ParseIPRange [] = Inl (InvalidRangeFormat [])"
  by (simp add: ParseIPRange_def ParseIP_Nil)

section \<open>Ranges on which the properties are evaluated\<close>

lemma range_10_29: "ParseIPRange ''10.0.0.0/29'' = Inr ([10, 0, 0, 1], [10, 0, 0, 6])"
  by (simp add: go_eval)

lemma range_all_ones:
  "ParseIPRange ''255.255.255.254-255.255.255.255'' = Inr ([255, 255, 255, 254], [255, 255, 255, 255])"
  by (simp add: go_eval)

end
