(* ===== verification/IP_Allocator.thy ===== *)
theory IP_Allocator
  imports IP_Range
begin

text \<open>
  \<^verbatim>\<open>internal/network/ip_allocator.go\<close> and \<^verbatim>\<open>internal/network/network.go\<close>: the allocator's state, its
  operations and the two membership tests.  Every operation that touches \<^verbatim>\<open>used\<close> holds the
  allocator's mutex from its first access to its return, so an execution of concurrent callers is
  a sequence of these operations; \<open>pool_run\<close> runs such a sequence.

  \<^item> \<open>alloc_scan\<close> is the bounded loop of \<^verbatim>\<open>AllocateIP\<close>; \<open>alloc_scan_ref\<close> shows that it finds the
    first free address of the range, in numeric order, among the first \<^verbatim>\<open>maxScan\<close>.
  \<^item> The locale \<open>address_pool\<close> is the contract that the controller relies on; it is
    interpreted on the \<^verbatim>\<open>NetworkManager\<close> as \<open>nm\<close>.
\<close>

section \<open>State and operations\<close>

record IPAllocator =
  used :: "string \<rightharpoonup> bool"
  maxScan :: nat

definition defaultMaxScan :: nat where
  "defaultMaxScan = 65536"

definition NewIPAllocator :: IPAllocator where
  "NewIPAllocator = \<lparr>used = Map.empty, maxScan = defaultMaxScan\<rparr>"

definition take_ip :: "IPAllocator \<Rightarrow> string \<Rightarrow> IPAllocator" where
  "take_ip a s = a\<lparr>used := (used a)(s \<mapsto> True)\<rparr>"

text \<open>The loop of \<^verbatim>\<open>AllocateIP\<close>, from the address \<open>x\<close> on.\<close>

function alloc_scan :: "IPAllocator \<Rightarrow> string \<Rightarrow> ip \<Rightarrow> nat \<Rightarrow> ip \<Rightarrow> (net_error + string) \<times> IPAllocator" where
  "alloc_scan a ipRange e scanned x =
     (if bytes_Compare x e \<le> 0 then
        if scanned \<ge> maxScan a then (Inl (ScanLimit ipRange (maxScan a)), a)
        else if \<not> map_bool (used a) (IP_String x) then (Inr (IP_String x), take_ip a (IP_String x))
        else alloc_scan a ipRange e (scanned + 1) (IncrementIP x)
      else (Inl (NoAvailable ipRange), a))"
  by pat_completeness auto
termination
  by (relation "measure (\<lambda>(a, r, e, scanned, x). maxScan a - scanned)") auto

declare alloc_scan.simps [simp del]

definition AllocateIP :: "IPAllocator \<Rightarrow> string \<Rightarrow> (net_error + string) \<times> IPAllocator" where
  "AllocateIP a ipRange =
     (case ParseIPRange ipRange of
        Inl err \<Rightarrow> (Inl err, a)
      | Inr (start, e) \<Rightarrow>
          if IP_Equal start e then (Inr (IP_String start), take_ip a (IP_String start))
          else alloc_scan a ipRange e 0 start)"

definition IPAllocatable :: "string \<Rightarrow> string \<Rightarrow> bool" where
  "IPAllocatable x ipRange =
     (case ParseIP (TrimSpace x) of
        None \<Rightarrow> False
      | Some target \<Rightarrow>
          (case ParseIPRange ipRange of
             Inl _ \<Rightarrow> False
           | Inr (start, e) \<Rightarrow>
               bytes_Compare (NormalizeIP target) start \<ge> 0
               \<and> bytes_Compare (NormalizeIP target) e \<le> 0))"

definition AllocateSpecificIP ::
  "IPAllocator \<Rightarrow> string \<Rightarrow> string \<Rightarrow> (net_error + string) \<times> IPAllocator" where
  "AllocateSpecificIP a ipRange requested =
     (case ParseIP (TrimSpace requested) of
        None \<Rightarrow> (Inl (NotValidIP requested), a)
      | Some target \<Rightarrow>
          if \<not> IPAllocatable requested ipRange then (Inl (NotAllocatable requested ipRange), a)
          else let ipStr = IP_String (NormalizeIP target) in
            if map_bool (used a) ipStr then (Inl (AlreadyAllocated ipStr), a)
            else (Inr ipStr, take_ip a ipStr))"

definition IPInRange :: "string \<Rightarrow> string \<Rightarrow> bool" where
  "IPInRange x ipRange =
     (case ParseIP (TrimSpace x) of
        None \<Rightarrow> False
      | Some target \<Rightarrow>
          if Contains ipRange (CHR ''/'') then
            (case ParseCIDR (TrimSpace ipRange) of
               None \<Rightarrow> False
             | Some (_, ipNet) \<Rightarrow> IPNet_Contains ipNet target)
          else (case ParseIPRange ipRange of
             Inl _ \<Rightarrow> False
           | Inr (start, e) \<Rightarrow>
               bytes_Compare (NormalizeIP target) start \<ge> 0
               \<and> bytes_Compare (NormalizeIP target) e \<le> 0))"

definition MarkUsed :: "IPAllocator \<Rightarrow> string \<Rightarrow> IPAllocator" where
  "MarkUsed a x = a\<lparr>used := (used a)(x \<mapsto> True)\<rparr>"

definition ReleaseIP :: "IPAllocator \<Rightarrow> string \<Rightarrow> IPAllocator" where
  "ReleaseIP a x = a\<lparr>used := (used a)(x := None)\<rparr>"

subsection \<open>The network manager\<close>

record NetworkManager =
  ipAllocator :: IPAllocator

definition NewNetworkManager :: NetworkManager where
  "NewNetworkManager = \<lparr>ipAllocator = NewIPAllocator\<rparr>"

definition nm_AllocateIP :: "NetworkManager \<Rightarrow> string \<Rightarrow> (net_error + string) \<times> NetworkManager" where
  "nm_AllocateIP m ipRange =
     (case AllocateIP (ipAllocator m) ipRange of (res, a) \<Rightarrow> (res, m\<lparr>ipAllocator := a\<rparr>))"

definition nm_AllocateSpecificIP ::
  "NetworkManager \<Rightarrow> string \<Rightarrow> string \<Rightarrow> (net_error + string) \<times> NetworkManager" where
  "nm_AllocateSpecificIP m ipRange requested =
     (case AllocateSpecificIP (ipAllocator m) ipRange requested of (res, a) \<Rightarrow> (res, m\<lparr>ipAllocator := a\<rparr>))"

definition nm_MarkUsed :: "NetworkManager \<Rightarrow> string \<Rightarrow> NetworkManager" where
  "nm_MarkUsed m x = m\<lparr>ipAllocator := MarkUsed (ipAllocator m) x\<rparr>"

definition nm_ReleaseIP :: "NetworkManager \<Rightarrow> string \<Rightarrow> NetworkManager" where
  "nm_ReleaseIP m x = m\<lparr>ipAllocator := ReleaseIP (ipAllocator m) x\<rparr>"

lemmas [go_eval] = NewIPAllocator_def defaultMaxScan_def take_ip_def alloc_scan.simps AllocateIP_def
  IPAllocatable_def AllocateSpecificIP_def IPInRange_def MarkUsed_def ReleaseIP_def

section \<open>The scan finds the first free address\<close>

text \<open>The addresses of a range in numeric order, and allocation by searching that list.\<close>

definition pool_list :: "ip \<Rightarrow> ip \<Rightarrow> ip list" where
  "pool_list s e = map (be_bytes (length s)) [be_val s ..< be_val e + 1]"

definition first_free :: "IPAllocator \<Rightarrow> ip list \<Rightarrow> ip option" where
  "first_free a xs = find (\<lambda>x. \<not> map_bool (used a) (IP_String x)) xs"

definition alloc_ref :: "IPAllocator \<Rightarrow> string \<Rightarrow> nat \<Rightarrow> ip list \<Rightarrow> (net_error + string) \<times> IPAllocator" where
  "alloc_ref a ipRange limit xs =
     (case first_free a (take limit xs) of
        Some x \<Rightarrow> (Inr (IP_String x), take_ip a (IP_String x))
      | None \<Rightarrow> (Inl (if limit < length xs then ScanLimit ipRange (maxScan a) else NoAvailable ipRange), a))"

lemma in_pool_list: "length x = length s \<Longrightarrow> length e = length s \<Longrightarrow> x \<in> set (pool_list s e) \<longleftrightarrow> s \<le> x \<and> x \<le> e"
proof -
  assume len: "length x = length s" "length e = length s"
  have "x \<in> set (pool_list s e) \<longleftrightarrow> be_val s \<le> be_val x \<and> be_val x \<le> be_val e"
  proof
    assume "x \<in> set (pool_list s e)"
    then obtain v where v: "x = be_bytes (length s) v" "be_val s \<le> v" "v \<le> be_val e"
      by (auto simp: pool_list_def)
    moreover have "v < 256 ^ length s" using v(3) be_val_less [of e] len by simp
    ultimately show "be_val s \<le> be_val x \<and> be_val x \<le> be_val e" by (simp add: be_val_be_bytes)
  next
    assume "be_val s \<le> be_val x \<and> be_val x \<le> be_val e"
    then have "be_bytes (length s) (be_val x) \<in> set (pool_list s e)"
      by (auto simp: pool_list_def simp del: upt_Suc)
    moreover have "be_bytes (length s) (be_val x) = x" using be_bytes_be_val [of x] len by simp
    ultimately show "x \<in> set (pool_list s e)" by simp
  qed
  then show ?thesis using len by (simp add: be_val_le_iff)
qed

lemma pool_list_Cons:
  assumes "length s = length e" "s \<le> e" "be_val s + 1 < 256 ^ length s"
  shows "pool_list s e = s # pool_list (IncrementIP s) e"
proof -
  have le: "be_val s \<le> be_val e" using assms(1,2) by (simp add: be_val_le_iff)
  then have "be_val (IncrementIP s) = be_val s + 1"
    using assms by (simp add: be_val_IncrementIP)
  moreover have "[be_val s ..< be_val e + 1] = be_val s # [be_val s + 1 ..< be_val e + 1]"
    using le upt_conv_Cons [of "be_val s" "be_val e + 1"] by simp
  ultimately show ?thesis by (simp add: pool_list_def del: upt_Suc)
qed

lemma pool_list_empty: "length s = length e \<Longrightarrow> \<not> s \<le> e \<Longrightarrow> pool_list s e = []"
  by (simp add: pool_list_def be_val_le_iff)

lemma alloc_scan_ref:
  assumes "length x = length e" "be_val e + 1 < 256 ^ length e" "scanned \<le> maxScan a"
  shows "alloc_scan a r e scanned x = alloc_ref a r (maxScan a - scanned) (pool_list x e)"
  using assms
proof (induction a r e scanned x rule: alloc_scan.induct)
  case (1 a r e scanned x)
  show ?case
  proof (cases "x \<le> e")
    case False
    with 1 show ?thesis
      by (simp add: alloc_scan.simps pool_list_empty alloc_ref_def first_free_def)
  next
    case True
    with 1(2,3) have "be_val x + 1 < 256 ^ length x" by (simp add: be_val_le_iff)
    note cons = pool_list_Cons [OF 1(2) True this]
    show ?thesis
    proof (cases "scanned < maxScan a \<and> map_bool (used a) (IP_String x)")
      case rec: True
      then have m: "maxScan a - scanned = Suc (maxScan a - (scanned + 1))" by linarith
      have "alloc_scan a r e (scanned + 1) (IncrementIP x) =
          alloc_ref a r (maxScan a - (scanned + 1)) (pool_list (IncrementIP x) e)"
        using 1 True rec by simp
      with True rec show ?thesis
        unfolding cons m by (simp add: alloc_scan.simps [of a r e scanned x] alloc_ref_def first_free_def)
    next
      case False
      with True 1(4) show ?thesis
        unfolding cons
        by (cases "maxScan a - scanned")
           (auto simp: alloc_scan.simps [of a r e scanned x] alloc_ref_def first_free_def)
    qed
  qed
qed

section \<open>Effects of the operations\<close>

lemma To16_NormalizeIP: "length t = 16 \<Longrightarrow> To16 (NormalizeIP t) = t"
  by (auto simp: NormalizeIP_def To4_def To16_def) (metis append_take_drop_id)

lemma ParseIP_canonical:
  assumes "ParseIP q = Some t"
  shows "ParseIP (IP_String (NormalizeIP t)) = Some t"
  using ParseIP_length [OF assms] NormalizeIP_length [of t]
  by (simp add: ParseIP_IP_String To16_NormalizeIP)

lemma alloc_scan_result:
  assumes "alloc_scan a r e scanned x = (res, a')"
  shows "case res of Inl _ \<Rightarrow> a' = a | Inr y \<Rightarrow> \<not> map_bool (used a) y \<and> a' = take_ip a y"
  using assms
proof (induction a r e scanned x rule: alloc_scan.induct)
  case (1 a r e scanned x)
  then show ?case by (subst (asm) (2) alloc_scan.simps) (auto split: if_splits)
qed

lemma AllocateIP_Inl: "AllocateIP a r = (Inl err, a') \<Longrightarrow> a' = a"
  by (auto simp: AllocateIP_def dest: alloc_scan_result split: sum.splits prod.splits if_splits)

lemma AllocateIP_Inr: "AllocateIP a r = (Inr y, a') \<Longrightarrow> a' = take_ip a y"
  by (auto simp: AllocateIP_def dest: alloc_scan_result split: sum.splits prod.splits if_splits)

text \<open>Whatever is handed out is the text of an address, so it is not empty.\<close>

lemma alloc_scan_string:
  "alloc_scan a r e scanned x = (Inr y, a') \<Longrightarrow> \<exists>z. length z = length x \<and> y = IP_String z"
proof (induction a r e scanned x rule: alloc_scan.induct)
  case (1 a r e scanned x)
  then show ?case by (subst (asm) (2) alloc_scan.simps) (auto split: if_splits)
qed

lemma AllocateIP_string:
  "AllocateIP a r = (Inr y, a') \<Longrightarrow> \<exists>z. (length z = 4 \<or> length z = 16) \<and> y = IP_String z"
  using ParseIPRange_lengths [of r]
  by (auto simp: AllocateIP_def dest!: alloc_scan_string split: sum.splits prod.splits if_splits)

lemma AllocateSpecificIP_string:
  assumes "AllocateSpecificIP a r q = (Inr y, a')"
  shows "ParseIP y = ParseIP (TrimSpace q) \<and> (\<exists>z. (length z = 4 \<or> length z = 16) \<and> y = IP_String z)"
proof -
  from assms obtain t where t: "ParseIP (TrimSpace q) = Some t" "y = IP_String (NormalizeIP t)"
    by (auto simp: AllocateSpecificIP_def Let_def split: option.splits if_splits)
  have "length (NormalizeIP t) = 4 \<or> length (NormalizeIP t) = 16"
    using ParseIP_length [OF t(1)] NormalizeIP_length [of t] by simp
  with t show ?thesis using ParseIP_canonical [OF t(1)] by auto
qed

lemma IP_String_nonempty: "length a = 4 \<or> length a = 16 \<Longrightarrow> IP_String a \<noteq> []"
  using ParseIP_IP_String [of a] ParseIP_Nil by auto

text \<open>A range of one address: its address is handed out whether or not it is in use.\<close>

definition single_range :: "string \<Rightarrow> bool" where
  "single_range r = (case ParseIPRange r of Inl _ \<Rightarrow> False | Inr (s, e) \<Rightarrow> IP_Equal s e)"

lemma AllocateIP_fresh: "AllocateIP a r = (Inr y, a') \<Longrightarrow> \<not> single_range r \<Longrightarrow> \<not> map_bool (used a) y"
  by (auto simp: AllocateIP_def single_range_def dest: alloc_scan_result split: sum.splits prod.splits if_splits)

lemma AllocateSpecificIP_Inl: "AllocateSpecificIP a r q = (Inl err, a') \<Longrightarrow> a' = a"
  by (auto simp: AllocateSpecificIP_def Let_def split: option.splits if_splits)

lemma AllocateSpecificIP_Inr:
  "AllocateSpecificIP a r q = (Inr y, a') \<Longrightarrow> a' = take_ip a y \<and> \<not> map_bool (used a) y"
  by (auto simp: AllocateSpecificIP_def Let_def split: option.splits if_splits)

definition held :: "IPAllocator \<Rightarrow> string set" where
  "held a = {x. map_bool (used a) x}"

lemma held_simps [simp]:
  "held (take_ip a x) = insert x (held a)"
  "held (MarkUsed a x) = insert x (held a)"
  "held (ReleaseIP a x) = held a - {x}"
  "held NewIPAllocator = {}"
  by (auto simp: held_def take_ip_def MarkUsed_def ReleaseIP_def NewIPAllocator_def)

lemma maxScan_simps [simp]:
  "maxScan (take_ip a x) = maxScan a" "maxScan (MarkUsed a x) = maxScan a" "maxScan (ReleaseIP a x) = maxScan a"
  by (simp_all add: take_ip_def MarkUsed_def ReleaseIP_def)

lemma AllocateIP_first:
  assumes "ParseIPRange r = Inr (s, e)" "s \<le> e" "IP_String s \<notin> held a" "0 < maxScan a"
  shows "AllocateIP a r = (Inr (IP_String s), take_ip a (IP_String s))"
  using assms by (simp add: AllocateIP_def alloc_scan.simps [of a r e 0 s] held_def)

section \<open>The contract of an address pool\<close>

datatype pool_op = Allocate string | AllocateSpecific string string | Mark string | Release string

text \<open>One call on a pool, with the addresses that have been handed out and not released since.\<close>

fun pool_step ::
  "('s \<Rightarrow> string \<Rightarrow> (net_error + string) \<times> 's) \<Rightarrow> ('s \<Rightarrow> string \<Rightarrow> string \<Rightarrow> (net_error + string) \<times> 's)
   \<Rightarrow> ('s \<Rightarrow> string \<Rightarrow> 's) \<Rightarrow> ('s \<Rightarrow> string \<Rightarrow> 's) \<Rightarrow> pool_op \<Rightarrow> 's \<times> string list \<Rightarrow> 's \<times> string list" where
  "pool_step alloc specific mark_used release (Allocate r) (s, granted) =
     (case alloc s r of (Inl _, s') \<Rightarrow> (s', granted) | (Inr x, s') \<Rightarrow> (s', x # granted))"
| "pool_step alloc specific mark_used release (AllocateSpecific r q) (s, granted) =
     (case specific s r q of (Inl _, s') \<Rightarrow> (s', granted) | (Inr x, s') \<Rightarrow> (s', x # granted))"
| "pool_step alloc specific mark_used release (Mark x) (s, granted) = (mark_used s x, granted)"
| "pool_step alloc specific mark_used release (Release x) (s, granted) = (release s x, filter (\<lambda>y. y \<noteq> x) granted)"

locale address_pool =
  fixes alloc :: "'s \<Rightarrow> string \<Rightarrow> (net_error + string) \<times> 's"
    and specific :: "'s \<Rightarrow> string \<Rightarrow> string \<Rightarrow> (net_error + string) \<times> 's"
    and mark_used :: "'s \<Rightarrow> string \<Rightarrow> 's"
    and release :: "'s \<Rightarrow> string \<Rightarrow> 's"
    and in_use :: "'s \<Rightarrow> string set"
    and reusable :: "string \<Rightarrow> bool"
  assumes alloc_fail: "alloc s r = (Inl err, s') \<Longrightarrow> s' = s"
    and alloc_takes: "alloc s r = (Inr x, s') \<Longrightarrow> in_use s' = insert x (in_use s)"
    and alloc_fresh: "alloc s r = (Inr x, s') \<Longrightarrow> \<not> reusable r \<Longrightarrow> x \<notin> in_use s"
    and specific_fail: "specific s r q = (Inl err, s') \<Longrightarrow> s' = s"
    and specific_takes: "specific s r q = (Inr x, s') \<Longrightarrow> in_use s' = insert x (in_use s)"
    and specific_fresh: "specific s r q = (Inr x, s') \<Longrightarrow> x \<notin> in_use s"
    and mark_takes: "in_use (mark_used s x) = insert x (in_use s)"
    and release_frees: "in_use (release s x) = in_use s - {x}"
begin

definition sound_op :: "pool_op \<Rightarrow> bool" where
  "sound_op op = (case op of Allocate r \<Rightarrow> \<not> reusable r | _ \<Rightarrow> True)"

definition accounted :: "'s \<times> string list \<Rightarrow> bool" where
  "accounted p = (distinct (snd p) \<and> set (snd p) \<subseteq> in_use (fst p))"

lemma accounted_step:
  "accounted p \<Longrightarrow> sound_op op \<Longrightarrow> accounted (pool_step alloc specific mark_used release op p)"
  by (cases p; cases op)
     (auto simp: accounted_def sound_op_def mark_takes release_frees
           dest: alloc_fail alloc_takes alloc_fresh specific_fail specific_takes specific_fresh
           split: prod.splits sum.splits)

lemma accounted_run:
  "accounted p \<Longrightarrow> list_all sound_op ops \<Longrightarrow> accounted (fold (pool_step alloc specific mark_used release) ops p)"
  by (induction ops arbitrary: p) (simp_all add: accounted_step)

lemma step_keeps_others:
  "x \<in> in_use (fst p) \<Longrightarrow> op \<noteq> Release x \<Longrightarrow> x \<in> in_use (fst (pool_step alloc specific mark_used release op p))"
  by (cases p; cases op)
     (auto simp: mark_takes release_frees dest: alloc_fail alloc_takes specific_fail specific_takes
           split: prod.splits sum.splits)

lemma run_keeps_others:
  "x \<in> in_use (fst p) \<Longrightarrow> Release x \<notin> set ops
   \<Longrightarrow> x \<in> in_use (fst (fold (pool_step alloc specific mark_used release) ops p))"
proof (induction ops arbitrary: p)
  case (Cons op ops)
  then have "x \<in> in_use (fst (pool_step alloc specific mark_used release op p))"
    by (intro step_keeps_others) auto
  then show ?case using Cons by simp
qed simp

text \<open>An address in use is not handed out again until it is released.\<close>

lemma not_regranted:
  assumes "x \<in> in_use (fst p)" "Release x \<notin> set ops" "list_all sound_op ops" "x \<notin> set (snd p)"
  shows "x \<notin> set (snd (fold (pool_step alloc specific mark_used release) ops p))"
  using assms
proof (induction ops arbitrary: p)
  case (Cons op ops)
  then have "x \<in> in_use (fst (pool_step alloc specific mark_used release op p))"
    by (intro step_keeps_others) auto
  moreover have "x \<notin> set (snd (pool_step alloc specific mark_used release op p))"
    using Cons.prems
    by (cases p; cases op) (auto simp: sound_op_def dest: alloc_fresh specific_fresh split: prod.splits sum.splits)
  ultimately show ?case using Cons by simp
qed simp

end

lemma not_held: "\<not> map_bool (used a) x \<Longrightarrow> x \<notin> held a"
  by (simp add: held_def)

interpretation nm: address_pool nm_AllocateIP nm_AllocateSpecificIP nm_MarkUsed nm_ReleaseIP
  "\<lambda>m. held (ipAllocator m)" single_range
  by unfold_locales
     (auto simp: nm_AllocateIP_def nm_AllocateSpecificIP_def nm_MarkUsed_def nm_ReleaseIP_def not_held
           dest: AllocateIP_Inl AllocateIP_Inr AllocateSpecificIP_Inl AllocateSpecificIP_Inr not_held [OF AllocateIP_fresh]
           split: prod.splits)

lemma first_in_pool: "length x = length e \<Longrightarrow> x \<le> e \<Longrightarrow> x \<in> set (pool_list x e)"
  by (rule iffD2 [OF in_pool_list]) simp_all

section \<open>Past the last address\<close>

lemma be_val_zero [simp]: "be_val (replicate n 0) = 0"
  by (induction n) (simp_all add: be_simps)

text \<open>After the all-ones address \<^verbatim>\<open>IncrementIP\<close> gives the all-zero one, which the loop condition
  accepts: when the range ends there and is full, the scan leaves it.\<close>

lemma alloc_scan_wraps:
  assumes "length x = length e" "be_val e + 1 = 256 ^ length e"
    "\<forall>y \<in> set (pool_list x e). map_bool (used a) (IP_String y)"
    "scanned + length (pool_list x e) < maxScan a"
    "\<not> map_bool (used a) (IP_String (replicate (length e) 0))"
  shows "alloc_scan a r e scanned x =
    (Inr (IP_String (replicate (length e) 0)), take_ip a (IP_String (replicate (length e) 0)))"
  using assms
proof (induction a r e scanned x rule: alloc_scan.induct)
  case (1 a r e scanned x)
  let ?zero = "replicate (length e) 0 :: ip"
  have le: "y \<le> e" if "length y = length e" for y
    using 1(3) be_val_less [of y] that by (simp add: be_val_le_iff)
  have xin: "map_bool (used a) (IP_String x)"
    using 1(4) first_in_pool [OF 1(2) le [OF 1(2)]] by blast
  have sc: "scanned < maxScan a" using 1(5) by simp
  have step: "alloc_scan a r e scanned x = alloc_scan a r e (scanned + 1) (IncrementIP x)"
    using le [OF 1(2)] xin sc by (simp add: alloc_scan.simps [of a r e scanned x])
  show ?case
  proof (cases "be_val x + 1 < 256 ^ length x")
    case True
    note cons = pool_list_Cons [OF 1(2) le [OF 1(2)] True]
    have "\<forall>y \<in> set (pool_list (IncrementIP x) e). map_bool (used a) (IP_String y)"
      using 1(4) unfolding cons by simp
    moreover have "scanned + 1 + length (pool_list (IncrementIP x) e) < maxScan a"
      using 1(5) unfolding cons by simp
    ultimately show ?thesis unfolding step
      using le [OF 1(2)] xin sc 1(2,3,6) by (intro 1(1)) simp_all
  next
    case False
    then have "be_val (IncrementIP x) = be_val ?zero" by (simp add: be_val_IncrementIP)
    then have inc: "IncrementIP x = ?zero" using be_val_inject [of "IncrementIP x" ?zero] 1(2) by simp
    have "pool_list x e \<noteq> []" using first_in_pool [OF 1(2) le [OF 1(2)]] by auto
    then have "scanned + 1 < maxScan a" using 1(5) by (cases "pool_list x e") auto
    then show ?thesis unfolding step inc
      using 1(6) le [of ?zero] by (simp add: alloc_scan.simps [of a r e "Suc scanned" ?zero])
  qed
qed

section \<open>Which addresses are allocatable\<close>

lemma TrimSpace_IP_String: "length a = 4 \<or> length a = 16 \<Longrightarrow> TrimSpace (IP_String a) = IP_String a"
  by (metis ip_chars_IP_String ip_chars_not(3))

lemma IPAllocatable_iff:
  "ParseIP (TrimSpace q) = Some t \<Longrightarrow> ParseIPRange r = Inr (s, e)
   \<Longrightarrow> IPAllocatable q r \<longleftrightarrow> s \<le> NormalizeIP t \<and> NormalizeIP t \<le> e"
  by (simp add: IPAllocatable_def)

lemma IPAllocatable_String:
  assumes "length x = 4 \<or> length x = 16" "ParseIPRange r = Inr (s, e)"
  shows "IPAllocatable (IP_String x) r \<longleftrightarrow> s \<le> NormalizeIP x \<and> NormalizeIP x \<le> e"
  using assms IPAllocatable_iff [of "IP_String x" "To16 x" r s e]
  by (simp add: TrimSpace_IP_String ParseIP_IP_String)

lemma mapped_small:
  assumes "length x = 16" "take 12 x = v4InV6Prefix"
  shows "be_val x < 2 ^ 48"
proof -
  have "x = v4InV6Prefix @ drop 12 x" using assms(2) append_take_drop_id [of 12 x] by metis
  moreover have "be_val (drop 12 x) < 256 ^ 4" using be_val_less [of "drop 12 x"] assms(1) by simp
  ultimately show ?thesis
    using be_val_append [of v4InV6Prefix "drop 12 x"] assms(1) by (simp add: v4InV6Prefix_def be_simps)
qed

lemma NormalizeIP_big: "length x = 16 \<Longrightarrow> 2 ^ 48 \<le> be_val x \<Longrightarrow> NormalizeIP x = x"
  using mapped_small [of x] by (auto simp: NormalizeIP_def To4_def To16_def)

lemma first_free_Some: "first_free a xs = Some x \<Longrightarrow> x \<in> set xs"
  by (auto simp: first_free_def find_Some_iff)

section \<open>Properties\<close>

text \<open>C1: on a range of several addresses of one family that does not end at the all-ones address,
  \<^verbatim>\<open>AllocateIP\<close> is the search for the first free address of the range in numeric order among the
  first \<^verbatim>\<open>maxScan\<close>; it fails with the scan-limit error exactly when none of these is free and the
  range has more, and with the exhaustion error when the whole range was searched.\<close>

theorem AllocateIP_lowest_free:
  assumes "ParseIPRange r = Inr (s, e)" "length s = length e" "s \<noteq> e" "be_val e + 1 < 256 ^ length e"
  shows "AllocateIP a r = alloc_ref a r (maxScan a) (pool_list s e)"
  using assms alloc_scan_ref [of s e 0 a r] by (simp add: AllocateIP_def IP_Equal_def)

theorem AllocateIP_lowest_free_witness:
  "AllocateIP \<lparr>used = [''10.0.0.1'' \<mapsto> True], maxScan = 2\<rparr> ''10.0.0.0/29'' =
     alloc_ref \<lparr>used = [''10.0.0.1'' \<mapsto> True], maxScan = 2\<rparr> ''10.0.0.0/29'' 2 (pool_list [10, 0, 0, 1] [10, 0, 0, 6])
   \<and> fst (AllocateIP \<lparr>used = [''10.0.0.1'' \<mapsto> True], maxScan = 2\<rparr> ''10.0.0.0/29'') = Inr ''10.0.0.2''"
proof
  let ?a = "\<lparr>used = [''10.0.0.1'' \<mapsto> True], maxScan = 2\<rparr>"
  show "AllocateIP ?a ''10.0.0.0/29'' = alloc_ref ?a ''10.0.0.0/29'' 2 (pool_list [10, 0, 0, 1] [10, 0, 0, 6])"
    using AllocateIP_lowest_free [OF range_10_29, of ?a] by (simp add: be_simps)
  show "fst (AllocateIP ?a ''10.0.0.0/29'') = Inr ''10.0.0.2''"
    by (simp add: range_10_29 go_eval del: ParseIPRange_def)
qed

text \<open>C33: a range that ends at the all-ones address of its family and is full makes \<^verbatim>\<open>AllocateIP\<close>
  wrap around and hand out the all-zero address, which is not in the range.\<close>

theorem AllocateIP_wraps_to_zero:
  assumes "ParseIPRange r = Inr (s, e)" "length s = length e" "s \<noteq> e" "be_val e + 1 = 256 ^ length e"
    "\<forall>x \<in> set (pool_list s e). IP_String x \<in> held a" "length (pool_list s e) < maxScan a"
    "IP_String (replicate (length e) 0) \<notin> held a"
  shows "AllocateIP a r =
    (Inr (IP_String (replicate (length e) 0)), take_ip a (IP_String (replicate (length e) 0)))"
  using assms alloc_scan_wraps [of s e a 0 r] by (simp add: AllocateIP_def IP_Equal_def held_def)

theorem AllocateIP_wraps_to_zero_witness:
  "fst (AllocateIP (MarkUsed (MarkUsed NewIPAllocator ''255.255.255.254'') ''255.255.255.255'')
      ''255.255.255.254-255.255.255.255'') = Inr ''0.0.0.0''
   \<and> \<not> IPInRange ''0.0.0.0'' ''255.255.255.254-255.255.255.255''"
proof -
  have p: "pool_list [255, 255, 255, 254] [255, 255, 255, 255] = [[255, 255, 255, 254], [255, 255, 255, 255]]"
    by (simp add: pool_list_Cons pool_list_def be_simps IncrementIP_def be_bytes_def)
  show ?thesis
    using AllocateIP_wraps_to_zero [OF range_all_ones, of "MarkUsed (MarkUsed NewIPAllocator ''255.255.255.254'') ''255.255.255.255''"]
    unfolding p by (simp add: be_simps) (simp add: go_eval)
qed

text \<open>C7: \<^verbatim>\<open>AllocateSpecificIP\<close> gives the requested address or fails with
  \<^verbatim>\<open>ErrIPUnavailable\<close>: the string it returns parses to the very address that was asked for,
  it was free before, it is held after, and a failure changes nothing.\<close>

theorem AllocateSpecificIP_exact:
  "case AllocateSpecificIP a r q of
     (Inr x, a') \<Rightarrow> ParseIP x = ParseIP (TrimSpace q) \<and> IPAllocatable q r \<and> x \<notin> held a \<and> held a' = insert x (held a)
   | (Inl err, a') \<Rightarrow> is_ErrIPUnavailable err \<and> a' = a
       \<and> (\<not> IPAllocatable q r \<or> (\<exists>x \<in> held a. ParseIP x = ParseIP (TrimSpace q)))"
proof (cases "ParseIP (TrimSpace q)")
  case None
  then show ?thesis by (simp add: AllocateSpecificIP_def is_ErrIPUnavailable_def IPAllocatable_def)
next
  case (Some t)
  note canon = ParseIP_canonical [OF Some]
  show ?thesis
  proof (cases "IPAllocatable q r \<and> IP_String (NormalizeIP t) \<in> held a")
    case True
    then show ?thesis
      using Some canon
      by (auto simp: AllocateSpecificIP_def is_ErrIPUnavailable_def held_def intro!: exI [of _ "IP_String (NormalizeIP t)"])
  next
    case False
    then show ?thesis
      using Some canon held_simps(1) [of a]
      by (auto simp: AllocateSpecificIP_def is_ErrIPUnavailable_def Let_def not_held held_def)
  qed
qed

theorem AllocateSpecificIP_exact_witness:
  "ParseIP ''10.0.0.3'' = ParseIP (TrimSpace ''10.0.0.3'') \<and> IPAllocatable ''10.0.0.3'' ''10.0.0.0/29''
   \<and> AllocateSpecificIP NewIPAllocator ''10.0.0.0/29'' ''10.0.0.3'' = (Inr ''10.0.0.3'', take_ip NewIPAllocator ''10.0.0.3'')"
proof -
  have "AllocateSpecificIP NewIPAllocator ''10.0.0.0/29'' ''10.0.0.3'' = (Inr ''10.0.0.3'', take_ip NewIPAllocator ''10.0.0.3'')"
    by (simp add: range_10_29 go_eval del: ParseIPRange_def take_ip_def)
  then show ?thesis
    using AllocateSpecificIP_exact [of NewIPAllocator "''10.0.0.3''" "''10.0.0.0/29''"] by simp
qed

text \<open>C8: over any sequence of calls on a fresh \<^verbatim>\<open>NetworkManager\<close> that allocates from ranges of more
  than one address, the addresses handed out and not yet released are pairwise different, and all
  of them are marked as used.\<close>

theorem grants_distinct:
  assumes "list_all (\<lambda>op. case op of Allocate r \<Rightarrow> \<not> single_range r | _ \<Rightarrow> True) ops"
    and "fold (pool_step nm_AllocateIP nm_AllocateSpecificIP nm_MarkUsed nm_ReleaseIP) ops (NewNetworkManager, []) = (m, granted)"
  shows "distinct granted \<and> set granted \<subseteq> held (ipAllocator m)"
  using nm.accounted_run [of "(NewNetworkManager, [])" ops] assms
  by (simp add: nm.accounted_def nm.sound_op_def [abs_def])

theorem grants_distinct_witness:
  "distinct [''10.0.0.2'', ''10.0.0.1''] \<and>
   snd (fold (pool_step nm_AllocateIP nm_AllocateSpecificIP nm_MarkUsed nm_ReleaseIP)
     [Allocate ''10.0.0.0/29'', Allocate ''10.0.0.0/29''] (NewNetworkManager, [])) = [''10.0.0.2'', ''10.0.0.1'']"
proof -
  have run: "fold (pool_step nm_AllocateIP nm_AllocateSpecificIP nm_MarkUsed nm_ReleaseIP)
     [Allocate ''10.0.0.0/29'', Allocate ''10.0.0.0/29''] (NewNetworkManager, []) =
     (\<lparr>ipAllocator = \<lparr>used = [''10.0.0.1'' \<mapsto> True, ''10.0.0.2'' \<mapsto> True], maxScan = defaultMaxScan\<rparr>\<rparr>,
      [''10.0.0.2'', ''10.0.0.1''])"
    by (simp add: nm_AllocateIP_def NewNetworkManager_def range_10_29 go_eval del: ParseIPRange_def)
  show ?thesis using grants_distinct [OF _ run] unfolding run by (simp add: single_range_def range_10_29 IP_Equal_def)
qed

text \<open>C29: whatever \<^verbatim>\<open>AllocateIP\<close> hands out of an ordered range of one family is an address that
  \<^verbatim>\<open>IPAllocatable\<close> accepts for that range (the range ends before the all-ones address and, for IPv6, starts
  above the IPv4-mapped block).\<close>

theorem AllocateIP_allocatable:
  assumes "ParseIPRange r = Inr (s, e)" "length s = length e" "s \<le> e" "be_val e + 1 < 256 ^ length e"
    "length s = 4 \<or> 2 ^ 48 \<le> be_val s" "AllocateIP a r = (Inr x, a')"
  shows "IPAllocatable x r"
proof -
  note len = ParseIPRange_lengths [OF assms(1)]
  have "\<exists>y. x = IP_String y \<and> length y = length s \<and> s \<le> y \<and> y \<le> e"
  proof (cases "s = e")
    case True
    with assms(1,6) show ?thesis by (auto simp: AllocateIP_def IP_Equal_def)
  next
    case False
    then have "alloc_ref a r (maxScan a) (pool_list s e) = (Inr x, a')"
      using assms(1,2,4,6) alloc_scan_ref [of s e 0 a r] by (simp add: AllocateIP_def IP_Equal_def)
    then obtain y where y: "y \<in> set (pool_list s e)" "x = IP_String y"
      by (auto simp: alloc_ref_def dest: first_free_Some in_set_takeD split: option.splits)
    from y(1) have len_y: "length y = length s" by (auto simp: pool_list_def)
    show ?thesis using y len_y in_pool_list [OF len_y assms(2) [symmetric]] by blast
  qed
  then obtain y where y: "x = IP_String y" "length y = length s" "s \<le> y" "y \<le> e" by blast
  have "NormalizeIP y = y"
    using y(2,3) len assms(5) be_val_le_iff [of s y] NormalizeIP_big [of y] by auto
  with y len show ?thesis using IPAllocatable_String [of y r s e] assms(1) by auto
qed

theorem AllocateIP_allocatable_witness: "IPAllocatable ''10.0.0.1'' ''10.0.0.0/29''"
proof -
  have "fst (AllocateIP NewIPAllocator ''10.0.0.0/29'') = Inr ''10.0.0.1''"
    by (simp add: range_10_29 go_eval del: ParseIPRange_def)
  then have "AllocateIP NewIPAllocator ''10.0.0.0/29'' = (Inr ''10.0.0.1'', snd (AllocateIP NewIPAllocator ''10.0.0.0/29''))"
    by (metis prod.collapse)
  from AllocateIP_allocatable [OF range_10_29 _ _ _ _ this] show ?thesis by (simp add: be_simps)
qed

text \<open>For an IPv4 block and an IPv4 address, \<^verbatim>\<open>IPAllocatable\<close> is \<^verbatim>\<open>IPInRange\<close> without the
  network and the broadcast address of a block wider than /31.\<close>

lemma IPAllocatable_vs_IPInRange:
  assumes "ParseIP (TrimSpace q) = Some t" "length (NormalizeIP t) = 4"
    "ParseCIDR (TrimSpace r) = Some (x, net)" "length (Net_IP net) = 4"
  shows "IPAllocatable q r \<longleftrightarrow> IPInRange q r \<and>
    \<not> (fst (Mask_Size (Net_Mask net)) < 31
       \<and> (NormalizeIP t = Net_IP net \<or> NormalizeIP t = last_of_block (Net_IP net) (Net_Mask net)))"
proof -
  obtain s e where r: "ParseIPRange r = Inr (s, e)" using ParseIPRange_slash [OF assms(3)] by blast
  note alc = IPAllocatable_iff [OF assms(1) r]
  from r show ?thesis
  proof (cases rule: ParseIPRange_cases)
    case (cidr4 x' net' a n)
    then have net: "net' = net" using assms(3) by simp
    have "IPInRange q r \<longleftrightarrow> net_base a n \<le> NormalizeIP t \<and> NormalizeIP t \<le> net_last a n"
      using cidr4 assms(1,2,3) IPNet_Contains_4 [of a n net' t] ParseIP_length [OF assms(1)] net
      by (simp add: IPInRange_def)
    moreover have "fst (Mask_Size (Net_Mask net)) = n"
      using cidr4(4,6) net simpleMaskLength_CIDRMask [of n 4] by (simp add: Mask_Size_def)
    moreover have "last_of_block (Net_IP net) (Net_Mask net) = net_last a n" "Net_IP net = net_base a n"
      using cidr4 net by (simp_all add: net_last_def)
    ultimately show ?thesis
      using cidr4(3,7,8) alc host_interval [OF cidr4(3) _ assms(2), of n] by auto
  qed (use assms(3,4) in \<open>auto simp: ParseCIDR_def split: if_splits\<close>)
qed

text \<open>C34: a block written with an IPv4-mapped prefix is treated in two ways: \<^verbatim>\<open>ParseIPRange\<close> applies the
  leading bytes of the 16-byte mask to a 4-byte address, so the range holds the base address only,
  while \<^verbatim>\<open>IPInRange\<close> accepts the whole block of \<open>2^(128 - n)\<close> addresses.\<close>

theorem mapped_block_collapses:
  assumes "ParseIP (TrimSpace q) = Some t" "ParseCIDR (TrimSpace r) = Some (x, net)"
    "length (Net_IP net) = 16" "To4 (Net_IP net) \<noteq> []"
  shows "single_range r \<and> (IPAllocatable q r \<longleftrightarrow> NormalizeIP t = To4 (Net_IP net)) \<and>
    (IPInRange q r \<longleftrightarrow> length (NormalizeIP t) = 4 \<and>
       net_base (NormalizeIP t) (fst (Mask_Size (Net_Mask net)) - 96) = To4 (Net_IP net))"
proof -
  obtain s e where r: "ParseIPRange r = Inr (s, e)" using ParseIPRange_slash [OF assms(2)] by blast
  from r show ?thesis
  proof (cases rule: ParseIPRange_cases)
    case (mapped x' net' n)
    then have net: "net' = net" using assms(2) by simp
    have to4: "To4 (Net_IP net) = s" using mapped assms(3) net by (simp add: To4_def)
    have "fst (Mask_Size (Net_Mask net)) = n"
      using mapped(4,6) net simpleMaskLength_CIDRMask [of n 16] by (simp add: Mask_Size_def)
    moreover have "IPInRange q r \<longleftrightarrow> length (NormalizeIP t) = 4 \<and> net_base (NormalizeIP t) (n - 96) = s"
      using mapped assms(1,2) IPNet_Contains_mapped [of x' net' n t] ParseIP_length [OF assms(1)] net
      by (simp add: IPInRange_def)
    moreover have "single_range r" using r mapped(9) by (simp add: single_range_def IP_Equal_def)
    moreover have "IPAllocatable q r \<longleftrightarrow> NormalizeIP t = s"
      using IPAllocatable_iff [OF assms(1) r] mapped(9) by auto
    ultimately show ?thesis unfolding to4 by simp
  qed (use assms(2,3,4) in \<open>auto simp: ParseCIDR_def To4_def split: if_splits\<close>)
qed

theorem mapped_block_collapses_witness:
  "IPInRange ''10.0.0.9'' ''::ffff:10.0.0.0/120'' \<and> \<not> IPAllocatable ''10.0.0.9'' ''::ffff:10.0.0.0/120''"
proof -
  have p: "ParseIP (TrimSpace ''10.0.0.9'') = Some (v4InV6Prefix @ [10, 0, 0, 9])" by (simp add: go_eval)
  have c: "ParseCIDR (TrimSpace ''::ffff:10.0.0.0/120'') =
      Some (v4InV6Prefix @ [10, 0, 0, 0], \<lparr>Net_IP = v4InV6Prefix @ [10, 0, 0, 0], Net_Mask = replicate 15 255 @ [0]\<rparr>)"
    by (simp add: go_eval)
  have n: "NormalizeIP (v4InV6Prefix @ [10, 0, 0, 9]) = [10, 0, 0, 9]"
    "To4 (v4InV6Prefix @ [10, 0, 0, 0]) = [10, 0, 0, 0]" by (simp_all add: go_eval)
  have m: "fst (Mask_Size (replicate 15 255 @ [0])) = 120" by (simp add: go_eval)
  have b: "net_base [10, 0, 0, 9] 24 = [10, 0, 0, 0]" by (simp add: net_base_def go_eval)
  show ?thesis using mapped_block_collapses [OF p c] by (simp add: n m b) (simp add: v4InV6Prefix_def)
qed

text \<open>\<^verbatim>\<open>IPAllocatable\<close> compares addresses of different families byte by byte, so it accepts an IPv4
  address for an IPv6 range whose first four bytes surround it, and \<^verbatim>\<open>AllocateSpecificIP\<close> then hands it out.\<close>

lemma IPAllocatable_other_family:
  assumes "ParseIP (TrimSpace q) = Some t" "ParseIPRange r = Inr (s, e)"
    "length (NormalizeIP t) = 4" "length s = 16" "length e = 16"
    "take 4 s < NormalizeIP t" "NormalizeIP t \<le> take 4 e" "IP_String (NormalizeIP t) \<notin> held a"
  shows "IPAllocatable q r \<and>
    AllocateSpecificIP a r q = (Inr (IP_String (NormalizeIP t)), take_ip a (IP_String (NormalizeIP t)))"
proof -
  have "s < NormalizeIP t" by (rule list_less_take) (simp_all add: assms)
  moreover have "NormalizeIP t \<le> e" by (rule list_le_take) (simp_all add: assms)
  ultimately have "IPAllocatable q r" using IPAllocatable_iff [OF assms(1,2)] by simp
  with assms(1,8) show ?thesis by (simp add: AllocateSpecificIP_def held_def Let_def)
qed

end
