(* ===== verification/Service_Filter.thy ===== *)
theory Service_Filter
  imports Api_Types IP_Allocator
begin

text \<open>
  \<^verbatim>\<open>internal/controller/service_filter.go\<close>, with the fields of \<^verbatim>\<open>corev1.Service\<close> that the controller reads and
  writes.
\<close>

record Service =
  Svc_Name :: string
  Svc_Namespace :: string
  Annotations :: "(string \<times> string) list"
  Svc_Type :: string
  LoadBalancerClass :: "string option"
  LoadBalancerIP :: string
  Ingress :: "string list"

definition ServiceTypeLoadBalancer :: string where "ServiceTypeLoadBalancer = ''LoadBalancer''"

fun filter_services ::
  "(string \<times> bool) list \<Rightarrow> string \<Rightarrow> string list \<Rightarrow> Service list \<Rightarrow> Service list" where
  "filter_services nsAllowed ipRange ipv6Range [] = []"
| "filter_services nsAllowed ipRange ipv6Range (svc # services) =
     (let rest = filter_services nsAllowed ipRange ipv6Range services in
      if Svc_Type svc \<noteq> ServiceTypeLoadBalancer then rest
      else if (case LoadBalancerClass svc of None \<Rightarrow> False | Some c \<Rightarrow> c \<noteq> LoadBalancerClassHelios) then rest
      else if length nsAllowed > 0 \<and> \<not> map_bool (map_of nsAllowed) (Svc_Namespace svc) then rest
      else if length (Ingress svc) > 0 then rest
      else if LoadBalancerIP svc \<noteq> [] \<and>
        (let inV4 = IPAllocatable (LoadBalancerIP svc) ipRange;
             inV6 = (length ipv6Range > 0 \<and> ipv6Range ! 0 \<noteq> [] \<and> IPAllocatable (LoadBalancerIP svc) (ipv6Range ! 0))
         in \<not> inV4 \<and> \<not> inV6) then rest
      else svc # rest)"

definition FilterEligibleServices :: "Service list \<Rightarrow> string list \<Rightarrow> string \<Rightarrow> string list \<Rightarrow> Service list" where
  "FilterEligibleServices services namespaceSelector ipRange ipv6Range =
     (let nsAllowed = fold (\<lambda>ns m. map_set ns True m) namespaceSelector [] in
      filter_services nsAllowed ipRange ipv6Range services)"

lemma map_of_selector: "map_of (fold (\<lambda>ns m. map_set ns True m) sel m) k = (if k \<in> set sel then Some True else map_of m k)"
  by (induction sel arbitrary: m) auto

lemma selector_empty: "fold (\<lambda>ns m. map_set ns True m) sel m = [] \<longleftrightarrow> sel = [] \<and> m = []"
proof (induction sel arbitrary: m)
  case (Cons ns sel)
  have "map_set ns True m \<noteq> []" by (cases m) auto
  then show ?case by (simp add: Cons.IH)
qed simp

definition eligible :: "string list \<Rightarrow> string \<Rightarrow> string \<Rightarrow> Service \<Rightarrow> bool" where
  "eligible sel ipRange ipv6Range svc \<longleftrightarrow>
     Svc_Type svc = ServiceTypeLoadBalancer
   \<and> (LoadBalancerClass svc = None \<or> LoadBalancerClass svc = Some LoadBalancerClassHelios)
   \<and> (sel = [] \<or> Svc_Namespace svc \<in> set sel)
   \<and> Ingress svc = []
   \<and> (LoadBalancerIP svc = [] \<or> IPAllocatable (LoadBalancerIP svc) ipRange
        \<or> (ipv6Range \<noteq> [] \<and> IPAllocatable (LoadBalancerIP svc) ipv6Range))"

lemma FilterEligibleServices_filter:
  "FilterEligibleServices services sel ipRange [ipv6Range] = filter (eligible sel ipRange ipv6Range) services"
proof -
  let ?m = "fold (\<lambda>ns m. map_set ns True m) sel []"
  have m: "map_bool (map_of ?m) ns \<longleftrightarrow> ns \<in> set sel" for ns by (simp add: map_of_selector map_bool_def)
  have "filter_services ?m ipRange [ipv6Range] services = filter (eligible sel ipRange ipv6Range) services"
    by (induction services) (auto simp: eligible_def Let_def m selector_empty split: option.splits)
  then show ?thesis by (simp add: FilterEligibleServices_def)
qed

section \<open>Properties\<close>

text \<open>C21: the filter keeps, in their order, exactly the load balancer services without another class, in a selected
  namespace, without an address yet, whose requested address (if any) one of the two ranges can hand out.\<close>

theorem FilterEligibleServices_spec:
  "FilterEligibleServices services sel ipRange [ipv6Range] =
     [svc \<leftarrow> services. Svc_Type svc = ServiceTypeLoadBalancer
       \<and> (LoadBalancerClass svc = None \<or> LoadBalancerClass svc = Some LoadBalancerClassHelios)
       \<and> (sel = [] \<or> Svc_Namespace svc \<in> set sel) \<and> Ingress svc = []
       \<and> (LoadBalancerIP svc = [] \<or> IPAllocatable (LoadBalancerIP svc) ipRange
            \<or> (ipv6Range \<noteq> [] \<and> IPAllocatable (LoadBalancerIP svc) ipv6Range))]"
  unfolding FilterEligibleServices_filter eligible_def ..

end
