(* ===== verification/Controller_Errors.thy ===== *)
theory Controller_Errors
  imports IP_Allocator
begin

text \<open>
  \<^verbatim>\<open>internal/controller/errors.go\<close>: the two error kinds of the controller.  An error is a chain that ends in an
  error of the allocator, of the API client (of the type \<open>'x\<close>), or of the controller itself; \<open>Wrap\<close> is
  \<^verbatim>\<open>fmt.Errorf\<close> with \<^verbatim>\<open>%w\<close>.  \<^verbatim>\<open>errors.As\<close> walks the chain from the outside.
\<close>

datatype 'x error =
    RetryableError string "'x error"
  | PermanentError string "'x error"
  | Wrap string "'x error"
  | NetError net_error
  | ApiError 'x
  | QuotaReached nat i32

definition NewRetryableError :: "string \<Rightarrow> 'x error \<Rightarrow> 'x error" where
  "NewRetryableError reason err = RetryableError reason err"

definition NewPermanentError :: "string \<Rightarrow> 'x error \<Rightarrow> 'x error" where
  "NewPermanentError reason err = PermanentError reason err"

fun Unwrap :: "'x error \<Rightarrow> 'x error option" where
  "Unwrap (RetryableError reason err) = Some err"
| "Unwrap (PermanentError reason err) = Some err"
| "Unwrap (Wrap text err) = Some err"
| "Unwrap _ = None"

text \<open>The text of an error, given the texts of the errors at the end of a chain.\<close>

fun error_text :: "('x error \<Rightarrow> string) \<Rightarrow> 'x error \<Rightarrow> string" where
  "error_text leaf (RetryableError reason err) = reason @ '': '' @ error_text leaf err"
| "error_text leaf (PermanentError reason err) = reason @ '': '' @ error_text leaf err"
| "error_text leaf (Wrap text err) = text @ '': '' @ error_text leaf err"
| "error_text leaf e = leaf e"

lemma size_Unwrap: "Unwrap e = Some e' \<Longrightarrow> size e' < size e"
  by (cases e) auto

function as_chain :: "('x error \<Rightarrow> bool) \<Rightarrow> 'x error \<Rightarrow> bool" where
  "as_chain target e = (target e \<or> (case Unwrap e of None \<Rightarrow> False | Some e' \<Rightarrow> as_chain target e'))"
  by pat_completeness auto
termination
  by (relation "measure (size o snd)") (auto dest: size_Unwrap)

declare as_chain.simps [simp del]

definition is_RetryableError :: "'x error \<Rightarrow> bool" where
  "is_RetryableError e = (case e of RetryableError _ _ \<Rightarrow> True | _ \<Rightarrow> False)"

definition is_PermanentError :: "'x error \<Rightarrow> bool" where
  "is_PermanentError e = (case e of PermanentError _ _ \<Rightarrow> True | _ \<Rightarrow> False)"

definition IsRetryable :: "'x error option \<Rightarrow> bool" where
  "IsRetryable err = (case err of None \<Rightarrow> False | Some e \<Rightarrow> as_chain is_RetryableError e)"

definition IsPermanent :: "'x error option \<Rightarrow> bool" where
  "IsPermanent err = (case err of None \<Rightarrow> False | Some e \<Rightarrow> as_chain is_PermanentError e)"

section \<open>The errors of a chain\<close>

fun chain :: "'x error \<Rightarrow> 'x error list" where
  "chain (RetryableError reason err) = RetryableError reason err # chain err"
| "chain (PermanentError reason err) = PermanentError reason err # chain err"
| "chain (Wrap text err) = Wrap text err # chain err"
| "chain e = [e]"

lemma as_chain_iff: "as_chain target e \<longleftrightarrow> list_ex target (chain e)"
  by (induction e) (subst as_chain.simps, simp)+

section \<open>Properties\<close>

text \<open>An error counts as retryable exactly when its chain holds a retryable error, so wrapping it further keeps
  that; the two kinds do not exclude each other: a retryable error around a permanent one is both.\<close>

lemma IsRetryable_chain:
  "(IsRetryable (Some e) \<longleftrightarrow> list_ex is_RetryableError (chain e)) \<and>
   IsRetryable (Some (Wrap text (NewRetryableError reason e))) \<and>
   (IsPermanent (Some (NewRetryableError reason e)) \<longleftrightarrow> list_ex is_PermanentError (chain e)) \<and>
   IsPermanent (Some (NewRetryableError reason (NewPermanentError reason' e))) \<and> \<not> IsRetryable None \<and> \<not> IsPermanent None"
  by (simp add: IsRetryable_def IsPermanent_def as_chain_iff NewRetryableError_def NewPermanentError_def
      is_RetryableError_def is_PermanentError_def)

end
