(* ===== verification/IP_Manager.thy ===== *)
theory IP_Manager
  imports Service_Filter Controller_Errors Metrics
begin

text \<open>
  \<^verbatim>\<open>internal/controller/ip_manager.go\<close>: allocation, assignment, release, conflicts and quota.

  \<^item> The Kubernetes libraries are the record \<open>K8s\<close>, a parameter of the definitions: the client calls, which answer from
    and change a world \<open>'w\<close> (a read may change it too, so other actors may act between any two calls), the retry helper of
    client-go, and the helpers of apimachinery and controller-runtime that the code calls.  A call that updates an object
    answers with the object that the server stored, which replaces the caller's.
  \<^item> \<open>ctl\<close> is the state of the controller: the world, the \<^verbatim>\<open>NetworkManager\<close>, and the metric operations and events so far.
\<close>

section \<open>The libraries\<close>

type_synonym 'x config = "'x error HeliosConfig"

record ('w, 'x) K8s =
  get_config :: "'w \<Rightarrow> string \<times> string \<Rightarrow> ('x + 'x config) \<times> 'w"
  list_configs :: "'w \<Rightarrow> ('x + 'x config list) \<times> 'w"
  update_config :: "'w \<Rightarrow> 'x config \<Rightarrow> ('x + 'x config) \<times> 'w"
  update_config_status :: "'w \<Rightarrow> 'x config \<Rightarrow> ('x + 'x config) \<times> 'w"
  get_service :: "'w \<Rightarrow> string \<times> string \<Rightarrow> ('x + Service) \<times> 'w"
  list_services :: "'w \<Rightarrow> ('x + Service list) \<times> 'w"
  update_service :: "'w \<Rightarrow> Service \<Rightarrow> ('x + Service) \<times> 'w"
  update_service_status :: "'w \<Rightarrow> Service \<Rightarrow> ('x + Service) \<times> 'w"
  RetryOnConflict :: "('w \<Rightarrow> 'x option \<times> 'w) \<Rightarrow> 'w \<Rightarrow> 'x option \<times> 'w"
  IgnoreNotFound :: "'x \<Rightarrow> 'x option"
  SetStatusCondition :: "'x error Condition list \<Rightarrow> 'x error Condition \<Rightarrow> 'x error Condition list"
  ContainsFinalizer :: "string list \<Rightarrow> string \<Rightarrow> bool"
  AddFinalizer :: "string list \<Rightarrow> string \<Rightarrow> string list"
  RemoveFinalizer :: "string list \<Rightarrow> string \<Rightarrow> string list"
  Time_IsZero :: "nat option \<Rightarrow> bool"

datatype 'x event =
    IPConflict nat
  | QuotaExceeded nat i32
  | AllocationFailed string string "'x error"
  | DualStackAllocated string string string string
  | IPAllocated string string string
  | CleanupStarted nat
  | CleanupFailed "'x error"
  | CleanupComplete

record ('w, 'x) ctl =
  world :: 'w
  net :: NetworkManager
  metrics :: "metric_op list"
  events :: "'x event list"

section \<open>Allocation and assignment\<close>

definition splitRequestedIP :: "string \<Rightarrow> string \<times> string" where
  "splitRequestedIP requested =
     (let trimmed = TrimSpace requested in
      case ParseIP trimmed of
        None \<Rightarrow> ([], [])
      | Some a \<Rightarrow> if To4 a \<noteq> [] then (trimmed, []) else ([], trimmed))"

definition allocateIP :: "NetworkManager \<Rightarrow> string \<Rightarrow> string \<Rightarrow> (net_error + string) \<times> NetworkManager" where
  "allocateIP m ipRange requested =
     (if requested = [] then nm_AllocateIP m ipRange else nm_AllocateSpecificIP m ipRange requested)"

definition same_config :: "'e HeliosConfig \<Rightarrow> 'e HeliosConfig \<Rightarrow> bool" where
  "same_config other hc \<longleftrightarrow> Name (Meta other) = Name (Meta hc) \<and> Namespace (Meta other) = Namespace (Meta hc)"

definition mark_ips :: "(string \<times> string) list \<Rightarrow> NetworkManager \<Rightarrow> NetworkManager" where
  "mark_ips ips m = fold (\<lambda>(svc, x) m. nm_MarkUsed m x) ips m"

definition mark_others :: "'e HeliosConfig \<Rightarrow> 'e HeliosConfig list \<Rightarrow> NetworkManager \<Rightarrow> NetworkManager" where
  "mark_others hc items m =
     fold (\<lambda>other m. if same_config other hc then m
        else mark_ips (AllocatedIPv6s (Status other)) (mark_ips (AllocatedIPs (Status other)) m)) items m"

definition assign_once ::
  "('w, 'x) K8s \<Rightarrow> Service \<Rightarrow> string \<Rightarrow> string \<Rightarrow> 'w \<Rightarrow> 'x option \<times> 'w" where
  "assign_once k svc x ipv6 w =
     (case get_service k w (Svc_Namespace svc, Svc_Name svc) of
        (Inl err, w1) \<Rightarrow> (Some err, w1)
      | (Inr currentSvc, w1) \<Rightarrow>
          let currentSvc' = currentSvc\<lparr>
                Annotations := map_set ''balancer.helios.dev/load-balancer-class'' LoadBalancerClassHelios (Annotations currentSvc),
                LoadBalancerClass := Some LoadBalancerClassHelios,
                Ingress := (if ipv6 \<noteq> [] then [x, ipv6] else [x])\<rparr>
          in (case update_service_status k w1 currentSvc' of
                (Inl err, w2) \<Rightarrow> (Some err, w2)
              | (Inr stored, w2) \<Rightarrow>
                  (case update_service k w2 stored of
                     (Inl err, w3) \<Rightarrow> (Some err, w3)
                   | (Inr _, w3) \<Rightarrow> (None, w3))))"

definition assignIPToService ::
  "('w, 'x) K8s \<Rightarrow> Service \<Rightarrow> string \<Rightarrow> string \<Rightarrow> 'w \<Rightarrow> 'x option \<times> 'w" where
  "assignIPToService k svc x ipv6 w = RetryOnConflict k (assign_once k svc x ipv6) w"

text \<open>The IPv6 part of an allocation: an empty address when the configuration has no IPv6 range.\<close>

definition allocate_v6 :: "NetworkManager \<Rightarrow> string \<Rightarrow> string \<Rightarrow> (net_error + string) \<times> NetworkManager" where
  "allocate_v6 m ipv6Range requested =
     (if ipv6Range \<noteq> [] then allocateIP m ipv6Range requested else (Inr [], m))"

definition AllocateAndAssign ::
  "('w, 'x) K8s \<Rightarrow> 'x config \<Rightarrow> Service \<Rightarrow> ('w, 'x) ctl \<Rightarrow> ('x error + string \<times> string) \<times> ('w, 'x) ctl" where
  "AllocateAndAssign k hc svc s =
     (case list_configs k (world s) of
        (Inl err, w) \<Rightarrow> (Inl (NewRetryableError ''failed to list configs for conflict check'' (ApiError err)), s\<lparr>world := w\<rparr>)
      | (Inr allConfigs, w) \<Rightarrow>
          let m0 = mark_others hc allConfigs (net s);
              (requestedV4, requestedV6) = splitRequestedIP (LoadBalancerIP svc)
          in (case allocateIP m0 (IPRange (Spec hc)) requestedV4 of
                (Inl err, m1) \<Rightarrow>
                  (Inl (NewRetryableError ''IPv4 allocation failed'' (NetError err)), s\<lparr>world := w, net := m1\<rparr>)
              | (Inr x, m1) \<Rightarrow>
                  (case allocate_v6 m1 (IPv6Range (Spec hc)) requestedV6 of
                     (Inl err, m2) \<Rightarrow>
                       (Inl (NewRetryableError ''IPv6 allocation failed'' (NetError err)),
                        s\<lparr>world := w, net := nm_ReleaseIP m2 x\<rparr>)
                   | (Inr ipv6, m2) \<Rightarrow>
                       (case assignIPToService k svc x ipv6 w of
                          (Some err, w') \<Rightarrow>
                            (Inl (NewRetryableError ''service update failed'' (ApiError err)),
                             s\<lparr>world := w',
                               net := (if ipv6 \<noteq> [] then nm_ReleaseIP (nm_ReleaseIP m2 x) ipv6 else nm_ReleaseIP m2 x)\<rparr>)
                        | (None, w') \<Rightarrow>
                            (Inr (x, ipv6),
                             s\<lparr>world := w', net := m2,
                               metrics := metrics s @ RecordIPAllocation x True @
                                 (if ipv6 \<noteq> [] then RecordIPAllocation ipv6 True else [])\<rparr>)))))"

section \<open>Release, conflicts and quota\<close>

definition release_ips ::
  "(string \<times> string) list \<Rightarrow> (string \<times> bool) list \<times> ('w, 'x) ctl \<Rightarrow> (string \<times> bool) list \<times> ('w, 'x) ctl" where
  "release_ips ips acc =
     fold (\<lambda>(serviceName, x) (names, s).
       (map_set serviceName True names,
        s\<lparr>net := nm_ReleaseIP (net s) x, metrics := metrics s @ RecordIPAllocation x False\<rparr>)) ips acc"

definition clear_ingress :: "('w, 'x) K8s \<Rightarrow> string \<Rightarrow> string \<Rightarrow> 'w \<Rightarrow> 'w" where
  "clear_ingress k ns serviceName w =
     (case get_service k w (ns, serviceName) of
        (Inl _, w1) \<Rightarrow> w1
      | (Inr svc, w1) \<Rightarrow> snd (update_service_status k w1 (svc\<lparr>Ingress := []\<rparr>)))"

definition ReleaseAll :: "('w, 'x) K8s \<Rightarrow> 'x config \<Rightarrow> ('w, 'x) ctl \<Rightarrow> ('w, 'x) ctl" where
  "ReleaseAll k hc s =
     (let (serviceNames, s1) = release_ips (AllocatedIPv6s (Status hc)) (release_ips (AllocatedIPs (Status hc)) ([], s))
      in s1\<lparr>world := fold (\<lambda>(serviceName, _). clear_ingress k (Namespace (Meta hc)) serviceName) serviceNames (world s1)\<rparr>)"

definition conflict_owner :: "'e HeliosConfig \<Rightarrow> string \<Rightarrow> string \<Rightarrow> string" where
  "conflict_owner other svcName suffix =
     Namespace (Meta other) @ ''/'' @ Name (Meta other) @ '' (svc: '' @ svcName @ suffix @ '')''"

definition conflicts_in ::
  "string \<Rightarrow> 'e HeliosConfig \<Rightarrow> string \<Rightarrow> (string \<times> string) list \<Rightarrow> (string \<times> string) list \<Rightarrow> (string \<times> string) list" where
  "conflicts_in ipRange other suffix ips conflicts =
     fold (\<lambda>(svcName, x) c. if IPInRange x ipRange then map_set x (conflict_owner other svcName suffix) c else c) ips conflicts"

definition collect_conflicts :: "'e HeliosConfig \<Rightarrow> 'e HeliosConfig list \<Rightarrow> (string \<times> string) list" where
  "collect_conflicts hc items =
     fold (\<lambda>other c.
       if same_config other hc then c
       else let c4 = conflicts_in (IPRange (Spec hc)) other [] (AllocatedIPs (Status other)) c
            in if IPv6Range (Spec hc) \<noteq> []
               then conflicts_in (IPv6Range (Spec hc)) other '', ipv6'' (AllocatedIPv6s (Status other)) c4
               else c4) items []"

definition CheckIPConflicts ::
  "('w, 'x) K8s \<Rightarrow> 'x config \<Rightarrow> ('w, 'x) ctl \<Rightarrow> ('x error + (string \<times> string) list) \<times> ('w, 'x) ctl" where
  "CheckIPConflicts k hc s =
     (case list_configs k (world s) of
        (Inl err, w) \<Rightarrow> (Inl (Wrap ''failed to list HeliosConfigs'' (ApiError err)), s\<lparr>world := w\<rparr>)
      | (Inr allConfigs, w) \<Rightarrow> (Inr (collect_conflicts hc allConfigs), s\<lparr>world := w\<rparr>))"

definition CheckQuota :: "'x config \<Rightarrow> 'x error option" where
  "CheckQuota hc =
     (let n = length (AllocatedIPs (Status hc)); limit = MaxAllocations (Spec hc) in
      if 0 <s limit \<and> limit \<le>s of_nat n then Some (QuotaReached n limit) else None)"

section \<open>What the operations do to the pool\<close>

abbreviation nm_held :: "NetworkManager \<Rightarrow> string set" where
  "nm_held m \<equiv> held (ipAllocator m)"

lemma allocateIP_Inl: "allocateIP m r q = (Inl err, m') \<Longrightarrow> m' = m"
  by (auto simp: allocateIP_def dest: nm.alloc_fail nm.specific_fail split: if_splits)

lemma allocateIP_Inr: "allocateIP m r q = (Inr x, m') \<Longrightarrow> nm_held m' = insert x (nm_held m)"
  by (auto simp: allocateIP_def dest: nm.alloc_takes nm.specific_takes split: if_splits)

lemma allocateIP_fresh: "allocateIP m r q = (Inr x, m') \<Longrightarrow> \<not> single_range r \<Longrightarrow> x \<notin> nm_held m"
  by (auto simp: allocateIP_def dest: nm.alloc_fresh nm.specific_fresh split: if_splits)

lemma allocate_v6_Inl: "allocate_v6 m r q = (Inl err, m') \<Longrightarrow> m' = m"
  by (auto simp: allocate_v6_def dest: allocateIP_Inl split: if_splits)

definition v6_set :: "string \<Rightarrow> string set" where
  "v6_set ipv6 = (if ipv6 = [] then {} else {ipv6})"

lemma allocateIP_nonempty: "allocateIP m r q = (Inr x, m') \<Longrightarrow> x \<noteq> []"
  by (auto simp: allocateIP_def nm_AllocateIP_def nm_AllocateSpecificIP_def IP_String_nonempty
      dest!: AllocateIP_string AllocateSpecificIP_string split: if_splits prod.splits)

lemma allocate_v6_Inr:
  assumes "allocate_v6 m r q = (Inr ipv6, m')"
  shows "nm_held m' = nm_held m \<union> v6_set ipv6" "ipv6 \<noteq> [] \<longleftrightarrow> r \<noteq> []"
  using assms by (auto simp: allocate_v6_def v6_set_def dest: allocateIP_Inr allocateIP_nonempty split: if_splits)

lemma allocate_v6_fresh: "allocate_v6 m r q = (Inr ipv6, m') \<Longrightarrow> \<not> single_range r \<Longrightarrow> v6_set ipv6 \<inter> nm_held m = {}"
  by (auto simp: allocate_v6_def v6_set_def dest: allocateIP_fresh split: if_splits)

definition status_ips :: "'e HeliosConfig \<Rightarrow> string set" where
  "status_ips c = snd ` set (AllocatedIPs (Status c)) \<union> snd ` set (AllocatedIPv6s (Status c))"

definition others_ips :: "'e HeliosConfig \<Rightarrow> 'e HeliosConfig list \<Rightarrow> string set" where
  "others_ips hc items = (\<Union>c \<in> {c \<in> set items. \<not> same_config c hc}. status_ips c)"

lemma held_mark_ips: "nm_held (mark_ips ips m) = nm_held m \<union> snd ` set ips"
  unfolding mark_ips_def
  by (induction ips arbitrary: m) (auto simp: nm.mark_takes split: prod.splits)

lemma held_mark_others: "nm_held (mark_others hc items m) = nm_held m \<union> others_ips hc items"
  unfolding mark_others_def
proof (induction items arbitrary: m)
  case (Cons c items)
  show ?case
    by (cases "same_config c hc") (auto simp: Cons.IH others_ips_def status_ips_def held_mark_ips)
qed (simp add: others_ips_def)

text \<open>An allocation that went through, and one that was rolled back.\<close>

lemma release_both: "nm_held (if ipv6 \<noteq> [] then nm_ReleaseIP (nm_ReleaseIP m x) ipv6 else nm_ReleaseIP m x) = nm_held m - {x} - v6_set ipv6"
  by (simp add: nm.release_frees v6_set_def)

text \<open>The five ways through \<^verbatim>\<open>AllocateAndAssign\<close> once the configurations are listed.\<close>

lemma AllocateAndAssign_cases:
  assumes "list_configs k (world s) = (Inr items, w)"
  obtains (v4_fails) err where
      "AllocateAndAssign k hc svc s =
         (Inl (NewRetryableError ''IPv4 allocation failed'' (NetError err)), s\<lparr>world := w, net := mark_others hc items (net s)\<rparr>)"
  | (v6_fails) x m1 err where
      "allocateIP (mark_others hc items (net s)) (IPRange (Spec hc)) (fst (splitRequestedIP (LoadBalancerIP svc))) = (Inr x, m1)"
      "AllocateAndAssign k hc svc s =
         (Inl (NewRetryableError ''IPv6 allocation failed'' (NetError err)), s\<lparr>world := w, net := nm_ReleaseIP m1 x\<rparr>)"
  | (assign_fails) x m1 ipv6 m2 err w' where
      "allocateIP (mark_others hc items (net s)) (IPRange (Spec hc)) (fst (splitRequestedIP (LoadBalancerIP svc))) = (Inr x, m1)"
      "allocate_v6 m1 (IPv6Range (Spec hc)) (snd (splitRequestedIP (LoadBalancerIP svc))) = (Inr ipv6, m2)"
      "assignIPToService k svc x ipv6 w = (Some err, w')"
      "AllocateAndAssign k hc svc s = (Inl (NewRetryableError ''service update failed'' (ApiError err)),
         s\<lparr>world := w', net := (if ipv6 \<noteq> [] then nm_ReleaseIP (nm_ReleaseIP m2 x) ipv6 else nm_ReleaseIP m2 x)\<rparr>)"
  | (assigned) x m1 ipv6 m2 w' where
      "allocateIP (mark_others hc items (net s)) (IPRange (Spec hc)) (fst (splitRequestedIP (LoadBalancerIP svc))) = (Inr x, m1)"
      "allocate_v6 m1 (IPv6Range (Spec hc)) (snd (splitRequestedIP (LoadBalancerIP svc))) = (Inr ipv6, m2)"
      "assignIPToService k svc x ipv6 w = (None, w')"
      "AllocateAndAssign k hc svc s = (Inr (x, ipv6), s\<lparr>world := w', net := m2,
         metrics := metrics s @ RecordIPAllocation x True @ (if ipv6 \<noteq> [] then RecordIPAllocation ipv6 True else [])\<rparr>)"
proof -
  let ?m0 = "mark_others hc items (net s)" and ?q = "splitRequestedIP (LoadBalancerIP svc)"
  obtain r4 m1 where a4: "allocateIP ?m0 (IPRange (Spec hc)) (fst ?q) = (r4, m1)" by fastforce
  show thesis
  proof (cases r4)
    case (Inl err)
    with a4 allocateIP_Inl [of ?m0 "IPRange (Spec hc)" "fst ?q" err m1] assms show thesis
      by (intro v4_fails [of err]) (simp add: AllocateAndAssign_def split_beta Let_def)
  next
    case (Inr x)
    obtain r6 m2 where a6: "allocate_v6 m1 (IPv6Range (Spec hc)) (snd ?q) = (r6, m2)" by fastforce
    show thesis
    proof (cases r6)
      case err: (Inl err)
      with a4 Inr a6 allocate_v6_Inl [of m1 "IPv6Range (Spec hc)" "snd ?q" err m2] assms show thesis
        by (intro v6_fails [of x m1 err]) (simp_all add: AllocateAndAssign_def split_beta Let_def)
    next
      case ipv6: (Inr ipv6)
      obtain e w' where asg: "assignIPToService k svc x ipv6 w = (e, w')" by fastforce
      show thesis
      proof (cases e)
        case None
        with a4 Inr a6 ipv6 asg assms show thesis
          by (intro assigned [of x m1 ipv6 m2 w']) (simp_all add: AllocateAndAssign_def split_beta Let_def)
      next
        case (Some err)
        with a4 Inr a6 ipv6 asg assms show thesis
          by (intro assign_fails [of x m1 ipv6 m2 err w']) (simp_all add: AllocateAndAssign_def split_beta Let_def)
      qed
    qed
  qed
qed

section \<open>Release, conflicts and quota\<close>

lemma held_release_ips: "nm_held (net (snd (release_ips ips (names, s)))) = nm_held (net s) - snd ` set ips"
  unfolding release_ips_def
  by (induction ips arbitrary: names s) (auto simp: nm.release_frees split: prod.splits)

lemma release_ips_pair: "release_ips ips acc = release_ips ips (fst acc, snd acc)"
  by simp

lemma held_ReleaseAll: "nm_held (net (ReleaseAll k hc s)) = nm_held (net s) - status_ips hc"
proof -
  let ?r = "release_ips (AllocatedIPs (Status hc)) ([], s)"
  have "nm_held (net (ReleaseAll k hc s)) = nm_held (net (snd (release_ips (AllocatedIPv6s (Status hc)) (fst ?r, snd ?r))))"
    by (simp add: ReleaseAll_def split_beta Let_def)
  also have "\<dots> = nm_held (net s) - status_ips hc"
    unfolding held_release_ips by (auto simp: status_ips_def)
  finally show ?thesis .
qed

lemma conflicts_in_keys:
  "fst ` set (conflicts_in r other suffix ips c) = fst ` set c \<union> {x \<in> snd ` set ips. IPInRange x r}"
  unfolding conflicts_in_def
proof (induction ips arbitrary: c)
  case (Cons p ips)
  obtain svc x where p: "p = (svc, x)" by (cases p)
  show ?case unfolding fold_Cons comp_def Cons.IH p by (auto simp: dom_map_set)
qed simp

definition conflicting :: "'e HeliosConfig \<Rightarrow> 'e HeliosConfig \<Rightarrow> string set" where
  "conflicting hc other =
     (if same_config other hc then {}
      else {x \<in> snd ` set (AllocatedIPs (Status other)). IPInRange x (IPRange (Spec hc))} \<union>
        {x \<in> snd ` set (AllocatedIPv6s (Status other)). IPv6Range (Spec hc) \<noteq> [] \<and> IPInRange x (IPv6Range (Spec hc))})"

lemma collect_conflicts_keys: "fst ` set (collect_conflicts hc items) = (\<Union>other \<in> set items. conflicting hc other)"
proof -
  have "fst ` set (fold (\<lambda>other c. if same_config other hc then c
       else let c4 = conflicts_in (IPRange (Spec hc)) other [] (AllocatedIPs (Status other)) c
            in if IPv6Range (Spec hc) \<noteq> []
               then conflicts_in (IPv6Range (Spec hc)) other '', ipv6'' (AllocatedIPv6s (Status other)) c4
               else c4) items c) = fst ` set c \<union> (\<Union>other \<in> set items. conflicting hc other)" for c
  proof (induction items arbitrary: c)
    case (Cons other items)
    show ?case
      unfolding fold_Cons comp_def Cons.IH by (auto simp: conflicting_def Let_def conflicts_in_keys)
  qed simp
  from this [of "[]"] show ?thesis unfolding collect_conflicts_def by simp
qed

lemma sint_of_nat_i32: "n < 2 ^ 31 \<Longrightarrow> sint (of_nat n :: i32) = int n"
  by (simp add: signed_of_nat signed_take_bit_int_eq_self)

lemma CheckQuota_None:
  "length (AllocatedIPs (Status hc)) < 2 ^ 31 \<Longrightarrow> CheckQuota hc = None \<longleftrightarrow>
     sint (MaxAllocations (Spec hc)) \<le> 0 \<or> int (length (AllocatedIPs (Status hc))) < sint (MaxAllocations (Spec hc))"
  by (auto simp: CheckQuota_def Let_def word_sless_alt word_sle_eq sint_of_nat_i32)

section \<open>Requested addresses\<close>

lemma splitRequestedIP_4: "ParseIP (TrimSpace q) = Some t \<Longrightarrow> To4 t \<noteq> [] \<Longrightarrow> splitRequestedIP q = (TrimSpace q, [])"
  and splitRequestedIP_6: "ParseIP (TrimSpace q) = Some t \<Longrightarrow> To4 t = [] \<Longrightarrow> splitRequestedIP q = ([], TrimSpace q)"
  and splitRequestedIP_Nil: "splitRequestedIP [] = ([], [])"
  by (simp_all add: splitRequestedIP_def ParseIP_Nil)

lemma allocateIP_requested:
  assumes "allocateIP m r (TrimSpace q) = (Inr x, m')" "ParseIP (TrimSpace q) = Some t"
  shows "ParseIP x = Some t"
proof -
  have "TrimSpace q \<noteq> []" using assms(2) by (auto simp: ParseIP_Nil)
  with assms show ?thesis
    by (auto simp: allocateIP_def nm_AllocateSpecificIP_def dest!: AllocateSpecificIP_string split: prod.splits)
qed

section \<open>A concrete client\<close>

text \<open>A server with a list of configurations and a list of services, on which the properties are evaluated.  With
  \<open>broken\<close> every update of a service fails.\<close>

type_synonym demo_world = "string config list \<times> Service list"

definition demo_k8s :: "bool \<Rightarrow> (demo_world, string) K8s" where
  "demo_k8s broken =
     \<lparr>get_config = (\<lambda>w key. (case find (\<lambda>c. (Namespace (Meta c), Name (Meta c)) = key) (fst w) of
         Some c \<Rightarrow> Inr c | None \<Rightarrow> Inl ''not found'', w)),
      list_configs = (\<lambda>w. (Inr (fst w), w)),
      update_config = (\<lambda>w c. (Inr c, (map (\<lambda>d. if same_config d c then c else d) (fst w), snd w))),
      update_config_status = (\<lambda>w c. (Inr c, (map (\<lambda>d. if same_config d c then c else d) (fst w), snd w))),
      get_service = (\<lambda>w key. (case find (\<lambda>s. (Svc_Namespace s, Svc_Name s) = key) (snd w) of
         Some s \<Rightarrow> Inr s | None \<Rightarrow> Inl ''not found'', w)),
      list_services = (\<lambda>w. (Inr (snd w), w)),
      update_service = (\<lambda>w s. if broken then (Inl ''conflict'', w) else (Inr s, (fst w,
         map (\<lambda>d. if Svc_Namespace d = Svc_Namespace s \<and> Svc_Name d = Svc_Name s then s else d) (snd w)))),
      update_service_status = (\<lambda>w s. (Inr s, (fst w,
         map (\<lambda>d. if Svc_Namespace d = Svc_Namespace s \<and> Svc_Name d = Svc_Name s then s else d) (snd w)))),
      RetryOnConflict = (\<lambda>f w. f w),
      IgnoreNotFound = (\<lambda>e. if e = ''not found'' then None else Some e),
      SetStatusCondition = (\<lambda>cs c. c # filter (\<lambda>d. Cond_Type d \<noteq> Cond_Type c) cs),
      ContainsFinalizer = (\<lambda>fs f. f \<in> set fs),
      AddFinalizer = (\<lambda>fs f. fs @ [f]),
      RemoveFinalizer = (\<lambda>fs f. filter (\<lambda>g. g \<noteq> f) fs),
      Time_IsZero = (\<lambda>t. t = None)\<rparr>"

definition demo_service :: "string \<Rightarrow> string \<Rightarrow> Service" where
  "demo_service nm lbip = \<lparr>Svc_Name = nm, Svc_Namespace = ''default'', Annotations = [], Svc_Type = ServiceTypeLoadBalancer,
     LoadBalancerClass = None, LoadBalancerIP = lbip, Ingress = []\<rparr>"

definition demo_config :: "string \<Rightarrow> string \<Rightarrow> string \<Rightarrow> (string \<times> string) list \<Rightarrow> string config" where
  "demo_config nm r r6 ips =
     \<lparr>Meta = \<lparr>Name = nm, Namespace = ''default'', Generation = 1, DeletionTimestamp = None, Finalizers = []\<rparr>,
      Spec = \<lparr>IPRange = r, IPv6Range = r6, Spec_Service = [], Spec_Protocol = [], Ports = [], Spec_Method = [],
        Weights = [], HealthCheck = None, NamespaceSelector = [], MaxAllocations = 1\<rparr>,
      Status = \<lparr>AllocatedIPs = ips, AllocatedIPv6s = [], State = [], Message = MsgText [], Conditions = [], Phase = []\<rparr>\<rparr>"

definition demo_ctl :: "string config list \<Rightarrow> Service list \<Rightarrow> NetworkManager \<Rightarrow> (demo_world, string) ctl" where
  "demo_ctl cs ss m = \<lparr>world = (cs, ss), net = m, metrics = [], events = []\<rparr>"

lemmas demo_defs = demo_k8s_def demo_service_def demo_config_def demo_ctl_def

lemma demo_list: "list_configs (demo_k8s b) (world (demo_ctl cs ss m)) = (Inr cs, (cs, ss))"
  by (simp add: demo_k8s_def demo_ctl_def)

lemma single_examples: "\<not> single_range ''10.0.0.0/29''" "\<not> single_range []"
  by (simp_all add: single_range_def range_10_29 IP_Equal_def ParseIPRange_empty)

lemma maxScan_new [simp]: "maxScan NewIPAllocator = 65536"
  by (simp add: NewIPAllocator_def defaultMaxScan_def)

lemma first_of_10_29:
  assumes "''10.0.0.1'' \<notin> held a" "0 < maxScan a"
  shows "AllocateIP a ''10.0.0.0/29'' = (Inr ''10.0.0.1'', take_ip a ''10.0.0.1'')"
proof -
  have "IP_String [10, 0, 0, 1] = ''10.0.0.1''" by (simp add: go_eval)
  then show ?thesis using AllocateIP_first [OF range_10_29, of a] assms by simp
qed

lemma range_fd00: "ParseIPRange ''fd00::/120'' = Inr (253 # replicate 15 0, 253 # replicate 14 0 @ [255])"
  by (simp add: go_eval)

lemma trim_fd00_5: "TrimSpace ''fd00::5'' = ''fd00::5''"
  by (simp add: plain_char_def)

lemma parse_fd00_5: "ParseIP ''fd00::5'' = Some (253 # replicate 14 0 @ [5])"
  by (simp add: go_eval)

lemma allocatable_fd00_5: "IPAllocatable ''fd00::5'' ''fd00::/120''"
proof -
  have n: "NormalizeIP (253 # replicate 14 0 @ [5]) = 253 # replicate 14 0 @ [5]" by (simp add: go_eval)
  show ?thesis
    using IPAllocatable_iff [of "''fd00::5''", unfolded trim_fd00_5, OF parse_fd00_5 range_fd00] unfolding n
    by (simp add: replicate_numeral_eval)
qed

lemma nm_AllocateIP_new:
  "nm_AllocateIP NewNetworkManager ''10.0.0.0/29'' = (Inr ''10.0.0.1'', \<lparr>ipAllocator = take_ip NewIPAllocator ''10.0.0.1''\<rparr>)"
  by (simp add: nm_AllocateIP_def NewNetworkManager_def first_of_10_29)

lemma demo_allocate:
  "fst (AllocateAndAssign (demo_k8s False) (demo_config ''a'' ''10.0.0.0/29'' [] ips) (demo_service ''web'' [])
     (demo_ctl [demo_config ''a'' ''10.0.0.0/29'' [] ips] [demo_service ''web'' []] NewNetworkManager)) = Inr (''10.0.0.1'', [])"
  by (simp add: AllocateAndAssign_def demo_list mark_others_def same_config_def splitRequestedIP_Nil allocateIP_def
      allocate_v6_def nm_AllocateIP_new assignIPToService_def assign_once_def demo_defs)

lemma allocate_v6_none: "allocate_v6 m [] q = (Inr [], m)"
  by (simp add: allocate_v6_def)

lemma others_ips_simps [simp]:
  "others_ips hc [] = {}"
  "others_ips hc (c # cs) = (if same_config c hc then {} else status_ips c) \<union> others_ips hc cs"
  by (auto simp: others_ips_def)

section \<open>Properties\<close>

text \<open>C2: a successful \<^verbatim>\<open>AllocateAndAssign\<close> on ranges of more than one address hands out addresses that were not in use and
  that no other configuration records in its status; afterwards the pool holds these, the recorded ones and what it held
  before, and nothing else.\<close>

theorem AllocateAndAssign_grants:
  assumes "AllocateAndAssign k hc svc s = (Inr (x, ipv6), s')" "list_configs k (world s) = (Inr items, w)"
    "\<not> single_range (IPRange (Spec hc))" "\<not> single_range (IPv6Range (Spec hc))"
  shows "x \<notin> held (ipAllocator (net s)) \<union> others_ips hc items
    \<and> v6_set ipv6 \<inter> (held (ipAllocator (net s)) \<union> others_ips hc items \<union> {x}) = {}
    \<and> held (ipAllocator (net s')) = held (ipAllocator (net s)) \<union> others_ips hc items \<union> {x} \<union> v6_set ipv6
    \<and> (ipv6 = [] \<longleftrightarrow> IPv6Range (Spec hc) = [])"
  using assms(2)
proof (cases rule: AllocateAndAssign_cases [where hc = hc and svc = svc])
  case (assigned y m1 z m2 w')
  then have xy: "y = x" "z = ipv6" "net s' = m2" using assms(1) by auto
  note a4 = assigned(1) [unfolded xy] and a6 = assigned(2) [unfolded xy]
  show ?thesis
    using allocateIP_Inr [OF a4] allocateIP_fresh [OF a4 assms(3)] allocate_v6_Inr [OF a6] allocate_v6_fresh [OF a6 assms(4)] xy(3)
    by (auto simp: held_mark_others)
qed (use assms(1) in auto)

theorem AllocateAndAssign_grants_witness:
  "''10.0.0.1'' \<notin> others_ips (demo_config ''a'' ''10.0.0.0/29'' [] []) [demo_config ''a'' ''10.0.0.0/29'' [] []]
   \<and> fst (AllocateAndAssign (demo_k8s False) (demo_config ''a'' ''10.0.0.0/29'' [] []) (demo_service ''web'' [])
     (demo_ctl [demo_config ''a'' ''10.0.0.0/29'' [] []] [demo_service ''web'' []] NewNetworkManager)) = Inr (''10.0.0.1'', [])"
proof -
  let ?c = "demo_config ''a'' ''10.0.0.0/29'' [] []"
  let ?run = "AllocateAndAssign (demo_k8s False) ?c (demo_service ''web'' []) (demo_ctl [?c] [demo_service ''web'' []] NewNetworkManager)"
  have "?run = (Inr (''10.0.0.1'', []), snd ?run)" using demo_allocate [of "[]"] by (metis prod.collapse)
  from AllocateAndAssign_grants [OF this demo_list] show ?thesis
    using single_examples demo_allocate [of "[]"] by (simp add: demo_config_def)
qed

text \<open>C3: a failed \<^verbatim>\<open>AllocateAndAssign\<close> is rolled back: on ranges of more than one address the pool holds what it held before
  and the addresses that the other configurations record; no metric was written, and the error is retryable.  This is about the
  failures after the other configurations were listed; when listing them fails, pool and metrics are left alone (lemma
  \<open>AllocateAndAssign_list_fails\<close> of the theory \<open>Reconciler\<close>).\<close>

theorem AllocateAndAssign_rolls_back:
  assumes "AllocateAndAssign k hc svc s = (Inl err, s')" "list_configs k (world s) = (Inr items, w)"
    "\<not> single_range (IPRange (Spec hc))" "\<not> single_range (IPv6Range (Spec hc))"
  shows "held (ipAllocator (net s')) = held (ipAllocator (net s)) \<union> others_ips hc items
    \<and> metrics s' = metrics s \<and> IsRetryable (Some err)"
  using assms(2)
proof (cases rule: AllocateAndAssign_cases [where hc = hc and svc = svc])
  case (v4_fails e)
  then show ?thesis
    using assms(1) by (auto simp: held_mark_others IsRetryable_def as_chain_iff NewRetryableError_def is_RetryableError_def)
next
  case (v6_fails x m1 e)
  then show ?thesis
    using assms(1) allocateIP_Inr [OF v6_fails(1)] allocateIP_fresh [OF v6_fails(1) assms(3)]
    by (auto simp: nm.release_frees held_mark_others IsRetryable_def as_chain_iff NewRetryableError_def is_RetryableError_def)
next
  case (assign_fails x m1 ipv6 m2 e w')
  have "nm_held m2 - {x} - v6_set ipv6 = nm_held (mark_others hc items (net s))"
    using allocateIP_Inr [OF assign_fails(1)] allocateIP_fresh [OF assign_fails(1) assms(3)]
      allocate_v6_Inr(1) [OF assign_fails(2)] allocate_v6_fresh [OF assign_fails(2) assms(4)] by auto
  with assign_fails(4) assms(1) show ?thesis
    by (auto simp: release_both held_mark_others IsRetryable_def as_chain_iff
        NewRetryableError_def is_RetryableError_def simp del: if_split)
qed (use assms(1) in auto)

theorem AllocateAndAssign_rolls_back_witness:
  "held (ipAllocator (net (snd (AllocateAndAssign (demo_k8s True) (demo_config ''a'' ''10.0.0.0/29'' [] []) (demo_service ''web'' [])
     (demo_ctl [demo_config ''a'' ''10.0.0.0/29'' [] [], demo_config ''b'' ''10.0.1.0/29'' [] [(''db'', ''10.0.1.1'')]]
        [demo_service ''web'' []] NewNetworkManager))))) = {''10.0.1.1''}"
proof -
  let ?c = "demo_config ''a'' ''10.0.0.0/29'' [] []" and ?b = "demo_config ''b'' ''10.0.1.0/29'' [] [(''db'', ''10.0.1.1'')]"
  let ?s = "demo_ctl [?c, ?b] [demo_service ''web'' []] NewNetworkManager"
  let ?run = "AllocateAndAssign (demo_k8s True) ?c (demo_service ''web'' []) ?s"
  have alloc: "nm_AllocateIP (nm_MarkUsed NewNetworkManager ''10.0.1.1'') ''10.0.0.0/29'' =
      (Inr ''10.0.0.1'', \<lparr>ipAllocator = take_ip (MarkUsed NewIPAllocator ''10.0.1.1'') ''10.0.0.1''\<rparr>)"
    by (simp add: nm_AllocateIP_def nm_MarkUsed_def NewNetworkManager_def first_of_10_29)
  have "\<exists>err. fst ?run = Inl err"
    by (simp add: AllocateAndAssign_def demo_list mark_others_def mark_ips_def same_config_def splitRequestedIP_Nil
        allocateIP_def allocate_v6_def alloc assignIPToService_def assign_once_def demo_defs)
  then obtain err where run: "?run = (Inl err, snd ?run)" by (metis prod.collapse)
  have "others_ips ?c [?c, ?b] = {''10.0.1.1''}" "nm_held (net ?s) = {}"
    by (simp_all add: same_config_def status_ips_def demo_config_def demo_ctl_def NewNetworkManager_def)
  moreover have "IPRange (Spec ?c) = ''10.0.0.0/29''" "IPv6Range (Spec ?c) = []" by (simp_all add: demo_config_def)
  ultimately show ?thesis
    using AllocateAndAssign_rolls_back [OF run demo_list] single_examples by simp
qed

text \<open>C14: a requested address is honoured: when the service names an IPv4 address, or an IPv6 address and the configuration
  has an IPv6 range, a successful allocation gives exactly that address.\<close>

theorem requested_address_honoured:
  assumes "AllocateAndAssign k hc svc s = (Inr (x, ipv6), s')" "list_configs k (world s) = (Inr items, w)"
    "ParseIP (TrimSpace (LoadBalancerIP svc)) = Some t"
  shows "(To4 t \<noteq> [] \<longrightarrow> ParseIP x = Some t) \<and> (To4 t = [] \<and> IPv6Range (Spec hc) \<noteq> [] \<longrightarrow> ParseIP ipv6 = Some t)"
  using assms(2)
proof (cases rule: AllocateAndAssign_cases [where hc = hc and svc = svc])
  case (assigned y m1 z m2 w')
  then have xy: "y = x" "z = ipv6" using assms(1) by auto
  note a4 = assigned(1) [unfolded xy] and a6 = assigned(2) [unfolded xy]
  show ?thesis
    using a4 a6 assms(3) allocateIP_requested [of _ _ "LoadBalancerIP svc" _ _ t]
    by (auto simp: splitRequestedIP_4 splitRequestedIP_6 allocate_v6_def split: if_splits)
qed (use assms(1) in auto)

theorem requested_address_honoured_witness:
  "ParseIP (fst (projr (fst (AllocateAndAssign (demo_k8s False) (demo_config ''a'' ''10.0.0.0/29'' [] []) (demo_service ''web'' '' 10.0.0.3'')
     (demo_ctl [demo_config ''a'' ''10.0.0.0/29'' [] []] [demo_service ''web'' '' 10.0.0.3''] NewNetworkManager))))) =
   Some (v4InV6Prefix @ [10, 0, 0, 3])"
proof -
  let ?c = "demo_config ''a'' ''10.0.0.0/29'' [] []" and ?svc = "demo_service ''web'' '' 10.0.0.3''"
  let ?run = "AllocateAndAssign (demo_k8s False) ?c ?svc (demo_ctl [?c] [?svc] NewNetworkManager)"
  have trim: "TrimSpace '' 10.0.0.3'' = ''10.0.0.3''"
    by (simp add: TrimSpace_def trim_left.simps trim_right_rev.simps space_prefix_def space_suffix_def ascii_space_def
        space_bytes2_def space_bytes3_def)
  have p: "ParseIP ''10.0.0.3'' = Some (v4InV6Prefix @ [10, 0, 0, 3])" by (simp add: go_eval)
  have alloc: "nm_AllocateSpecificIP NewNetworkManager ''10.0.0.0/29'' ''10.0.0.3'' =
      (Inr ''10.0.0.3'', \<lparr>ipAllocator = take_ip NewIPAllocator ''10.0.0.3''\<rparr>)"
    by (simp add: nm_AllocateSpecificIP_def NewNetworkManager_def range_10_29 go_eval del: ParseIPRange_def)
  have split: "splitRequestedIP '' 10.0.0.3'' = (''10.0.0.3'', [])"
    by (simp add: splitRequestedIP_def trim p) (simp add: To4_def v4InV6Prefix_def)
  have "fst ?run = Inr (''10.0.0.3'', [])"
    by (simp add: AllocateAndAssign_def demo_list mark_others_def same_config_def split allocateIP_def
      allocate_v6_def alloc assignIPToService_def assign_once_def demo_defs)
  then have "?run = (Inr (''10.0.0.3'', []), snd ?run)" by (metis prod.collapse)
  from requested_address_honoured [OF this demo_list] show ?thesis
    using p trim \<open>fst ?run = Inr (''10.0.0.3'', [])\<close> by (simp add: demo_service_def To4_def v4InV6Prefix_def)
qed

text \<open>C39: a requested IPv6 address is dropped when the configuration keeps its range in \<^verbatim>\<open>ipRange\<close> and has no \<^verbatim>\<open>ipv6Range\<close>:
  the service is treated as if it had asked for nothing, although the filter lets it through because of its request.\<close>

theorem v6_request_dropped:
  assumes "ParseIP (TrimSpace (LoadBalancerIP svc)) = Some t" "To4 t = []" "IPv6Range (Spec hc) = []"
  shows "AllocateAndAssign k hc svc s = AllocateAndAssign k hc (svc\<lparr>LoadBalancerIP := []\<rparr>) s"
proof -
  have "assign_once k (svc\<lparr>LoadBalancerIP := []\<rparr>) = assign_once k svc"
    by (simp add: assign_once_def fun_eq_iff)
  then have eq: "assignIPToService k (svc\<lparr>LoadBalancerIP := []\<rparr>) = assignIPToService k svc"
    by (intro ext) (simp add: assignIPToService_def)
  have "LoadBalancerIP (svc\<lparr>LoadBalancerIP := []\<rparr>) = []" by simp
  then show ?thesis
    unfolding AllocateAndAssign_def eq splitRequestedIP_6 [OF assms(1,2)] assms(3)
    by (simp only: splitRequestedIP_Nil prod.case Let_def allocate_v6_none)
qed

theorem v6_request_dropped_witness:
  "eligible [] ''fd00::/120'' [] (demo_service ''web'' ''fd00::5'') \<and>
   ParseIP (fst (projr (fst (AllocateAndAssign (demo_k8s False) (demo_config ''a'' ''fd00::/120'' [] []) (demo_service ''web'' ''fd00::5'')
     (demo_ctl [demo_config ''a'' ''fd00::/120'' [] []] [demo_service ''web'' ''fd00::5''] NewNetworkManager))))) = Some (253 # replicate 15 0)"
proof
  let ?c = "demo_config ''a'' ''fd00::/120'' [] []" and ?svc = "demo_service ''web'' ''fd00::5''"
  note r = range_fd00 and trim = trim_fd00_5 and p = parse_fd00_5 and allocatable = allocatable_fd00_5
  show "eligible [] ''fd00::/120'' [] ?svc"
    by (simp add: eligible_def demo_service_def allocatable)
  let ?start = "253 # replicate 15 0 :: ip"
  have le: "253 # replicate 15 0 \<le> (253 # replicate 14 0 @ [255] :: ip)" by (simp add: replicate_numeral_eval)
  have "AllocateIP NewIPAllocator ''fd00::/120'' = (Inr (IP_String ?start), take_ip NewIPAllocator (IP_String ?start))"
    using AllocateIP_first [OF r le, of NewIPAllocator] by simp
  then have alloc: "nm_AllocateIP NewNetworkManager ''fd00::/120'' =
      (Inr (IP_String ?start), \<lparr>ipAllocator = take_ip NewIPAllocator (IP_String ?start)\<rparr>)"
    by (simp add: nm_AllocateIP_def NewNetworkManager_def)
  have eq: "AllocateAndAssign (demo_k8s False) ?c ?svc (demo_ctl [?c] [?svc] NewNetworkManager) =
      AllocateAndAssign (demo_k8s False) ?c (?svc\<lparr>LoadBalancerIP := []\<rparr>) (demo_ctl [?c] [?svc] NewNetworkManager)"
  proof (rule v6_request_dropped)
    show "ParseIP (TrimSpace (LoadBalancerIP ?svc)) = Some (253 # replicate 14 0 @ [5])"
      using trim p by (simp add: demo_service_def)
    show "To4 (253 # replicate 14 0 @ [5]) = []" by (simp add: go_eval)
    show "IPv6Range (Spec ?c) = []" by (simp add: demo_config_def)
  qed
  have "fst (AllocateAndAssign (demo_k8s False) ?c ?svc (demo_ctl [?c] [?svc] NewNetworkManager)) = Inr (IP_String ?start, [])"
    unfolding eq
    by (simp add: AllocateAndAssign_def demo_list mark_others_def same_config_def splitRequestedIP_Nil allocateIP_def
      allocate_v6_def alloc assignIPToService_def assign_once_def demo_defs)
  then show "ParseIP (fst (projr (fst (AllocateAndAssign (demo_k8s False) ?c ?svc (demo_ctl [?c] [?svc] NewNetworkManager))))) =
      Some ?start"
    by (simp add: ParseIP_IP_String To16_def)
qed

text \<open>C35: the addresses that a configuration records in its own status are not marked: after a restart, with an empty pool,
  the first allocation of a configuration without neighbours gives the first address of its range again, whatever its
  status says.\<close>

theorem restart_reissues_address:
  assumes "list_configs k (world s) = (Inr items, w)" "\<forall>c \<in> set items. same_config c hc" "net s = NewNetworkManager"
    "LoadBalancerIP svc = []" "ParseIPRange (IPRange (Spec hc)) = Inr (start, e)" "start \<le> e"
    "AllocateAndAssign k hc svc s = (Inr (x, ipv6), s')"
  shows "x = IP_String start"
  using assms(1)
proof (cases rule: AllocateAndAssign_cases [where hc = hc and svc = svc])
  case (assigned y m1 z m2 w')
  have "fold (\<lambda>other m. if same_config other hc then m else f other m) items m = m" for f and m :: NetworkManager
    using assms(2) by (induction items) auto
  then have m: "mark_others hc items (net s) = NewNetworkManager" by (simp add: mark_others_def assms(3))
  have "fst (nm_AllocateIP NewNetworkManager (IPRange (Spec hc))) = Inr (IP_String start)"
    using AllocateIP_first [OF assms(5,6), of NewIPAllocator] by (simp add: nm_AllocateIP_def NewNetworkManager_def)
  then show ?thesis using assigned assms(4,7) m by (simp add: splitRequestedIP_Nil allocateIP_def)
qed (use assms(7) in auto)

theorem restart_reissues_address_witness:
  "AllocatedIPs (Status (demo_config ''a'' ''10.0.0.0/29'' [] [(''old'', ''10.0.0.1'')])) = [(''old'', ''10.0.0.1'')] \<and>
   fst (AllocateAndAssign (demo_k8s False) (demo_config ''a'' ''10.0.0.0/29'' [] [(''old'', ''10.0.0.1'')]) (demo_service ''web'' [])
     (demo_ctl [demo_config ''a'' ''10.0.0.0/29'' [] [(''old'', ''10.0.0.1'')]] [demo_service ''web'' []] NewNetworkManager))
   = Inr (IP_String [10, 0, 0, 1], [])"
proof -
  let ?c = "demo_config ''a'' ''10.0.0.0/29'' [] [(''old'', ''10.0.0.1'')]"
  let ?run = "AllocateAndAssign (demo_k8s False) ?c (demo_service ''web'' []) (demo_ctl [?c] [demo_service ''web'' []] NewNetworkManager)"
  have "?run = (Inr (''10.0.0.1'', []), snd ?run)" using demo_allocate [of "[(''old'', ''10.0.0.1'')]"] by (metis prod.collapse)
  from restart_reissues_address [OF demo_list _ _ _ _ _ this, of "[10, 0, 0, 1]" "[10, 0, 0, 6]"]
  have "''10.0.0.1'' = IP_String [10, 0, 0, 1]"
    by (simp add: same_config_def demo_ctl_def demo_service_def demo_config_def range_10_29)
  then show ?thesis using demo_allocate [of "[(''old'', ''10.0.0.1'')]"] by (simp add: demo_config_def)
qed

text \<open>C36: on a range of one address the rollback frees an address that somebody else holds: the address is handed out although
  it is in use, and when the service cannot be updated it is released.\<close>

theorem rollback_frees_held_address:
  assumes "list_configs k (world s) = (Inr items, w)" "ParseIPRange (IPRange (Spec hc)) = Inr (start, start)"
    "IPv6Range (Spec hc) = []" "LoadBalancerIP svc = []"
    "assignIPToService k svc (IP_String start) [] w = (Some err, w')" "IP_String start \<in> held (ipAllocator (net s))"
  shows "IP_String start \<notin> held (ipAllocator (net (snd (AllocateAndAssign k hc svc s))))"
proof -
  obtain m1 where "allocateIP (mark_others hc items (net s)) (IPRange (Spec hc)) [] = (Inr (IP_String start), m1)"
    using assms(2) by (simp add: allocateIP_def nm_AllocateIP_def AllocateIP_def IP_Equal_def)
  then show ?thesis
    using assms(1,3-5) by (simp add: AllocateAndAssign_def splitRequestedIP_Nil allocate_v6_def nm.release_frees)
qed

theorem rollback_frees_held_address_witness:
  "IP_String [10, 0, 0, 9] \<in> held (ipAllocator (nm_MarkUsed NewNetworkManager (IP_String [10, 0, 0, 9]))) \<and>
   IP_String [10, 0, 0, 9] \<notin> held (ipAllocator (net (snd (AllocateAndAssign (demo_k8s True) (demo_config ''a'' ''10.0.0.9'' [] [])
     (demo_service ''web'' []) (demo_ctl [demo_config ''a'' ''10.0.0.9'' [] []] [demo_service ''web'' []]
        (nm_MarkUsed NewNetworkManager (IP_String [10, 0, 0, 9])))))))"
proof
  let ?c = "demo_config ''a'' ''10.0.0.9'' [] []" and ?svc = "demo_service ''web'' []"
  let ?m = "nm_MarkUsed NewNetworkManager (IP_String [10, 0, 0, 9])"
  show held: "IP_String [10, 0, 0, 9] \<in> held (ipAllocator ?m)" by (simp add: nm.mark_takes)
  have r: "ParseIPRange ''10.0.0.9'' = Inr ([10, 0, 0, 9], [10, 0, 0, 9])" by (simp add: go_eval)
  have asg: "\<exists>err w'. assignIPToService (demo_k8s True) ?svc (IP_String [10, 0, 0, 9]) [] ([?c], [?svc]) = (Some err, w')"
    by (simp add: assignIPToService_def assign_once_def demo_k8s_def demo_service_def)
  then obtain err w' where asg: "assignIPToService (demo_k8s True) ?svc (IP_String [10, 0, 0, 9]) [] ([?c], [?svc]) = (Some err, w')"
    by blast
  show "IP_String [10, 0, 0, 9] \<notin> held (ipAllocator (net (snd (AllocateAndAssign (demo_k8s True) ?c ?svc (demo_ctl [?c] [?svc] ?m)))))"
    by (rule rollback_frees_held_address [OF demo_list _ _ _ asg])
       (use r held in \<open>simp_all add: demo_config_def demo_service_def demo_ctl_def\<close>)
qed



end
