(* ===== verification/Reconciler.thy ===== *)
theory Reconciler
  imports IP_Manager
begin

text \<open>
  \<^verbatim>\<open>internal/controller/heliosconfig_controller.go\<close>: the reconcile loop, the deletion handler and the watch handler.

  \<^item> \<open>Result\<close> is \<^verbatim>\<open>ctrl.Result\<close> with the seconds of \<^verbatim>\<open>RequeueAfter\<close>.
  \<^item> The time that a reconciliation takes is a parameter; it reaches one metric only.
  \<^item> Logging is left out.
\<close>

section \<open>The reconcile loop\<close>

record Result =
  RequeueAfter :: nat

definition heliosConfigFinalizer :: string where
  "heliosConfigFinalizer = ''balancer.helios.dev/finalizer''"

definition set_cond ::
  "('w, 'x) K8s \<Rightarrow> string \<Rightarrow> string \<Rightarrow> string \<Rightarrow> 'x error message \<Rightarrow> 'x config \<Rightarrow> 'x config" where
  "set_cond k type status reason msg hc =
     hc\<lparr>Status := (Status hc)\<lparr>Conditions := SetStatusCondition k (Conditions (Status hc))
       \<lparr>Cond_Type = type, Cond_Status = status, Cond_Reason = reason, Cond_Message = msg,
        ObservedGeneration = Generation (Meta hc)\<rparr>\<rparr>\<rparr>"

text \<open>\<^verbatim>\<open>r.Status().Update\<close> and \<^verbatim>\<open>r.Update\<close> on the configuration: on success the stored object replaces the one in memory.\<close>

definition status_update :: "('w, 'x) K8s \<Rightarrow> 'x config \<Rightarrow> ('w, 'x) ctl \<Rightarrow> 'x option \<times> 'x config \<times> ('w, 'x) ctl" where
  "status_update k hc s =
     (case update_config_status k (world s) hc of
        (Inl err, w) \<Rightarrow> (Some err, hc, s\<lparr>world := w\<rparr>)
      | (Inr stored, w) \<Rightarrow> (None, stored, s\<lparr>world := w\<rparr>))"

definition object_update :: "('w, 'x) K8s \<Rightarrow> 'x config \<Rightarrow> ('w, 'x) ctl \<Rightarrow> 'x option \<times> 'x config \<times> ('w, 'x) ctl" where
  "object_update k hc s =
     (case update_config k (world s) hc of
        (Inl err, w) \<Rightarrow> (Some err, hc, s\<lparr>world := w\<rparr>)
      | (Inr stored, w) \<Rightarrow> (None, stored, s\<lparr>world := w\<rparr>))"

definition emit :: "'x event \<Rightarrow> ('w, 'x) ctl \<Rightarrow> ('w, 'x) ctl" where
  "emit e s = s\<lparr>events := events s @ [e]\<rparr>"

definition record_metrics :: "metric_op list \<Rightarrow> ('w, 'x) ctl \<Rightarrow> ('w, 'x) ctl" where
  "record_metrics ops s = s\<lparr>metrics := metrics s @ ops\<rparr>"

definition handleDeletion ::
  "('w, 'x) K8s \<Rightarrow> 'x config \<Rightarrow> ('w, 'x) ctl \<Rightarrow> 'x error option \<times> 'x config \<times> ('w, 'x) ctl" where
  "handleDeletion k hc s =
     (if ContainsFinalizer k (Finalizers (Meta hc)) heliosConfigFinalizer then
        let s1 = emit (CleanupStarted (length (AllocatedIPs (Status hc)))) s;
            s2 = ReleaseAll k hc s1;
            hc1 = hc\<lparr>Meta := (Meta hc)\<lparr>Finalizers := RemoveFinalizer k (Finalizers (Meta hc)) heliosConfigFinalizer\<rparr>\<rparr>
        in (case object_update k hc1 s2 of
              (Some err, hc2, s3) \<Rightarrow> (Some (ApiError err), hc2, emit (CleanupFailed (ApiError err)) s3)
            | (None, hc2, s3) \<Rightarrow> (None, hc2, emit CleanupComplete s3))
      else (None, hc, s))"

text \<open>The status of the configuration after a failed and after a successful allocation.\<close>

definition failed_status :: "('w, 'x) K8s \<Rightarrow> 'x error \<Rightarrow> 'x config \<Rightarrow> 'x config" where
  "failed_status k err hc =
     set_cond k ConditionTypeDegraded ''True'' ReasonIPAllocationError (MsgErr err)
       (set_cond k ConditionTypeReady ''False'' ReasonIPAllocationError (MsgErr err)
         (hc\<lparr>Status := (Status hc)\<lparr>Phase := StateFailed, State := StateFailed, Message := MsgErr err\<rparr>\<rparr>))"

definition active_status :: "('w, 'x) K8s \<Rightarrow> string \<Rightarrow> string \<Rightarrow> string \<Rightarrow> 'x config \<Rightarrow> 'x config" where
  "active_status k svcName x ipv6 hc =
     (let st1 = (Status hc)\<lparr>AllocatedIPs := map_set svcName x (AllocatedIPs (Status hc))\<rparr>;
          st2 = (if ipv6 \<noteq> [] then st1\<lparr>AllocatedIPv6s := map_set svcName ipv6 (AllocatedIPv6s st1)\<rparr> else st1);
          st3 = st2\<lparr>Phase := StateActive, State := StateActive, Message := MsgText ''IP allocated successfully''\<rparr>
      in set_cond k ConditionTypeDegraded ''False'' ReasonNetworkConfigured (MsgText ''All allocations healthy'')
           (set_cond k ConditionTypeReady ''True'' ReasonNetworkConfigured (MsgText ''IP allocated successfully'')
             (hc\<lparr>Status := st3\<rparr>)))"

text \<open>The loop over the eligible services: the early return, if there is one, the configuration and the state.\<close>

fun process_services ::
  "('w, 'x) K8s \<Rightarrow> Service list \<Rightarrow> 'x config \<Rightarrow> ('w, 'x) ctl
   \<Rightarrow> (Result \<times> 'x error option) option \<times> 'x config \<times> ('w, 'x) ctl" where
  "process_services k [] hc s = (None, hc, s)"
| "process_services k (svc # svcs) hc s =
     (if CheckQuota hc \<noteq> None
      then (None, hc, emit (QuotaExceeded (length (AllocatedIPs (Status hc))) (MaxAllocations (Spec hc))) s)
      else (case AllocateAndAssign k hc svc s of
         (Inl err, s1) \<Rightarrow>
           (let s2 = emit (AllocationFailed (Svc_Namespace svc) (Svc_Name svc) err) s1;
                (_, hc2, s3) = status_update k (failed_status k err hc) s2
            in (Some (\<lparr>RequeueAfter = 10\<rparr>, None), hc2,
                record_metrics (RecordRequeueReason (Name (Meta hc2)) (Namespace (Meta hc2)) ''ip_allocation_error'') s3))
       | (Inr (x, ipv6), s1) \<Rightarrow>
           (let s2 = emit (if ipv6 \<noteq> [] then DualStackAllocated x ipv6 (Svc_Namespace svc) (Svc_Name svc)
                           else IPAllocated x (Svc_Namespace svc) (Svc_Name svc)) s1
            in (case status_update k (active_status k (Svc_Name svc) x ipv6 hc) s2 of
                  (Some err, hc2, s3) \<Rightarrow> (Some (\<lparr>RequeueAfter = 0\<rparr>, Some (ApiError err)), hc2, s3)
                | (None, hc2, s3) \<Rightarrow> process_services k svcs hc2 s3))))"

definition conflict_return ::
  "('w, 'x) K8s \<Rightarrow> nat \<Rightarrow> 'x config \<Rightarrow> ('w, 'x) ctl \<Rightarrow> (Result \<times> 'x error option) \<times> 'x config \<times> ('w, 'x) ctl" where
  "conflict_return k n hc s =
     (let s1 = emit (IPConflict n) s;
          hc1 = set_cond k ConditionTypeDegraded ''True'' ReasonIPConflict (MsgCount ''IP range conflicts with %d allocated IP(s) from other configs'' n) hc;
          (_, hc2, s2) = status_update k hc1 s1
      in ((\<lparr>RequeueAfter = 30\<rparr>, None), hc2,
          record_metrics (RecordRequeueReason (Name (Meta hc2)) (Namespace (Meta hc2)) ''ip_conflict'') s2))"

text \<open>From the list of the services on.\<close>

definition reconcile_services ::
  "('w, 'x) K8s \<Rightarrow> 'x config \<Rightarrow> ('w, 'x) ctl \<Rightarrow> (Result \<times> 'x error option) \<times> 'x config \<times> ('w, 'x) ctl" where
  "reconcile_services k hc s =
     (case list_services k (world s) of
        (Inl err, w) \<Rightarrow> ((\<lparr>RequeueAfter = 0\<rparr>, Some (ApiError err)), hc, s\<lparr>world := w\<rparr>)
      | (Inr services, w) \<Rightarrow>
          let eligible_svcs = FilterEligibleServices services (NamespaceSelector (Spec hc)) (IPRange (Spec hc)) [IPv6Range (Spec hc)]
          in (case CheckIPConflicts k hc (s\<lparr>world := w\<rparr>) of
                (Inl err, s1) \<Rightarrow> ((\<lparr>RequeueAfter = 0\<rparr>, Some err), hc, s1)
              | (Inr conflicts, s1) \<Rightarrow>
                  if length conflicts > 0 then conflict_return k (length conflicts) hc s1
                  else (case process_services k eligible_svcs hc s1 of
                     (Some ret, hc2, s2) \<Rightarrow> (ret, hc2, s2)
                   | (None, hc2, s2) \<Rightarrow>
                       ((\<lparr>RequeueAfter = 5\<rparr>, None), hc2,
                        record_metrics (RecordRequeueReason (Name (Meta hc2)) (Namespace (Meta hc2)) ''periodic'') s2))))"

text \<open>The finalizer and the initial condition; an error ends the reconciliation.\<close>

definition ensure_finalizer ::
  "('w, 'x) K8s \<Rightarrow> 'x config \<Rightarrow> ('w, 'x) ctl \<Rightarrow> 'x option \<times> 'x config \<times> ('w, 'x) ctl" where
  "ensure_finalizer k hc s =
     (if ContainsFinalizer k (Finalizers (Meta hc)) heliosConfigFinalizer then (None, hc, s)
      else let hc1 = hc\<lparr>Meta := (Meta hc)\<lparr>Finalizers := AddFinalizer k (Finalizers (Meta hc)) heliosConfigFinalizer\<rparr>\<rparr>
        in (case object_update k hc1 s of
              (Some err, hc2, s1) \<Rightarrow> (Some err, hc2, s1)
            | (None, hc2, s1) \<Rightarrow>
                status_update k (set_cond k ConditionTypeReady ''False'' ReasonInitializing
                  (MsgText ''HeliosConfig is initializing'') hc2) s1))"

definition reconcile_config ::
  "('w, 'x) K8s \<Rightarrow> 'x config \<Rightarrow> ('w, 'x) ctl \<Rightarrow> (Result \<times> 'x error option) \<times> 'x config \<times> ('w, 'x) ctl" where
  "reconcile_config k hc s =
     (case ensure_finalizer k hc s of
        (Some err, hc1, s1) \<Rightarrow> ((\<lparr>RequeueAfter = 0\<rparr>, Some (ApiError err)), hc1, s1)
      | (None, hc1, s1) \<Rightarrow>
          if \<not> Time_IsZero k (DeletionTimestamp (Meta hc1)) then
            (case handleDeletion k hc1 s1 of (err, hc2, s2) \<Rightarrow> ((\<lparr>RequeueAfter = 0\<rparr>, err), hc2, s2))
          else reconcile_services k hc1 s1)"

text \<open>The deferred function, which runs on every return after the configuration was read.\<close>

definition deferred_metrics :: "real \<Rightarrow> 'e HeliosConfig \<Rightarrow> metric_op list" where
  "deferred_metrics duration hc =
     RecordReconcileDuration (Name (Meta hc)) (Namespace (Meta hc))
       (if Phase (Status hc) = StateFailed then ''error'' else ''success'') duration @
     RecordLBStatus (Name (Meta hc)) (Namespace (Meta hc)) (Phase (Status hc) = StateActive) @
     RecordIPPoolUtilization (Name (Meta hc)) (Namespace (Meta hc)) (length (AllocatedIPs (Status hc)))"

definition Reconcile ::
  "('w, 'x) K8s \<Rightarrow> real \<Rightarrow> string \<times> string \<Rightarrow> ('w, 'x) ctl \<Rightarrow> (Result \<times> 'x error option) \<times> ('w, 'x) ctl" where
  "Reconcile k duration req s =
     (case get_config k (world s) req of
        (Inl err, w) \<Rightarrow> ((\<lparr>RequeueAfter = 0\<rparr>, map_option ApiError (IgnoreNotFound k err)), s\<lparr>world := w\<rparr>)
      | (Inr hc, w) \<Rightarrow>
          (case reconcile_config k hc (s\<lparr>world := w\<rparr>) of
             (ret, hc', s') \<Rightarrow> (ret, record_metrics (deferred_metrics duration hc') s')))"

section \<open>The watch handler\<close>

definition findLoadBalancerServices ::
  "('w, 'x) K8s \<Rightarrow> Service \<Rightarrow> 'w \<Rightarrow> (string \<times> string) list \<times> 'w" where
  "findLoadBalancerServices k svc w =
     (case list_configs k w of
        (Inl _, w') \<Rightarrow> ([], w')
      | (Inr items, w') \<Rightarrow>
          (map (\<lambda>hc. (Namespace (Meta hc), Name (Meta hc)))
             (filter (\<lambda>hc. \<not> (LoadBalancerIP svc \<noteq> [] \<and> \<not> IPInRange (LoadBalancerIP svc) (IPRange (Spec hc)))) items), w'))"

text \<open>The predicate of the watch.\<close>

definition watch_predicate :: "Service \<Rightarrow> bool" where
  "watch_predicate svc \<longleftrightarrow> Svc_Type svc = ServiceTypeLoadBalancer"

section \<open>Steps and what they keep\<close>

lemma emit_simps [simp]:
  "world (emit e s) = world s" "net (emit e s) = net s" "metrics (emit e s) = metrics s"
  by (simp_all add: emit_def)

lemma record_metrics_simps [simp]:
  "world (record_metrics ops s) = world s" "net (record_metrics ops s) = net s"
  "metrics (record_metrics ops s) = metrics s @ ops"
  by (simp_all add: record_metrics_def)

lemma update_keeps [simp]:
  "net (snd (snd (status_update k hc s))) = net s" "metrics (snd (snd (status_update k hc s))) = metrics s"
  "net (snd (snd (object_update k hc s))) = net s" "metrics (snd (snd (object_update k hc s))) = metrics s"
  by (simp_all add: status_update_def object_update_def split: prod.splits sum.splits)

lemma set_cond_simps [simp]:
  "Meta (set_cond k t st r m hc) = Meta hc" "Spec (set_cond k t st r m hc) = Spec hc"
  "AllocatedIPs (Status (set_cond k t st r m hc)) = AllocatedIPs (Status hc)"
  "AllocatedIPv6s (Status (set_cond k t st r m hc)) = AllocatedIPv6s (Status hc)"
  "Phase (Status (set_cond k t st r m hc)) = Phase (Status hc)"
  by (simp_all add: set_cond_def)

lemma failed_status_simps [simp]:
  "Meta (failed_status k err hc) = Meta hc" "Spec (failed_status k err hc) = Spec hc"
  "AllocatedIPs (Status (failed_status k err hc)) = AllocatedIPs (Status hc)"
  "AllocatedIPv6s (Status (failed_status k err hc)) = AllocatedIPv6s (Status hc)"
  "Phase (Status (failed_status k err hc)) = StateFailed"
  by (simp_all add: failed_status_def)

lemma active_status_simps [simp]:
  "Meta (active_status k n x ipv6 hc) = Meta hc" "Spec (active_status k n x ipv6 hc) = Spec hc"
  "AllocatedIPs (Status (active_status k n x ipv6 hc)) = map_set n x (AllocatedIPs (Status hc))"
  "AllocatedIPv6s (Status (active_status k n x ipv6 hc)) =
     (if ipv6 \<noteq> [] then map_set n ipv6 (AllocatedIPv6s (Status hc)) else AllocatedIPv6s (Status hc))"
  "Phase (Status (active_status k n x ipv6 hc)) = StateActive"
  by (simp_all add: active_status_def Let_def)

subsection \<open>Metrics\<close>

definition metrics_ok :: "('w, 'x) ctl \<Rightarrow> bool" where
  "metrics_ok s = list_all op_ok (metrics s)"

lemma metrics_ok_record [simp]: "metrics_ok (record_metrics ops s) \<longleftrightarrow> metrics_ok s \<and> list_all op_ok ops"
  by (simp add: metrics_ok_def)

lemma metrics_ok_simps [simp]:
  "metrics_ok (s\<lparr>world := w\<rparr>) = metrics_ok s" "metrics_ok (emit e s) = metrics_ok s"
  "metrics_ok (snd (snd (status_update k hc s))) = metrics_ok s" "metrics_ok (snd (snd (object_update k hc s))) = metrics_ok s"
  by (simp_all add: metrics_ok_def)

lemma AllocateAndAssign_list_fails:
  "list_configs k (world s) = (Inl e, w) \<Longrightarrow>
   AllocateAndAssign k hc svc s = (Inl (NewRetryableError ''failed to list configs for conflict check'' (ApiError e)), s\<lparr>world := w\<rparr>)"
  by (simp add: AllocateAndAssign_def)

lemma AllocateAndAssign_metrics_ok: "metrics_ok s \<Longrightarrow> metrics_ok (snd (AllocateAndAssign k hc svc s))"
proof (cases "fst (list_configs k (world s))")
  case (Inl e)
  then have "list_configs k (world s) = (Inl e, snd (list_configs k (world s)))" by (metis prod.collapse)
  then show "metrics_ok s \<Longrightarrow> ?thesis" by (simp add: AllocateAndAssign_list_fails)
next
  case (Inr items)
  then have "list_configs k (world s) = (Inr items, snd (list_configs k (world s)))" by (metis prod.collapse)
  then show "metrics_ok s \<Longrightarrow> ?thesis"
    by (cases rule: AllocateAndAssign_cases [where hc = hc and svc = svc]) (simp_all add: metrics_ok_def)
qed

lemma release_ips_metrics_ok: "metrics_ok s \<Longrightarrow> metrics_ok (snd (release_ips ips (names, s)))"
  unfolding release_ips_def
  by (induction ips arbitrary: names s) (auto simp: metrics_ok_def)

lemma ReleaseAll_metrics_ok: "metrics_ok s \<Longrightarrow> metrics_ok (ReleaseAll k hc s)"
proof -
  assume s: "metrics_ok s"
  let ?r = "release_ips (AllocatedIPs (Status hc)) ([], s)"
  have "metrics_ok (snd (release_ips (AllocatedIPv6s (Status hc)) (fst ?r, snd ?r)))"
    by (intro release_ips_metrics_ok s)
  then show ?thesis by (simp add: ReleaseAll_def split_beta Let_def)
qed

text \<open>A property of configuration and state that every pass of the loop keeps holds after the loop.\<close>

lemma process_services_inv:
  assumes "I hc s"
    and quota: "\<And>hc s ev. I hc s \<Longrightarrow> I hc (emit ev s)"
    and failed: "\<And>hc s svc err s1 ev e hc2 s3 n ns why. I hc s \<Longrightarrow> AllocateAndAssign k hc svc s = (Inl err, s1)
      \<Longrightarrow> status_update k (failed_status k err hc) (emit ev s1) = (e, hc2, s3) \<Longrightarrow> I hc2 (record_metrics (RecordRequeueReason n ns why) s3)"
    and granted: "\<And>hc s svc x ipv6 s1 ev e hc2 s3. I hc s \<Longrightarrow> CheckQuota hc = None \<Longrightarrow> AllocateAndAssign k hc svc s = (Inr (x, ipv6), s1)
      \<Longrightarrow> status_update k (active_status k (Svc_Name svc) x ipv6 hc) (emit ev s1) = (e, hc2, s3) \<Longrightarrow> I hc2 s3"
  shows "I (fst (snd (process_services k svcs hc s))) (snd (snd (process_services k svcs hc s)))"
  using assms(1)
proof (induction svcs arbitrary: hc s)
  case (Cons svc svcs)
  obtain r s1 where r: "AllocateAndAssign k hc svc s = (r, s1)" by fastforce
  show ?case
  proof (cases "CheckQuota hc")
    case (Some e)
    then show ?thesis using Cons.prems quota by simp
  next
    case None
    show ?thesis
    proof (cases r)
      case (Inl err)
      obtain e hc2 s3 where u: "status_update k (failed_status k err hc)
          (emit (AllocationFailed (Svc_Namespace svc) (Svc_Name svc) err) s1) = (e, hc2, s3)" by (metis prod_cases3)
      show ?thesis using None r Inl u failed [OF Cons.prems r [unfolded Inl] u] by (simp add: Let_def)
    next
      case (Inr p)
      obtain x ipv6 where p: "p = (x, ipv6)" by (cases p)
      obtain e hc2 s3 where u: "status_update k (active_status k (Svc_Name svc) x ipv6 hc)
          (emit (if ipv6 \<noteq> [] then DualStackAllocated x ipv6 (Svc_Namespace svc) (Svc_Name svc)
             else IPAllocated x (Svc_Namespace svc) (Svc_Name svc)) s1) = (e, hc2, s3)" by (metis prod_cases3)
      have "I hc2 s3" using granted [OF Cons.prems None r [unfolded Inr p] u] .
      then show ?thesis using None r Inr p u Cons.IH [of hc2 s3] by (cases e) (simp_all add: Let_def)
    qed
  qed
qed simp

lemma process_services_metrics_ok:
  assumes "metrics_ok s"
  shows "metrics_ok (snd (snd (process_services k svcs hc s)))"
proof (rule process_services_inv [where I = "\<lambda>hc s. metrics_ok s"])
  fix hc s svc err s1 ev e hc2 s3 n ns why
  assume "metrics_ok s" "AllocateAndAssign k hc svc s = (Inl err, s1)"
    and u: "status_update k (failed_status k err hc) (emit ev s1) = (e, hc2, s3)"
  then show "metrics_ok (record_metrics (RecordRequeueReason n ns why) s3)"
    using AllocateAndAssign_metrics_ok [of s k hc svc] metrics_ok_simps(3) [of k "failed_status k err hc" "emit ev s1"] by simp
next
  fix hc s svc x ipv6 s1 ev e hc2 s3
  assume "metrics_ok s" "AllocateAndAssign k hc svc s = (Inr (x, ipv6), s1)"
    and u: "status_update k (active_status k (Svc_Name svc) x ipv6 hc) (emit ev s1) = (e, hc2, s3)"
  then show "metrics_ok s3"
    using AllocateAndAssign_metrics_ok [of s k hc svc] metrics_ok_simps(3) [of k "active_status k (Svc_Name svc) x ipv6 hc" "emit ev s1"]
    by simp
qed (use assms in simp_all)

lemma CheckIPConflicts_keeps:
  "net (snd (CheckIPConflicts k hc s)) = net s" "metrics (snd (CheckIPConflicts k hc s)) = metrics s"
  by (simp_all add: CheckIPConflicts_def split: prod.splits sum.splits)

lemma conflict_return_simps:
  "fst (conflict_return k n hc s) = (\<lparr>RequeueAfter = 30\<rparr>, None)" "net (snd (snd (conflict_return k n hc s))) = net s"
  "metrics_ok (snd (snd (conflict_return k n hc s))) = metrics_ok s"
  by (simp_all add: conflict_return_def Let_def split_beta)

lemma reconcile_services_metrics_ok:
  assumes "metrics_ok s"
  shows "metrics_ok (snd (snd (reconcile_services k hc s)))"
proof (cases "list_services k (world s)")
  case (Pair r w)
  let ?c = "CheckIPConflicts k hc (s\<lparr>world := w\<rparr>)"
  have c: "metrics_ok (snd ?c)" using assms by (simp add: metrics_ok_def CheckIPConflicts_keeps)
  show ?thesis
  proof (cases "\<exists>services conflicts. r = Inr services \<and> fst ?c = Inr conflicts \<and> conflicts = []")
    case True
    then obtain services where rs: "r = Inr services" "fst ?c = Inr []" by blast
    let ?p = "process_services k (FilterEligibleServices services (NamespaceSelector (Spec hc)) (IPRange (Spec hc)) [IPv6Range (Spec hc)]) hc (snd ?c)"
    have "metrics_ok (snd (snd ?p))" using process_services_metrics_ok [OF c] .
    with rs show ?thesis
      by (cases "fst ?p") (simp_all add: reconcile_services_def Pair split_beta Let_def)
  next
    case False
    with assms c show ?thesis
      by (auto simp: reconcile_services_def Pair split_beta Let_def conflict_return_simps split: sum.splits)
  qed
qed

lemma ensure_finalizer_keeps:
  "net (snd (snd (ensure_finalizer k hc s))) = net s" "metrics_ok (snd (snd (ensure_finalizer k hc s))) = metrics_ok s"
  by (simp_all add: ensure_finalizer_def Let_def object_update_def status_update_def split: prod.splits sum.splits)

lemma handleDeletion_metrics_ok: "metrics_ok s \<Longrightarrow> metrics_ok (snd (snd (handleDeletion k hc s)))"
  using ReleaseAll_metrics_ok [of "emit (CleanupStarted (length (AllocatedIPs (Status hc)))) s" k hc]
  by (simp add: handleDeletion_def Let_def object_update_def split: prod.splits sum.splits)

lemma deferred_metrics_ok [simp]: "list_all op_ok (deferred_metrics d hc)"
  by (simp add: deferred_metrics_def)

lemma reconcile_config_metrics_ok:
  assumes "metrics_ok s"
  shows "metrics_ok (snd (snd (reconcile_config k hc s)))"
proof -
  obtain e hc1 s1 where f: "ensure_finalizer k hc s = (e, hc1, s1)" by (metis prod_cases3)
  have "metrics_ok s1" using ensure_finalizer_keeps(2) [of k hc s] f assms by simp
  then show ?thesis
    using handleDeletion_metrics_ok [of s1 k hc1] reconcile_services_metrics_ok [of s1 k hc1] f
    by (cases e) (simp_all add: reconcile_config_def split_beta)
qed

end
