(* ===== verification/Reconciler_Properties.thy ===== *)
theory Reconciler_Properties
  imports Reconciler
begin

text \<open>
  What a reconciliation keeps: the quota and the addresses that the status records, over the loop of
  \<^verbatim>\<open>Reconcile\<close> in \<^verbatim>\<open>internal/controller/heliosconfig_controller.go\<close>, and the properties of the reconciler.

  \<^item> \<open>echoes\<close> is the hypothesis on the server that the invariants rest on.
  \<^item> \<open>process_services_inv\<close> of the theory before carries an invariant over the loop; \<open>within_quota\<close> and \<open>recorded_ok\<close>
    are its two instances here.
\<close>

section \<open>The recorded addresses\<close>

text \<open>What the server answers to an update: the specification and the status that were sent.  Updates carry a resource
  version, so the server refuses one that is not based on the stored object.\<close>

definition echoes :: "('w, 'x) K8s \<Rightarrow> bool" where
  "echoes k \<longleftrightarrow>
     (\<forall>w c c' w'. update_config_status k w c = (Inr c', w') \<longrightarrow> Spec c' = Spec c \<and> Status c' = Status c)
   \<and> (\<forall>w c c' w'. update_config k w c = (Inr c', w') \<longrightarrow> Spec c' = Spec c \<and> Status c' = Status c)"

lemma echoesD:
  "echoes k \<Longrightarrow> update_config_status k w c = (Inr c', w') \<Longrightarrow> Spec c' = Spec c \<and> Status c' = Status c"
  "echoes k \<Longrightarrow> update_config k w c = (Inr c', w') \<Longrightarrow> Spec c' = Spec c \<and> Status c' = Status c"
  unfolding echoes_def by blast+

lemma status_update_echo:
  "echoes k \<Longrightarrow> status_update k c s = (e, c', s') \<Longrightarrow> Spec c' = Spec c \<and> Status c' = Status c \<and> net s' = net s"
  by (auto simp: status_update_def dest: echoesD(1) split: prod.splits sum.splits)

lemma object_update_echo:
  "echoes k \<Longrightarrow> object_update k c s = (e, c', s') \<Longrightarrow> Spec c' = Spec c \<and> Status c' = Status c \<and> net s' = net s"
  by (auto simp: object_update_def dest: echoesD(2) split: prod.splits sum.splits)

definition within_quota :: "'x config \<Rightarrow> bool" where
  "within_quota hc \<longleftrightarrow> int (length (AllocatedIPs (Status hc))) \<le> sint (MaxAllocations (Spec hc))"

lemma within_quota_grant:
  assumes "CheckQuota hc = None" "within_quota hc" "0 < sint (MaxAllocations (Spec hc))"
  shows "within_quota (active_status k n x ipv6 hc)"
proof -
  have "sint (MaxAllocations (Spec hc)) < 2 ^ 31" using sint_lt [of "MaxAllocations (Spec hc)"] by simp
  with assms(2) have "length (AllocatedIPs (Status hc)) < 2 ^ 31" by (simp add: within_quota_def)
  with assms show ?thesis
    using CheckQuota_None [of hc] by (simp add: within_quota_def length_map_set split: if_splits)
qed

lemma process_services_quota:
  assumes "echoes k" "within_quota hc" "0 < sint (MaxAllocations (Spec hc))"
  shows "within_quota (fst (snd (process_services k svcs hc s)))"
proof -
  let ?I = "\<lambda>hc s. within_quota hc \<and> 0 < sint (MaxAllocations (Spec hc))"
  have "?I (fst (snd (process_services k svcs hc s))) (snd (snd (process_services k svcs hc s)))"
  proof (rule process_services_inv [where I = ?I])
    fix hc s svc err s1 ev e hc2 s3 n ns why
    assume "?I hc s" "status_update k (failed_status k err hc) (emit ev s1) = (e, hc2, s3)"
    then show "?I hc2 (record_metrics (RecordRequeueReason n ns why) s3)" using status_update_echo [OF assms(1)] by (fastforce simp: within_quota_def)
  next
    fix hc s svc x ipv6 s1 ev e hc2 s3
    assume "?I hc s" "CheckQuota hc = None"
      "status_update k (active_status k (Svc_Name svc) x ipv6 hc) (emit ev s1) = (e, hc2, s3)"
    then show "?I hc2 s3"
      using status_update_echo [OF assms(1)] within_quota_grant [of hc k "Svc_Name svc" x ipv6] by (fastforce simp: within_quota_def)
  qed (use assms in auto)
  then show ?thesis by blast
qed

text \<open>The addresses that the status records are all different and all held.\<close>

definition recorded_ok :: "'x config \<Rightarrow> ('w, 'x) ctl \<Rightarrow> bool" where
  "recorded_ok hc s \<longleftrightarrow>
     distinct (map snd (AllocatedIPs (Status hc) @ AllocatedIPv6s (Status hc))) \<and> status_ips hc \<subseteq> nm_held (net s)"

abbreviation plain_ranges :: "'x config \<Rightarrow> bool" where
  "plain_ranges hc \<equiv> \<not> single_range (IPRange (Spec hc)) \<and> \<not> single_range (IPv6Range (Spec hc))"

lemma AllocateAndAssign_fail_keeps:
  assumes "AllocateAndAssign k hc svc s = (Inl err, s')" "plain_ranges hc"
  shows "nm_held (net s) \<subseteq> nm_held (net s')"
proof (cases "list_configs k (world s)")
  case (Pair r w)
  show ?thesis
  proof (cases r)
    case (Inl e)
    with Pair assms(1) show ?thesis by (auto simp: AllocateAndAssign_list_fails)
  next
    case (Inr items)
    have p4: "\<not> single_range (IPRange (Spec hc))" and p6: "\<not> single_range (IPv6Range (Spec hc))" using assms(2) by auto
    from Pair Inr have "list_configs k (world s) = (Inr items, w)" by simp
    then show ?thesis
    proof (cases rule: AllocateAndAssign_cases [where hc = hc and svc = svc])
      case (v6_fails x m1 e)
      then show ?thesis using assms(1) allocateIP_Inr [OF v6_fails(1)] allocateIP_fresh [OF v6_fails(1) p4]
        by (auto simp: nm.release_frees held_mark_others)
    next
      case (assign_fails x m1 ipv6 m2 e w')
      then show ?thesis using assms(1) allocateIP_Inr [OF assign_fails(1)] allocateIP_fresh [OF assign_fails(1) p4]
          allocate_v6_Inr(1) [OF assign_fails(2)] allocate_v6_fresh [OF assign_fails(2) p6]
        by (auto simp: release_both held_mark_others simp del: if_split)
    qed (use assms(1) in \<open>auto simp: held_mark_others\<close>)
  qed
qed

lemma AllocateAndAssign_ok_takes:
  assumes "AllocateAndAssign k hc svc s = (Inr (x, ipv6), s')" "plain_ranges hc"
  shows "x \<notin> nm_held (net s)" "v6_set ipv6 \<inter> insert x (nm_held (net s)) = {}"
    "insert x (nm_held (net s)) \<union> v6_set ipv6 \<subseteq> nm_held (net s')"
proof -
  obtain items w where l: "list_configs k (world s) = (Inr items, w)"
    using assms(1) AllocateAndAssign_list_fails [of k s _ _ hc svc]
    by (metis Inl_Inr_False prod.exhaust prod.inject sum.exhaust)
  have "x \<notin> nm_held (net s) \<and> v6_set ipv6 \<inter> insert x (nm_held (net s)) = {}
    \<and> insert x (nm_held (net s)) \<union> v6_set ipv6 \<subseteq> nm_held (net s')"
    using l
  proof (cases rule: AllocateAndAssign_cases [where hc = hc and svc = svc])
    case (assigned y m1 z m2 w')
    then have xy: "y = x" "z = ipv6" "net s' = m2" using assms(1) by auto
    note a4 = assigned(1) [unfolded xy] and a6 = assigned(2) [unfolded xy]
    show ?thesis
      using allocateIP_Inr [OF a4] allocateIP_fresh [OF a4] allocate_v6_Inr(1) [OF a6] allocate_v6_fresh [OF a6] xy(3) assms(2)
      by (auto simp: held_mark_others)
  qed (use assms(1) in auto)
  then show "x \<notin> nm_held (net s)" "v6_set ipv6 \<inter> insert x (nm_held (net s)) = {}"
    "insert x (nm_held (net s)) \<union> v6_set ipv6 \<subseteq> nm_held (net s')" by auto
qed

lemma status_ips_active: "status_ips (active_status k n x ipv6 hc) \<subseteq> status_ips hc \<union> {x} \<union> v6_set ipv6"
  using values_map_set [of n x "AllocatedIPs (Status hc)"] values_map_set [of n ipv6 "AllocatedIPv6s (Status hc)"]
  by (cases "ipv6 = []") (auto simp: status_ips_def v6_set_def)

lemma recorded_ok_grant:
  assumes "recorded_ok hc s" "AllocateAndAssign k hc svc s = (Inr (x, ipv6), s')" "plain_ranges hc"
  shows "recorded_ok (active_status k n x ipv6 hc) s'"
proof -
  note t = AllocateAndAssign_ok_takes [OF assms(2,3)]
  let ?l4 = "AllocatedIPs (Status hc)" and ?l6 = "AllocatedIPv6s (Status hc)"
  have old: "distinct (map snd ?l4)" "distinct (map snd ?l6)" "snd ` set ?l4 \<inter> snd ` set ?l6 = {}"
    using assms(1) unfolding recorded_ok_def map_append distinct_append set_map by blast+
  have held: "snd ` set ?l4 \<subseteq> nm_held (net s)" "snd ` set ?l6 \<subseteq> nm_held (net s)"
    using assms(1) unfolding recorded_ok_def status_ips_def by blast+
  have d4: "distinct (map snd (map_set n x ?l4))" using distinct_values_map_set [OF old(1)] t(1) held(1) by blast
  have disj: "snd ` set (map_set n x ?l4) \<inter> (snd ` set ?l6 \<union> v6_set ipv6) = {}"
    by (rule insert_fresh_disjoint [OF values_map_set old(3) t(1,2) held])
  have "distinct (map snd (map_set n x ?l4 @ (if ipv6 \<noteq> [] then map_set n ipv6 ?l6 else ?l6)))"
  proof (cases "ipv6 = []")
    case True
    with d4 old(2) disj show ?thesis by (simp add: v6_set_def)
  next
    case False
    then have v6: "v6_set ipv6 = {ipv6}" by (simp add: v6_set_def)
    have "ipv6 \<notin> snd ` set ?l6" using t(2) held(2) unfolding v6 by blast
    then have "distinct (map snd (map_set n ipv6 ?l6))" by (rule distinct_values_map_set [OF old(2)])
    moreover have "snd ` set (map_set n x ?l4) \<inter> snd ` set (map_set n ipv6 ?l6) = {}"
      using disj values_map_set [of n ipv6 ?l6] unfolding v6 by (metis Int_mono Un_insert_right order_refl subset_empty sup_bot_right)
    ultimately show ?thesis using d4 False by simp
  qed
  then have "distinct (map snd (AllocatedIPs (Status (active_status k n x ipv6 hc)) @
      AllocatedIPv6s (Status (active_status k n x ipv6 hc))))"
    by (simp only: active_status_simps)
  moreover have "status_ips (active_status k n x ipv6 hc) \<subseteq> nm_held (net s')"
    using status_ips_active [of k n x ipv6 hc] t(3) assms(1) unfolding recorded_ok_def by blast
  ultimately show ?thesis unfolding recorded_ok_def ..
qed

lemma recorded_ok_cong:
  "recorded_ok hc s \<Longrightarrow> AllocatedIPs (Status hc') = AllocatedIPs (Status hc) \<Longrightarrow> AllocatedIPv6s (Status hc') = AllocatedIPv6s (Status hc)
   \<Longrightarrow> nm_held (net s) \<subseteq> nm_held (net s') \<Longrightarrow> recorded_ok hc' s'"
  by (auto simp: recorded_ok_def status_ips_def)

lemma process_services_recorded:
  assumes "echoes k" "recorded_ok hc s" "plain_ranges hc"
  shows "recorded_ok (fst (snd (process_services k svcs hc s))) (snd (snd (process_services k svcs hc s)))"
proof -
  let ?I = "\<lambda>hc s. recorded_ok hc s \<and> plain_ranges hc"
  have "?I (fst (snd (process_services k svcs hc s))) (snd (snd (process_services k svcs hc s)))"
  proof (rule process_services_inv [where I = ?I])
    fix hc s svc err s1 ev e hc2 s3 n ns why
    assume i: "?I hc s" and a: "AllocateAndAssign k hc svc s = (Inl err, s1)"
      and u: "status_update k (failed_status k err hc) (emit ev s1) = (e, hc2, s3)"
    then show "?I hc2 (record_metrics (RecordRequeueReason n ns why) s3)"
      using status_update_echo [OF assms(1) u] AllocateAndAssign_fail_keeps [OF a]
        recorded_ok_cong [of hc s hc2 "record_metrics (RecordRequeueReason n ns why) s3"] by simp
  next
    fix hc s svc x ipv6 s1 ev e hc2 s3
    assume i: "?I hc s" and a: "AllocateAndAssign k hc svc s = (Inr (x, ipv6), s1)"
      and u: "status_update k (active_status k (Svc_Name svc) x ipv6 hc) (emit ev s1) = (e, hc2, s3)"
    then show "?I hc2 s3"
      using status_update_echo [OF assms(1) u] recorded_ok_grant [OF _ a, of "Svc_Name svc" for k]
        recorded_ok_cong [of "active_status k (Svc_Name svc) x ipv6 hc" s1 hc2 s3] by simp
  next
    fix hc s ev
    assume "?I hc s" then show "?I hc (emit ev s)" by (simp add: recorded_ok_def)
  qed (use assms in auto)
  then show ?thesis by blast
qed

section \<open>A whole reconciliation\<close>

lemma process_services_spec:
  assumes "echoes k"
  shows "Spec (fst (snd (process_services k svcs hc s))) = Spec hc"
proof (rule process_services_inv [where I = "\<lambda>c s. Spec c = Spec hc"])
  fix c s svc err s1 ev e c2 s3 n ns why
  assume "Spec c = Spec hc" "status_update k (failed_status k err c) (emit ev s1) = (e, c2, s3)"
  then show "Spec c2 = Spec hc" using status_update_echo [OF assms] by fastforce
next
  fix c s svc x ipv6 s1 ev e c2 s3
  assume "Spec c = Spec hc" "status_update k (active_status k (Svc_Name svc) x ipv6 c) (emit ev s1) = (e, c2, s3)"
  then show "Spec c2 = Spec hc" using status_update_echo [OF assms] by fastforce
qed simp_all

text \<open>The three ways through \<open>reconcile_services\<close>: an API error, a conflict, or the loop.\<close>

lemma reconcile_services_cases:
  obtains (stops) err s' where "reconcile_services k hc s = ((\<lparr>RequeueAfter = 0\<rparr>, Some err), hc, s')" "net s' = net s" "metrics s' = metrics s"
  | (conflict) n s1 where "reconcile_services k hc s = conflict_return k n hc s1" "net s1 = net s" "metrics s1 = metrics s"
  | (loop) svcs s1 ret ops where
      "reconcile_services k hc s = (ret, fst (snd (process_services k svcs hc s1)), record_metrics ops (snd (snd (process_services k svcs hc s1))))"
      "net s1 = net s" "ret = (case fst (process_services k svcs hc s1) of None \<Rightarrow> (\<lparr>RequeueAfter = 5\<rparr>, None) | Some r \<Rightarrow> r)"
      "ops = [] \<or> (\<exists>n ns. ops = RecordRequeueReason n ns ''periodic'')" "metrics s1 = metrics s"
proof (cases "list_services k (world s)")
  case (Pair r w)
  let ?s = "s\<lparr>world := w\<rparr>"
  obtain c s1 where c: "CheckIPConflicts k hc ?s = (c, s1)" by fastforce
  have net: "net s1 = net s" "metrics s1 = metrics s" using CheckIPConflicts_keeps [of k hc ?s] c by simp_all
  show thesis
  proof (cases r)
    case (Inl err)
    with Pair show thesis by (intro stops [of "ApiError err" ?s]) (simp_all add: reconcile_services_def)
  next
    case services: (Inr services)
    show thesis
    proof (cases c)
      case (Inl err)
      with Pair services c net show thesis by (intro stops [of err s1]) (simp_all add: reconcile_services_def)
    next
      case (Inr conflicts)
      let ?svcs = "FilterEligibleServices services (NamespaceSelector (Spec hc)) (IPRange (Spec hc)) [IPv6Range (Spec hc)]"
      obtain p hc2 s2 where p: "process_services k ?svcs hc s1 = (p, hc2, s2)" by (metis prod_cases3)
      show thesis
      proof (cases "conflicts = []")
        case False
        with Pair services c net Inr show thesis
          by (intro conflict [of "length conflicts" s1]) (simp_all add: reconcile_services_def)
      next
        case True
        let ?ops = "if p = None then RecordRequeueReason (Name (Meta hc2)) (Namespace (Meta hc2)) ''periodic'' else []"
        show thesis
          by (rule loop [of "case p of None \<Rightarrow> (\<lparr>RequeueAfter = 5\<rparr>, None) | Some r \<Rightarrow> r" ?svcs s1 ?ops]; use Pair services c net Inr p True in
              \<open>cases p; auto simp: reconcile_services_def record_metrics_def\<close>)
      qed
    qed
  qed
qed

lemma conflict_return_echo:
  assumes "echoes k"
  shows "Spec (fst (snd (conflict_return k n hc s))) = Spec hc"
    "AllocatedIPs (Status (fst (snd (conflict_return k n hc s)))) = AllocatedIPs (Status hc)"
    "AllocatedIPv6s (Status (fst (snd (conflict_return k n hc s)))) = AllocatedIPv6s (Status hc)"
  using status_update_echo [OF assms, of "set_cond k ConditionTypeDegraded ''True'' ReasonIPConflict
      (MsgCount ''IP range conflicts with %d allocated IP(s) from other configs'' n) hc" "emit (IPConflict n) s"]
  by (simp_all add: conflict_return_def Let_def split_beta) (metis prod.collapse set_cond_simps)+

lemma ensure_finalizer_echo:
  assumes "echoes k" "ensure_finalizer k hc s = (e, hc', s')"
  shows "Spec hc' = Spec hc \<and> AllocatedIPs (Status hc') = AllocatedIPs (Status hc)
    \<and> AllocatedIPv6s (Status hc') = AllocatedIPv6s (Status hc) \<and> net s' = net s"
proof (cases "ContainsFinalizer k (Finalizers (Meta hc)) heliosConfigFinalizer")
  case True
  then show ?thesis using assms(2) by (simp add: ensure_finalizer_def)
next
  case False
  let ?hc = "hc\<lparr>Meta := (Meta hc)\<lparr>Finalizers := AddFinalizer k (Finalizers (Meta hc)) heliosConfigFinalizer\<rparr>\<rparr>"
  obtain e1 hc1 s1 where u: "object_update k ?hc s = (e1, hc1, s1)" by (metis prod_cases3)
  note u' = object_update_echo [OF assms(1) u]
  show ?thesis
  proof (cases e1)
    case None
    with False u assms(2) have "status_update k (set_cond k ConditionTypeReady ''False'' ReasonInitializing
        (MsgText ''HeliosConfig is initializing'') hc1) s1 = (e, hc', s')"
      by (simp add: ensure_finalizer_def)
    from status_update_echo [OF assms(1) this] u' show ?thesis by simp
  next
    case (Some err)
    with False u u' assms(2) show ?thesis by (simp add: ensure_finalizer_def)
  qed
qed

lemma handleDeletion_echo:
  assumes "echoes k" "handleDeletion k hc s = (e, hc', s')"
  shows "Spec hc' = Spec hc \<and> Status hc' = Status hc"
proof (cases "ContainsFinalizer k (Finalizers (Meta hc)) heliosConfigFinalizer")
  case True
  let ?hc = "hc\<lparr>Meta := (Meta hc)\<lparr>Finalizers := RemoveFinalizer k (Finalizers (Meta hc)) heliosConfigFinalizer\<rparr>\<rparr>"
  let ?s = "ReleaseAll k hc (emit (CleanupStarted (length (AllocatedIPs (Status hc)))) s)"
  obtain e1 hc1 s1 where u: "object_update k ?hc ?s = (e1, hc1, s1)" by (metis prod_cases3)
  with True assms(2) object_update_echo [OF assms(1) u] show ?thesis
    by (cases e1) (auto simp: handleDeletion_def Let_def)
qed (use assms(2) in \<open>simp add: handleDeletion_def\<close>)

lemma reconcile_services_quota:
  assumes "echoes k" "within_quota hc" "0 < sint (MaxAllocations (Spec hc))"
  shows "within_quota (fst (snd (reconcile_services k hc s))) \<and> Spec (fst (snd (reconcile_services k hc s))) = Spec hc"
proof (cases rule: reconcile_services_cases [of k hc s])
  case (loop svcs s1 ret ops)
  then show ?thesis using process_services_quota [OF assms] process_services_spec [OF assms(1)] by simp
qed (use assms conflict_return_echo [OF assms(1)] in \<open>simp_all add: within_quota_def\<close>)

lemma reconcile_services_recorded:
  assumes "echoes k" "recorded_ok hc s" "plain_ranges hc"
  shows "recorded_ok (fst (snd (reconcile_services k hc s))) (snd (snd (reconcile_services k hc s)))"
proof (cases rule: reconcile_services_cases [of k hc s])
  case (stops err s')
  then show ?thesis using assms(2) by (simp add: recorded_ok_def)
next
  case (conflict n s1)
  then show ?thesis
    using assms(2) conflict_return_echo [OF assms(1)] conflict_return_simps(2) [of k n hc s1]
    by (simp add: recorded_ok_def status_ips_def)
next
  case (loop svcs s1 ret ops)
  have "recorded_ok hc s1" using assms(2) loop(2) by (simp add: recorded_ok_def)
  from process_services_recorded [OF assms(1) this assms(3), of svcs] loop(1) show ?thesis by (simp add: recorded_ok_def)
qed

section \<open>The concrete client\<close>

lemma demo_echoes: "echoes (demo_k8s b)"
  by (simp add: echoes_def demo_k8s_def)

lemma demo_config_simps [simp]:
  "AllocatedIPs (Status (demo_config nm r r6 ips)) = ips" "AllocatedIPv6s (Status (demo_config nm r r6 ips)) = []"
  "IPRange (Spec (demo_config nm r r6 ips)) = r" "IPv6Range (Spec (demo_config nm r r6 ips)) = r6"
  "MaxAllocations (Spec (demo_config nm r r6 ips)) = 1" "NamespaceSelector (Spec (demo_config nm r r6 ips)) = []"
  "Name (Meta (demo_config nm r r6 ips)) = nm" "Namespace (Meta (demo_config nm r r6 ips)) = ''default''"
  by (simp_all add: demo_config_def)

lemma demo_service_simps [simp]:
  "Svc_Name (demo_service nm q) = nm" "LoadBalancerIP (demo_service nm q) = q"
  by (simp_all add: demo_service_def)

lemma demo_recorded: "recorded_ok (demo_config nm r r6 []) s"
  by (simp add: recorded_ok_def status_ips_def)

lemma demo_plain: "plain_ranges (demo_config nm ''10.0.0.0/29'' [] ips)"
  using single_examples by simp

lemma process_services_ret:
  "fst (process_services k svcs hc s) = Some r \<Longrightarrow> (\<exists>err. r = (\<lparr>RequeueAfter = 0\<rparr>, Some err)) \<or> r = (\<lparr>RequeueAfter = 10\<rparr>, None)"
proof (induction svcs arbitrary: hc s)
  case (Cons svc svcs)
  then show ?case
    by (fastforce simp: Let_def split: if_splits prod.splits sum.splits option.splits)
qed simp

lemma release_ips_events: "events (snd (release_ips ips (names, s))) = events s"
  unfolding release_ips_def by (induction ips arbitrary: names s) auto

lemma ReleaseAll_events: "events (ReleaseAll k hc s) = events s"
proof -
  let ?r = "release_ips (AllocatedIPs (Status hc)) ([], s)"
  have "events (ReleaseAll k hc s) = events (snd (release_ips (AllocatedIPv6s (Status hc)) (fst ?r, snd ?r)))"
    by (simp add: ReleaseAll_def split_beta Let_def)
  then show ?thesis unfolding release_ips_events .
qed

lemma release_ips_emit: "release_ips ips (names, emit e s) = apsnd (emit e) (release_ips ips (names, s))"
  unfolding release_ips_def
proof (induction ips arbitrary: names s)
  case (Cons p ips)
  obtain n x where p: "p = (n, x)" by (cases p)
  let ?s = "s\<lparr>net := nm_ReleaseIP (net s) x, metrics := metrics s @ RecordIPAllocation x False\<rparr>"
  have "(emit e s)\<lparr>net := nm_ReleaseIP (net (emit e s)) x, metrics := metrics (emit e s) @ RecordIPAllocation x False\<rparr> = emit e ?s"
    by (simp add: emit_def)
  then show ?case using Cons.IH [of "map_set n True names" ?s] p by simp
qed simp

lemma ReleaseAll_emit: "ReleaseAll k hc (emit e s) = emit e (ReleaseAll k hc s)"
  by (simp add: ReleaseAll_def release_ips_emit apsnd_def map_prod_def split_beta Let_def) (simp add: emit_def)

lemma process_services_passed:
  assumes "process_services k (svc # svcs) hc s = (None, hc', s')" "CheckQuota hc = None"
  obtains x ipv6 s1 ev hc2 s3 where "AllocateAndAssign k hc svc s = (Inr (x, ipv6), s1)"
    "status_update k (active_status k (Svc_Name svc) x ipv6 hc) (emit ev s1) = (None, hc2, s3)"
    "process_services k svcs hc2 s3 = (None, hc', s')"
proof -
  obtain r s1 where r: "AllocateAndAssign k hc svc s = (r, s1)" by fastforce
  show thesis
  proof (cases r)
    case (Inl err)
    with assms r show thesis by (simp add: Let_def split_beta)
  next
    case (Inr p)
    obtain x ipv6 where p: "p = (x, ipv6)" by (cases p)
    let ?ev = "if ipv6 \<noteq> [] then DualStackAllocated x ipv6 (Svc_Namespace svc) (Svc_Name svc)
             else IPAllocated x (Svc_Namespace svc) (Svc_Name svc)"
    obtain e hc2 s3 where u: "status_update k (active_status k (Svc_Name svc) x ipv6 hc) (emit ?ev s1) = (e, hc2, s3)"
      by (metis prod_cases3)
    have "e = None \<and> process_services k svcs hc2 s3 = (None, hc', s')"
      using assms r Inr p u by (cases e) (simp_all add: Let_def)
    then show thesis using that r Inr p u by blast
  qed
qed

section \<open>Properties\<close>



text \<open>C5: the addresses that the status records are different from each other and held by the pool, before and after the
  reconciliation of the services, on ranges of more than one address.\<close>

theorem recorded_addresses_distinct:
  assumes "echoes k" "distinct (map snd (AllocatedIPs (Status hc) @ AllocatedIPv6s (Status hc)))"
    "status_ips hc \<subseteq> held (ipAllocator (net s))" "\<not> single_range (IPRange (Spec hc))" "\<not> single_range (IPv6Range (Spec hc))"
    "reconcile_services k hc s = (ret, hc', s')"
  shows "distinct (map snd (AllocatedIPs (Status hc') @ AllocatedIPv6s (Status hc')))
    \<and> status_ips hc' \<subseteq> held (ipAllocator (net s'))"
  using reconcile_services_recorded [OF assms(1), of hc s] assms(2-6) by (simp add: recorded_ok_def)

theorem recorded_addresses_distinct_witness:
  "status_ips (fst (snd (reconcile_services (demo_k8s False) (demo_config ''a'' ''10.0.0.0/29'' [] [])
     (demo_ctl [] [demo_service ''web'' []] NewNetworkManager)))) \<subseteq>
   held (ipAllocator (net (snd (snd (reconcile_services (demo_k8s False) (demo_config ''a'' ''10.0.0.0/29'' [] [])
     (demo_ctl [] [demo_service ''web'' []] NewNetworkManager))))))"
proof -
  let ?c = "demo_config ''a'' ''10.0.0.0/29'' [] []"
  let ?r = "reconcile_services (demo_k8s False) ?c (demo_ctl [] [demo_service ''web'' []] NewNetworkManager)"
  have r: "?r = (fst ?r, fst (snd ?r), snd (snd ?r))" by simp
  show ?thesis
    using recorded_addresses_distinct [OF demo_echoes _ _ _ _ r] demo_plain demo_recorded
    by (simp add: recorded_ok_def status_ips_def)
qed

text \<open>C19: every end of the reconciliation of a configuration that is not being deleted leads to another one: it is an
  error, which the caller retries, or it asks to be called again after 5, 10 or 30 seconds.\<close>

theorem reconcile_always_retried:
  "(\<exists>err. fst (reconcile_services k hc s) = (\<lparr>RequeueAfter = 0\<rparr>, Some err))
   \<or> fst (reconcile_services k hc s) = (\<lparr>RequeueAfter = 5\<rparr>, None)
   \<or> fst (reconcile_services k hc s) = (\<lparr>RequeueAfter = 10\<rparr>, None)
   \<or> fst (reconcile_services k hc s) = (\<lparr>RequeueAfter = 30\<rparr>, None)"
proof (cases rule: reconcile_services_cases [of k hc s])
  case (loop svcs s1 ret ops)
  then show ?thesis using process_services_ret [of k svcs hc s1] by (cases "fst (process_services k svcs hc s1)") auto
qed (simp_all add: conflict_return_simps)

text \<open>As long as another configuration records an address that lies in the IPv4 range of this one, no service is given an
  address: the pool stays as it is, the only metric is the requeue reason, and the reconciliation comes back after 30
  seconds.\<close>

lemma conflict_blocks_services:
  assumes "list_services k (world s) = (Inr services, w)" "list_configs k w = (Inr items, w')" "other \<in> set items"
    "\<not> same_config other hc" "x \<in> snd ` set (AllocatedIPs (Status other))" "IPInRange x (IPRange (Spec hc))"
  shows "\<exists>hc' s'. reconcile_services k hc s = ((\<lparr>RequeueAfter = 30\<rparr>, None), hc', s') \<and> net s' = net s
    \<and> metrics s' = metrics s @ RecordRequeueReason (Name (Meta hc')) (Namespace (Meta hc')) ''ip_conflict''"
proof -
  have "x \<in> fst ` set (collect_conflicts hc items)"
    unfolding collect_conflicts_keys using assms(3-6) by (auto simp: conflicting_def)
  then have "0 < length (collect_conflicts hc items)" by auto
  then show ?thesis
    using assms(1,2) by (simp add: reconcile_services_def CheckIPConflicts_def conflict_return_def Let_def split_beta)
qed

text \<open>C18: the deletion of a configuration that has the finalizer takes exactly its recorded addresses out of the pool and then asks
  the server to store the configuration without the finalizer.  When the server refuses, its error is returned and the event of a
  failed cleanup is emitted; when it agrees, the result is success with the event of a complete cleanup.\<close>

theorem handleDeletion_releases:
  assumes "ContainsFinalizer k (Finalizers (Meta hc)) heliosConfigFinalizer" "handleDeletion k hc s = (err, hc', s')"
  shows "held (ipAllocator (net s')) = held (ipAllocator (net s)) - status_ips hc
    \<and> (case update_config k (world (ReleaseAll k hc s))
          (hc\<lparr>Meta := (Meta hc)\<lparr>Finalizers := RemoveFinalizer k (Finalizers (Meta hc)) heliosConfigFinalizer\<rparr>\<rparr>) of
         (Inl e, w) \<Rightarrow> err = Some (ApiError e) \<and> world s' = w
           \<and> events s' = events s @ [CleanupStarted (length (AllocatedIPs (Status hc))), CleanupFailed (ApiError e)]
       | (Inr stored, w) \<Rightarrow> err = None \<and> hc' = stored \<and> world s' = w
           \<and> events s' = events s @ [CleanupStarted (length (AllocatedIPs (Status hc))), CleanupComplete])"
proof -
  let ?s = "ReleaseAll k hc s" and ?e = "CleanupStarted (length (AllocatedIPs (Status hc)))"
  let ?hc = "hc\<lparr>Meta := (Meta hc)\<lparr>Finalizers := RemoveFinalizer k (Finalizers (Meta hc)) heliosConfigFinalizer\<rparr>\<rparr>"
  obtain r w where u: "update_config k (world ?s) ?hc = (r, w)" by fastforce
  have held: "held (ipAllocator (net ?s)) = held (ipAllocator (net s)) - status_ips hc" and ev: "events ?s = events s"
    by (rule held_ReleaseAll) (rule ReleaseAll_events)
  show ?thesis
  proof (cases r)
    case (Inl e)
    have "handleDeletion k hc s = (Some (ApiError e), ?hc, emit (CleanupFailed (ApiError e)) ((emit ?e ?s)\<lparr>world := w\<rparr>))"
      unfolding handleDeletion_def Let_def ReleaseAll_emit object_update_def using assms(1) u Inl by simp
    then have "err = Some (ApiError e)" "s' = emit (CleanupFailed (ApiError e)) ((emit ?e ?s)\<lparr>world := w\<rparr>)"
      using assms(2) by simp_all
    then show ?thesis unfolding u Inl by (simp add: emit_def held ev)
  next
    case (Inr stored)
    have "handleDeletion k hc s = (None, stored, emit CleanupComplete ((emit ?e ?s)\<lparr>world := w\<rparr>))"
      unfolding handleDeletion_def Let_def ReleaseAll_emit object_update_def using assms(1) u Inr by simp
    then have "err = None" "hc' = stored" "s' = emit CleanupComplete ((emit ?e ?s)\<lparr>world := w\<rparr>)"
      using assms(2) by simp_all
    then show ?thesis unfolding u Inr by (simp add: emit_def held ev)
  qed
qed

theorem handleDeletion_releases_witness:
  "held (ipAllocator (net (snd (snd (handleDeletion (demo_k8s False)
     ((demo_config ''a'' ''10.0.0.0/29'' [] [(''web'', ''10.0.0.1'')])\<lparr>Meta := \<lparr>Name = ''a'', Namespace = ''default'', Generation = 1,
        DeletionTimestamp = Some 1, Finalizers = [heliosConfigFinalizer]\<rparr>\<rparr>)
     (demo_ctl [] [] (nm_MarkUsed NewNetworkManager ''10.0.0.1''))))))) = {}
   \<and> Finalizers (Meta (fst (snd (handleDeletion (demo_k8s False)
     ((demo_config ''a'' ''10.0.0.0/29'' [] [(''web'', ''10.0.0.1'')])\<lparr>Meta := \<lparr>Name = ''a'', Namespace = ''default'', Generation = 1,
        DeletionTimestamp = Some 1, Finalizers = [heliosConfigFinalizer]\<rparr>\<rparr>)
     (demo_ctl [] [] (nm_MarkUsed NewNetworkManager ''10.0.0.1'')))))) = []"
proof -
  let ?c = "(demo_config ''a'' ''10.0.0.0/29'' [] [(''web'', ''10.0.0.1'')])\<lparr>Meta := \<lparr>Name = ''a'', Namespace = ''default'',
    Generation = 1, DeletionTimestamp = Some 1, Finalizers = [heliosConfigFinalizer]\<rparr>\<rparr>"
  let ?s = "demo_ctl [] [] (nm_MarkUsed NewNetworkManager ''10.0.0.1'')"
  let ?r = "handleDeletion (demo_k8s False) ?c ?s"
  have r: "?r = (fst ?r, fst (snd ?r), snd (snd ?r))" by simp
  have fin: "ContainsFinalizer (demo_k8s False) (Finalizers (Meta ?c)) heliosConfigFinalizer" by (simp add: demo_k8s_def)
  have held: "held (ipAllocator (net ?s)) = {''10.0.0.1''}" "status_ips ?c = {''10.0.0.1''}"
    by (simp_all add: demo_ctl_def nm.mark_takes status_ips_def NewNetworkManager_def)
  let ?d = "?c\<lparr>Meta := (Meta ?c)\<lparr>Finalizers := RemoveFinalizer (demo_k8s False) (Finalizers (Meta ?c)) heliosConfigFinalizer\<rparr>\<rparr>"
  have up: "\<exists>w'. update_config (demo_k8s False) w ?d = (Inr ?d, w')" for w unfolding demo_k8s_def by simp
  obtain w' where u: "update_config (demo_k8s False) (world (ReleaseAll (demo_k8s False) ?c ?s)) ?d = (Inr ?d, w')"
    using up by blast
  have "fst (snd ?r) = ?d" "held (ipAllocator (net (snd (snd ?r)))) = {}"
    using handleDeletion_releases [OF fin r] unfolding u held by simp_all
  moreover have "Finalizers (Meta ?d) = []" by (simp add: demo_k8s_def)
  ultimately show ?thesis by (simp only:)
qed

text \<open>C37: two services of the same name in different namespaces share one entry of the status.  When both get their
  addresses in one reconciliation, the first address is in no entry, and the cleanup of the configuration leaves it in
  the pool for good.\<close>

theorem name_collision_leaks:
  assumes "echoes k" "process_services k [svc1, svc2] hc s = (None, hc', s')" "Svc_Name svc1 = Svc_Name svc2"
    "sint (MaxAllocations (Spec hc)) \<le> 0" "\<not> single_range (IPRange (Spec hc))" "\<not> single_range (IPv6Range (Spec hc))"
    "status_ips hc \<subseteq> held (ipAllocator (net s))"
  shows "\<exists>x. x \<notin> held (ipAllocator (net s)) \<and> x \<notin> status_ips hc' \<and> x \<in> held (ipAllocator (net (ReleaseAll k hc' s')))"
proof -
  have quota: "CheckQuota c = None" if "Spec c = Spec hc" for c :: "'b config"
    using that assms(4) by (simp add: CheckQuota_def Let_def word_sless_alt)
  obtain x1 v1 s1 ev1 hc1 t1 where 1: "AllocateAndAssign k hc svc1 s = (Inr (x1, v1), s1)"
    "status_update k (active_status k (Svc_Name svc1) x1 v1 hc) (emit ev1 s1) = (None, hc1, t1)"
    "process_services k [svc2] hc1 t1 = (None, hc', s')"
    using process_services_passed [OF assms(2) quota] by blast
  note u1 = status_update_echo [OF assms(1) 1(2)]
  then have spec1: "Spec hc1 = Spec hc" by simp
  obtain x2 v2 s2 ev2 hc2 t2 where 2: "AllocateAndAssign k hc1 svc2 t1 = (Inr (x2, v2), s2)"
    "status_update k (active_status k (Svc_Name svc2) x2 v2 hc1) (emit ev2 s2) = (None, hc2, t2)"
    "process_services k [] hc2 t2 = (None, hc', s')"
    using process_services_passed [OF 1(3) quota [OF spec1]] by blast
  note u2 = status_update_echo [OF assms(1) 2(2)]
  have end_state: "hc' = hc2" "s' = t2" using 2(3) by simp_all
  have p: "plain_ranges hc" and p1: "plain_ranges hc1" using assms(5,6) spec1 by simp_all
  note a1 = AllocateAndAssign_ok_takes [OF 1(1) p] and a2 = AllocateAndAssign_ok_takes [OF 2(1) p1]
  have net: "net t1 = net s1" "net s' = net s2" using u1 u2 end_state by simp_all
  let ?n = "Svc_Name svc2"
  have "AllocatedIPs (Status hc') = map_set ?n x2 (AllocatedIPs (Status hc))"
    using u1 u2 end_state assms(3) by (simp add: map_set_overwrite)
  then have v4: "snd ` set (AllocatedIPs (Status hc')) \<subseteq> insert x2 (snd ` set (AllocatedIPs (Status hc)))"
    by (simp add: values_map_set)
  have v6: "snd ` set (AllocatedIPv6s (Status hc')) \<subseteq> snd ` set (AllocatedIPv6s (Status hc1)) \<union> v6_set v2"
    "snd ` set (AllocatedIPv6s (Status hc1)) \<subseteq> snd ` set (AllocatedIPv6s (Status hc)) \<union> v6_set v1"
    using u1 u2 end_state values_map_set [of ?n v2 "AllocatedIPv6s (Status hc1)"]
      values_map_set [of "Svc_Name svc1" v1 "AllocatedIPv6s (Status hc)"] by (auto simp: v6_set_def)
  have "A' \<union> C' \<subseteq> A \<union> C \<union> V1 \<union> {x} \<union> V2"
    if "A' \<subseteq> insert x A" "C' \<subseteq> B \<union> V2" "B \<subseteq> C \<union> V1" for A A' B C C' V1 V2 :: "string set" and x
    using that by blast
  from this [OF v4 v6] have "status_ips hc' \<subseteq> status_ips hc \<union> v6_set v1 \<union> {x2} \<union> v6_set v2"
    unfolding status_ips_def .
  moreover have x1: "x1 \<in> nm_held (net s1)" using a1(3) by simp
  moreover have "x1 \<notin> status_ips hc" "x1 \<notin> v6_set v1" using a1(1,2) assms(7) by auto
  moreover have "x1 \<noteq> x2" "x1 \<notin> v6_set v2" using a2(1,2) x1 unfolding net(1) by auto
  ultimately have "x1 \<notin> status_ips hc'" by blast
  moreover have "x1 \<in> nm_held (net s')" using a2(3) x1 unfolding net by auto
  ultimately show ?thesis using a1(1) by (auto simp: held_ReleaseAll)
qed

theorem name_collision_leaks_witness:
  "\<exists>x. x \<in> held (ipAllocator (net (let (_, hc', s') = process_services (demo_k8s False)
       [demo_service ''web'' [], (demo_service ''web'' [])\<lparr>Svc_Namespace := ''other''\<rparr>]
       ((demo_config ''a'' ''10.0.0.0/29'' [] [])\<lparr>Spec := (Spec (demo_config ''a'' ''10.0.0.0/29'' [] []))\<lparr>MaxAllocations := 0\<rparr>\<rparr>)
       (demo_ctl [] [demo_service ''web'' [], (demo_service ''web'' [])\<lparr>Svc_Namespace := ''other''\<rparr>] NewNetworkManager)
     in ReleaseAll (demo_k8s False) hc' s')))"
proof -
  let ?d = "demo_config ''a'' ''10.0.0.0/29'' [] []"
  let ?c = "?d\<lparr>Spec := (Spec ?d)\<lparr>MaxAllocations := 0\<rparr>\<rparr>"
  let ?svc1 = "demo_service ''web'' []" and ?svc2 = "(demo_service ''web'' [])\<lparr>Svc_Namespace := ''other''\<rparr>"
  let ?s = "demo_ctl [] [?svc1, ?svc2] NewNetworkManager"
  let ?p = "process_services (demo_k8s False) [?svc1, ?svc2] ?c ?s"
  let ?m1 = "\<lparr>ipAllocator = take_ip NewIPAllocator ''10.0.0.1''\<rparr>"
  have second: "nm_AllocateIP ?m1 ''10.0.0.0/29'' =
      (Inr ''10.0.0.2'', \<lparr>ipAllocator = take_ip (take_ip NewIPAllocator ''10.0.0.1'') ''10.0.0.2''\<rparr>)"
    by (simp add: nm_AllocateIP_def range_10_29 go_eval del: ParseIPRange_def)
  have "fst ?p = None"
    by (simp add: AllocateAndAssign_def mark_others_def splitRequestedIP_Nil allocateIP_def allocate_v6_def nm_AllocateIP_new second
        assignIPToService_def assign_once_def status_update_def CheckQuota_def demo_k8s_def demo_ctl_def emit_def Let_def demo_service_def)
  then have p: "?p = (None, fst (snd ?p), snd (snd ?p))" by (metis prod.collapse)
  have "\<exists>x. x \<in> held (ipAllocator (net (ReleaseAll (demo_k8s False) (fst (snd ?p)) (snd (snd ?p)))))"
    using name_collision_leaks [OF demo_echoes p] single_examples by (auto simp: status_ips_def)
  then show ?thesis by (simp add: split_beta)
qed

end
