(* ===== verification/Controller_Run.thy ===== *)
theory Controller_Run
  imports Reconciler_Properties
begin

text \<open>
  Runs of the controller: reconciliations (\<^verbatim>\<open>internal/controller/heliosconfig_controller.go\<close>) one after the other, from the
  empty pool that \<^verbatim>\<open>cmd/main.go\<close> builds, with other actors in between.  \<open>gauge_sound\<close>, which every step keeps, ties the metric of
  \<^verbatim>\<open>internal/metrics\<close> to the pool of \<^verbatim>\<open>internal/network\<close>.
\<close>

section \<open>The allocation metric\<close>

lemma gauge_value_append:
  "gauge_value v vals (ops @ ops') = (case gauge_value v vals ops' of Some x \<Rightarrow> Some x | None \<Rightarrow> gauge_value v vals ops)"
  by (induction v vals ops rule: gauge_value.induct) (auto split: option.splits)

abbreviation alloc_gauge :: "string \<Rightarrow> metric_op list \<Rightarrow> real option" where
  "alloc_gauge x ops \<equiv> gauge_value ipAllocationStatus [x] ops"

lemma alloc_gauge_ops [simp]:
  "alloc_gauge x (RecordIPAllocation y b) = (if y = x then Some (if b then 1 else 0) else None)"
  "alloc_gauge x (RecordRequeueReason n ns why) = None" "alloc_gauge x (deferred_metrics d hc) = None"
  by (auto simp: RecordIPAllocation_def RecordRequeueReason_def deferred_metrics_def RecordReconcileDuration_def RecordLBStatus_def
      RecordIPPoolUtilization_def vec_defs)

definition gauge_sound :: "('w, 'x) ctl \<Rightarrow> bool" where
  "gauge_sound s \<longleftrightarrow> (\<forall>x. alloc_gauge x (metrics s) = Some 1 \<longrightarrow> x \<in> nm_held (net s))"

lemma gauge_sound_keep:
  "gauge_sound s \<Longrightarrow> metrics s' = metrics s \<Longrightarrow> nm_held (net s) \<subseteq> nm_held (net s') \<Longrightarrow> gauge_sound s'"
  by (auto simp: gauge_sound_def)

lemma gauge_sound_simps [simp]:
  "gauge_sound (s\<lparr>world := w\<rparr>) = gauge_sound s" "gauge_sound (emit ev s) = gauge_sound s"
  "gauge_sound (record_metrics (RecordRequeueReason n ns why) s) = gauge_sound s"
  "gauge_sound (record_metrics (deferred_metrics d hc) s) = gauge_sound s" "gauge_sound (record_metrics [] s) = gauge_sound s"
  by (simp_all add: gauge_sound_def gauge_value_append)

lemma gauge_sound_update:
  "gauge_sound s \<Longrightarrow> status_update k c s = (e, c', s') \<Longrightarrow> gauge_sound s'"
  "gauge_sound s \<Longrightarrow> object_update k c s = (e, c', s') \<Longrightarrow> gauge_sound s'"
  by (auto simp: status_update_def object_update_def split: prod.splits sum.splits)

lemma AllocateAndAssign_metrics:
  "AllocateAndAssign k hc svc s = (Inl err, s') \<Longrightarrow> metrics s' = metrics s"
  "AllocateAndAssign k hc svc s = (Inr (x, ipv6), s') \<Longrightarrow>
     metrics s' = metrics s @ RecordIPAllocation x True @ (if ipv6 \<noteq> [] then RecordIPAllocation ipv6 True else [])"
  by (auto simp: AllocateAndAssign_def Let_def split: prod.splits sum.splits option.splits)

lemma gauge_sound_failed:
  "gauge_sound s \<Longrightarrow> AllocateAndAssign k hc svc s = (Inl err, s') \<Longrightarrow> plain_ranges hc \<Longrightarrow> gauge_sound s'"
  by (erule gauge_sound_keep) (auto dest: AllocateAndAssign_metrics(1) AllocateAndAssign_fail_keeps)

lemma gauge_sound_granted:
  assumes "gauge_sound s" "AllocateAndAssign k hc svc s = (Inr (x, ipv6), s')" "plain_ranges hc"
  shows "gauge_sound s'"
proof -
  have held: "insert x (nm_held (net s)) \<union> v6_set ipv6 \<subseteq> nm_held (net s')"
    using AllocateAndAssign_ok_takes(3) [OF assms(2,3)] .
  have "alloc_gauge y (metrics s') = Some 1 \<Longrightarrow> y = x \<or> y \<in> v6_set ipv6 \<or> alloc_gauge y (metrics s) = Some 1" for y
    unfolding AllocateAndAssign_metrics(2) [OF assms(2)]
    by (auto simp: gauge_value_append v6_set_def split: option.splits if_splits)
  then show ?thesis using assms(1) held unfolding gauge_sound_def by blast
qed

lemma process_services_gauge:
  assumes "echoes k" "gauge_sound s" "plain_ranges hc"
  shows "gauge_sound (snd (snd (process_services k svcs hc s)))"
proof -
  let ?I = "\<lambda>hc s. gauge_sound s \<and> plain_ranges hc"
  have "?I (fst (snd (process_services k svcs hc s))) (snd (snd (process_services k svcs hc s)))"
  proof (rule process_services_inv [where I = ?I])
    fix hc s svc err s1 ev e hc2 s3 n ns why
    assume i: "?I hc s" and a: "AllocateAndAssign k hc svc s = (Inl err, s1)"
      and u: "status_update k (failed_status k err hc) (emit ev s1) = (e, hc2, s3)"
    have "gauge_sound s3" using gauge_sound_update(1) [OF _ u] gauge_sound_failed [OF _ a] i by simp
    then show "?I hc2 (record_metrics (RecordRequeueReason n ns why) s3)" using status_update_echo [OF assms(1) u] i by simp
  next
    fix hc s svc x ipv6 s1 ev e hc2 s3
    assume i: "?I hc s" and a: "AllocateAndAssign k hc svc s = (Inr (x, ipv6), s1)"
      and u: "status_update k (active_status k (Svc_Name svc) x ipv6 hc) (emit ev s1) = (e, hc2, s3)"
    have "gauge_sound s3" using gauge_sound_update(1) [OF _ u] gauge_sound_granted [OF _ a] i by simp
    then show "?I hc2 s3" using status_update_echo [OF assms(1) u] i by simp
  qed (use assms in auto)
  then show ?thesis by blast
qed

lemma release_ips_gauge: "gauge_sound s \<Longrightarrow> gauge_sound (snd (release_ips ips (names, s)))"
  unfolding release_ips_def
proof (induction ips arbitrary: names s)
  case (Cons p ips)
  obtain n x where p: "p = (n, x)" by (cases p)
  have "gauge_sound (s\<lparr>net := nm_ReleaseIP (net s) x, metrics := metrics s @ RecordIPAllocation x False\<rparr>)"
    using Cons.prems by (auto simp: gauge_sound_def gauge_value_append nm.release_frees split: if_splits)
  then show ?case using Cons.IH p by simp
qed simp

lemma ReleaseAll_gauge: "gauge_sound s \<Longrightarrow> gauge_sound (ReleaseAll k hc s)"
proof -
  assume s: "gauge_sound s"
  let ?r = "release_ips (AllocatedIPs (Status hc)) ([], s)"
  have "gauge_sound (snd (release_ips (AllocatedIPv6s (Status hc)) (fst ?r, snd ?r)))"
    using release_ips_gauge [OF release_ips_gauge [OF s]] .
  then show ?thesis by (simp add: ReleaseAll_def split_beta Let_def)
qed

lemma handleDeletion_gauge:
  assumes "gauge_sound s"
  shows "gauge_sound (snd (snd (handleDeletion k hc s)))"
proof -
  let ?s = "ReleaseAll k hc (emit (CleanupStarted (length (AllocatedIPs (Status hc)))) s)"
  let ?hc = "hc\<lparr>Meta := (Meta hc)\<lparr>Finalizers := RemoveFinalizer k (Finalizers (Meta hc)) heliosConfigFinalizer\<rparr>\<rparr>"
  obtain e1 hc1 s1 where u: "object_update k ?hc ?s = (e1, hc1, s1)" by (metis prod_cases3)
  have "gauge_sound ?s" using assms by (intro ReleaseAll_gauge) simp
  then have "gauge_sound s1" using u by (rule gauge_sound_update(2))
  then show ?thesis using assms u by (cases e1) (simp_all add: handleDeletion_def Let_def)
qed

lemma ensure_finalizer_gauge:
  assumes "gauge_sound s" "ensure_finalizer k hc s = (e, hc', s')"
  shows "gauge_sound s'"
proof (cases "ContainsFinalizer k (Finalizers (Meta hc)) heliosConfigFinalizer")
  case False
  let ?hc = "hc\<lparr>Meta := (Meta hc)\<lparr>Finalizers := AddFinalizer k (Finalizers (Meta hc)) heliosConfigFinalizer\<rparr>\<rparr>"
  obtain e1 hc1 s1 where u: "object_update k ?hc s = (e1, hc1, s1)" by (metis prod_cases3)
  have "gauge_sound s1" using gauge_sound_update(2) [OF assms(1) u] .
  then show ?thesis
    using assms(2) False u gauge_sound_update(1) by (cases e1) (auto simp: ensure_finalizer_def)
qed (use assms in \<open>simp add: ensure_finalizer_def\<close>)

lemma reconcile_services_gauge:
  assumes "echoes k" "gauge_sound s" "plain_ranges hc"
  shows "gauge_sound (snd (snd (reconcile_services k hc s)))"
proof (cases rule: reconcile_services_cases [of k hc s])
  case (stops err s')
  then show ?thesis using assms(2) by (simp add: gauge_sound_def)
next
  case (conflict n s1)
  have "gauge_sound s1" using conflict(2,3) assms(2) by (simp add: gauge_sound_def)
  moreover obtain e c t where u: "status_update k (set_cond k ConditionTypeDegraded ''True'' ReasonIPConflict
      (MsgCount ''IP range conflicts with %d allocated IP(s) from other configs'' n) hc) (emit (IPConflict n) s1) = (e, c, t)"
    by (metis prod_cases3)
  ultimately have "gauge_sound t" using gauge_sound_update(1) [OF _ u] by simp
  then show ?thesis using conflict(1) u by (simp add: conflict_return_def Let_def)
next
  case (loop svcs s1 ret ops)
  have "gauge_sound s1" using loop(2,5) assms(2) by (simp add: gauge_sound_def)
  from process_services_gauge [OF assms(1) this assms(3)] loop(1,4) show ?thesis by auto
qed

lemma reconcile_config_gauge:
  assumes "echoes k" "gauge_sound s" "plain_ranges hc"
  shows "gauge_sound (snd (snd (reconcile_config k hc s)))"
proof -
  obtain e hc1 s1 where f: "ensure_finalizer k hc s = (e, hc1, s1)" by (metis prod_cases3)
  have s1: "gauge_sound s1" using ensure_finalizer_gauge [OF assms(2) f] .
  have "plain_ranges hc1" using ensure_finalizer_echo [OF assms(1) f] assms(3) by simp
  then show ?thesis
    using s1 handleDeletion_gauge [OF s1, of k hc1] reconcile_services_gauge [OF assms(1) s1] f
    by (cases e) (simp_all add: reconcile_config_def split_beta)
qed

section \<open>Runs of the controller\<close>

text \<open>What the process goes through: it starts with an empty pool and no metrics, other actors change the world at any time, and
  reconciliations of any requests follow each other.  The list has the configurations that the reconciliations read.\<close>

inductive controller_run :: "('w, 'x) K8s \<Rightarrow> 'x config list \<Rightarrow> ('w, 'x) ctl \<Rightarrow> bool" for k where
  start: "controller_run k [] \<lparr>world = w, net = NewNetworkManager, metrics = [], events = []\<rparr>"
| others_act: "controller_run k hcs s \<Longrightarrow> controller_run k hcs (s\<lparr>world := w\<rparr>)"
| reconcile: "controller_run k hcs s \<Longrightarrow> get_config k (world s) req = (r, w)
    \<Longrightarrow> controller_run k ((case r of Inl _ \<Rightarrow> [] | Inr hc \<Rightarrow> [hc]) @ hcs) (snd (Reconcile k duration req s))"

lemma Reconcile_metrics_ok: "metrics_ok s \<Longrightarrow> metrics_ok (snd (Reconcile k duration req s))"
proof -
  assume "metrics_ok s"
  obtain r w where r: "get_config k (world s) req = (r, w)" by fastforce
  have "metrics_ok (s\<lparr>world := w\<rparr>)" using \<open>metrics_ok s\<close> by simp
  then show ?thesis
    using reconcile_config_metrics_ok [of "s\<lparr>world := w\<rparr>" k] r by (cases r) (simp_all add: Reconcile_def split_beta)
qed

lemma Reconcile_gauge:
  assumes "echoes k" "gauge_sound s" "\<And>hc w. get_config k (world s) req = (Inr hc, w) \<Longrightarrow> plain_ranges hc"
  shows "gauge_sound (snd (Reconcile k duration req s))"
proof -
  obtain r w where r: "get_config k (world s) req = (r, w)" by fastforce
  show ?thesis
  proof (cases r)
    case (Inl e)
    then show ?thesis using r assms(2) by (simp add: Reconcile_def)
  next
    case (Inr hc)
    have "gauge_sound (snd (snd (reconcile_config k hc (s\<lparr>world := w\<rparr>))))"
      using reconcile_config_gauge [OF assms(1) _ assms(3), of "s\<lparr>world := w\<rparr>" hc w] assms(2) r Inr by simp
    then show ?thesis using r Inr by (simp add: Reconcile_def split_beta)
  qed
qed

lemma controller_run_metrics_ok: "controller_run k hcs s \<Longrightarrow> metrics_ok s"
proof (induction rule: controller_run.induct)
  case (start w)
  then show ?case by (simp add: metrics_ok_def)
qed (simp_all add: Reconcile_metrics_ok)

lemma controller_run_gauge:
  assumes "controller_run k hcs s" "echoes k" "\<forall>hc \<in> set hcs. plain_ranges hc"
  shows "gauge_sound s"
  using assms(1,3)
proof (induction rule: controller_run.induct)
  case (start w)
  then show ?case by (simp add: gauge_sound_def)
next
  case (reconcile hcs s req r w duration)
  have "plain_ranges hc" if "get_config k (world s) req = (Inr hc, w')" for hc w'
    using that reconcile.hyps(2) reconcile.prems by simp
  moreover have "gauge_sound s" using reconcile.IH reconcile.prems by simp
  ultimately show ?case using Reconcile_gauge [OF assms(2)] by blast
qed simp

section \<open>Properties\<close>

text \<open>C15: over every run of the controller, whatever the server answers, no operation on the metrics panics.  When the server answers an
  update with what was sent and every range of the configurations that were read has more than one address, an address that the
  allocation metric reports as allocated is held by the pool.  On a range of one address the rollback of a failed allocation frees
  the address without telling the metric, so the second part does not hold there.\<close>

theorem run_metrics_sound:
  assumes "controller_run k hcs s"
  shows "list_all op_ok (metrics s)
    \<and> (echoes k \<and> (\<forall>hc \<in> set hcs. \<not> single_range (IPRange (Spec hc)) \<and> \<not> single_range (IPv6Range (Spec hc))) \<longrightarrow>
        (\<forall>x. gauge_value ipAllocationStatus [x] (metrics s) = Some 1 \<longrightarrow> x \<in> held (ipAllocator (net s))))"
  using controller_run_metrics_ok [OF assms] controller_run_gauge [OF assms] by (simp add: metrics_ok_def gauge_sound_def)

theorem run_metrics_sound_witness:
  "gauge_value ipAllocationStatus [''10.0.0.1''] (metrics (snd (Reconcile (demo_k8s False) 1 (''default'', ''a'')
     (demo_ctl [demo_config ''a'' ''10.0.0.0/29'' [] []] [demo_service ''web'' []] NewNetworkManager)))) = Some 1 \<and>
   ''10.0.0.1'' \<in> held (ipAllocator (net (snd (Reconcile (demo_k8s False) 1 (''default'', ''a'')
     (demo_ctl [demo_config ''a'' ''10.0.0.0/29'' [] []] [demo_service ''web'' []] NewNetworkManager)))))"
proof -
  let ?c = "demo_config ''a'' ''10.0.0.0/29'' [] []"
  let ?s = "demo_ctl [?c] [demo_service ''web'' []] NewNetworkManager"
  let ?t = "snd (Reconcile (demo_k8s False) 1 (''default'', ''a'') ?s)"
  have start: "controller_run (demo_k8s False) [] ?s" unfolding demo_ctl_def by (rule controller_run.start)
  have get: "get_config (demo_k8s False) (world ?s) (''default'', ''a'') = (Inr ?c, world ?s)" by (simp add: demo_defs)
  have run: "controller_run (demo_k8s False) [?c] ?t" using controller_run.reconcile [OF start get, of 1] by simp
  have ranges: "\<forall>hc \<in> set [?c]. \<not> single_range (IPRange (Spec hc)) \<and> \<not> single_range (IPv6Range (Spec hc))"
    using single_examples by simp
  have "gauge_value ipAllocationStatus [''10.0.0.1''] (metrics ?t) = Some 1"
    by (simp add: Reconcile_def reconcile_config_def ensure_finalizer_def reconcile_services_def CheckIPConflicts_def collect_conflicts_def
        FilterEligibleServices_filter AllocateAndAssign_def mark_others_def same_config_def splitRequestedIP_Nil allocateIP_def
        allocate_v6_def nm_AllocateIP_new assignIPToService_def assign_once_def status_update_def object_update_def CheckQuota_def
        demo_k8s_def demo_ctl_def demo_config_def demo_service_def emit_def record_metrics_def set_cond_def gauge_value_append Let_def
        eligible_def word_sless_alt word_sle_eq)
  with run_metrics_sound [OF run] demo_echoes [of False] ranges show ?thesis by blast
qed

end
