(* ===== verification/Entry_Point.thy ===== *)
theory Entry_Point
  imports Load_Balancer Controller_Run
begin

text \<open>
  The entry point \<^verbatim>\<open>cmd/main.go\<close> with the registration of the types (\<^verbatim>\<open>api/v1/groupversion_info.go\<close>).

  \<^item> \<open>Parse\<close> is \<^verbatim>\<open>flag.Parse\<close> of the standard library on the flags that \<^verbatim>\<open>main\<close> defines.  The flags that libraries add to the same
    flag set are the parameter \<open>extra\<close>: for a name, whether the flag is boolean and which values it accepts.
  \<^item> \<open>metricsServerOptions\<close>, \<open>managerOptions\<close> and \<open>balancerConfig\<close> are the values that \<^verbatim>\<open>main\<close> builds from the flags, \<open>wire\<close> the objects
    it allocates and how they refer to each other.
  \<^item> \<open>program\<close> is the startup: the calls in order, each of which may fail as the parameter \<open>fails\<close> says, and how the process ends.

  The calls go to libraries: what the manager does once it is started is the subject of \<open>Controller_Run\<close>, which \<open>wired_controller_run\<close>
  connects to the pool that is built here.
\<close>

section \<open>Flags\<close>

record flags =
  metricsAddr :: string
  enableLeaderElection :: bool
  probeAddr :: string
  secureMetrics :: bool
  enableHTTP2 :: bool
  enableWebhook :: bool

definition default_flags :: flags where
  "default_flags = \<lparr>metricsAddr = ''0'', enableLeaderElection = False, probeAddr = '':9082'', secureMetrics = True,
     enableHTTP2 = False, enableWebhook = False\<rparr>"

datatype flag_var =
    StringVar "string \<Rightarrow> flags \<Rightarrow> flags"
  | BoolVar "bool \<Rightarrow> flags \<Rightarrow> flags"
  | OtherVar bool "string \<Rightarrow> bool"

text \<open>The flag set of the command line.\<close>

definition formal :: "(string \<Rightarrow> (bool \<times> (string \<Rightarrow> bool)) option) \<Rightarrow> string \<Rightarrow> flag_var option" where
  "formal extra name =
     (if name = ''metrics-bind-address'' then Some (StringVar (\<lambda>v f. f\<lparr>metricsAddr := v\<rparr>))
      else if name = ''health-probe-bind-address'' then Some (StringVar (\<lambda>v f. f\<lparr>probeAddr := v\<rparr>))
      else if name = ''leader-elect'' then Some (BoolVar (\<lambda>b f. f\<lparr>enableLeaderElection := b\<rparr>))
      else if name = ''metrics-secure'' then Some (BoolVar (\<lambda>b f. f\<lparr>secureMetrics := b\<rparr>))
      else if name = ''enable-http2'' then Some (BoolVar (\<lambda>b f. f\<lparr>enableHTTP2 := b\<rparr>))
      else if name = ''enable-webhook'' then Some (BoolVar (\<lambda>b f. f\<lparr>enableWebhook := b\<rparr>))
      else map_option (\<lambda>(b, ok). OtherVar b ok) (extra name))"

text \<open>\<^verbatim>\<open>strconv.ParseBool\<close>.\<close>

definition ParseBool :: "string \<Rightarrow> bool option" where
  "ParseBool s =
     (if List.member [''1'', ''t'', ''T'', ''true'', ''TRUE'', ''True''] s then Some True
      else if List.member [''0'', ''f'', ''F'', ''false'', ''FALSE'', ''False''] s then Some False
      else None)"

primrec IsBoolFlag :: "flag_var \<Rightarrow> bool" where
  "IsBoolFlag (StringVar upd) = False"
| "IsBoolFlag (BoolVar upd) = True"
| "IsBoolFlag (OtherVar b ok) = b"

primrec SetFlag :: "flag_var \<Rightarrow> string \<Rightarrow> flags \<Rightarrow> flags option" where
  "SetFlag (StringVar upd) v f = Some (upd v f)"
| "SetFlag (BoolVar upd) v f = map_option (\<lambda>b. upd b f) (ParseBool v)"
| "SetFlag (OtherVar b ok) v f = (if ok v then Some f else None)"

text \<open>The name and the value of an argument: the first equals sign that is not the first character separates them.\<close>

definition split_value :: "string \<Rightarrow> string \<times> string option" where
  "split_value name =
     (let rest = dropWhile (\<lambda>c. c \<noteq> CHR ''='') (tl name)
      in (take 1 name @ takeWhile (\<lambda>c. c \<noteq> CHR ''='') (tl name), if rest = [] then None else Some (tl rest)))"

text \<open>\<^verbatim>\<open>flag.Parse\<close>, with the exit status when it ends the process.\<close>

fun Parse :: "(string \<Rightarrow> (bool \<times> (string \<Rightarrow> bool)) option) \<Rightarrow> string list \<Rightarrow> flags \<Rightarrow> nat + flags" where
  "Parse extra [] f = Inr f"
| "Parse extra (s # args) f =
     (if length s < 2 \<or> s ! 0 \<noteq> CHR ''-'' \<or> s = ''--'' then Inr f
      else let name = drop (if s ! 1 = CHR ''-'' then 2 else 1) s in
        if name = [] \<or> hd name = CHR ''-'' \<or> hd name = CHR ''='' then Inl 2
        else (case formal extra (fst (split_value name)) of
            None \<Rightarrow> Inl (if fst (split_value name) = ''help'' \<or> fst (split_value name) = ''h'' then 0 else 2)
          | Some v \<Rightarrow>
              (case (if IsBoolFlag v \<and> snd (split_value name) = None then Some ''true'' else snd (split_value name)) of
                 Some x \<Rightarrow> (case SetFlag v x f of None \<Rightarrow> Inl 2 | Some f' \<Rightarrow> Parse extra args f')
               | None \<Rightarrow>
                   (case args of
                      [] \<Rightarrow> Inl 2
                    | x # args' \<Rightarrow> (case SetFlag v x f of None \<Rightarrow> Inl 2 | Some f' \<Rightarrow> Parse extra args' f')))))"

section \<open>Options\<close>

record tls_config =
  NextProtos :: "string list"

definition disableHTTP2 :: "tls_config \<Rightarrow> tls_config" where
  "disableHTTP2 c = c\<lparr>NextProtos := [''http/1.1'']\<rparr>"

definition tlsOpts :: "flags \<Rightarrow> (tls_config \<Rightarrow> tls_config) list" where
  "tlsOpts f = (if \<not> enableHTTP2 f then [] @ [disableHTTP2] else [])"

datatype filter_provider = WithAuthenticationAndAuthorization

record metrics_server =
  BindAddress :: string
  SecureServing :: bool
  MS_TLSOpts :: "(tls_config \<Rightarrow> tls_config) list"
  FilterProvider :: "filter_provider option"

definition metricsServerOptions :: "flags \<Rightarrow> metrics_server" where
  "metricsServerOptions f =
     (let o1 = \<lparr>BindAddress = metricsAddr f, SecureServing = secureMetrics f, MS_TLSOpts = tlsOpts f, FilterProvider = None\<rparr>
      in if secureMetrics f then o1\<lparr>FilterProvider := Some WithAuthenticationAndAuthorization\<rparr> else o1)"

record manager_options =
  MO_Metrics :: metrics_server
  WebhookServer :: "(tls_config \<Rightarrow> tls_config) list"
  HealthProbeBindAddress :: string
  LeaderElection :: bool
  LeaderElectionID :: string
  LeaderElectionReleaseOnCancel :: bool

definition managerOptions :: "flags \<Rightarrow> manager_options" where
  "managerOptions f =
     \<lparr>MO_Metrics = metricsServerOptions f, WebhookServer = tlsOpts f, HealthProbeBindAddress = probeAddr f,
      LeaderElection = enableLeaderElection f, LeaderElectionID = ''7b619bed.helios.dev'', LeaderElectionReleaseOnCancel = True\<rparr>"

text \<open>The fields that the literal leaves out have their zero values.\<close>

definition balancerConfig :: BalancerConfig where
  "balancerConfig = \<lparr>Type = RoundRobin, BC_HealthCheck = True, CheckInterval = second * 5, MetricsEnabled = True, BC_Weights = [],
     HealthCheckOpts = \<lparr>Timeout = 0, Protocol = [], HO_HTTPPath = []\<rparr>\<rparr>"

section \<open>The objects of the controller\<close>

text \<open>A reference is a position in the list of the objects allocated so far.\<close>

record IPManager =
  IM_NetworkMgr :: nat
  IM_Metrics :: nat

record HeliosConfigReconciler =
  R_NetworkMgr :: nat
  R_Balancer :: nat
  R_Metrics :: nat
  R_IPMgr :: nat
  R_Recorder :: string

datatype object = MetricsRecorder | Network NetworkManager | Balancer LoadBalancer | IPMgr IPManager

definition new_object :: "object \<Rightarrow> object list \<Rightarrow> nat \<times> object list" where
  "new_object x h = (length h, h @ [x])"

definition wire :: "HeliosConfigReconciler \<times> object list" where
  "wire =
     (let (metricsRecorder, h1) = new_object MetricsRecorder [];
          (networkMgr, h2) = new_object (Network NewNetworkManager) h1;
          (lb, h3) = new_object (Balancer (fst (NewLoadBalancer balancerConfig))) h2;
          (ipMgr, h4) = new_object (IPMgr \<lparr>IM_NetworkMgr = networkMgr, IM_Metrics = metricsRecorder\<rparr>) h3
      in (\<lparr>R_NetworkMgr = networkMgr, R_Balancer = lb, R_Metrics = metricsRecorder, R_IPMgr = ipMgr,
           R_Recorder = ''helios-lb-controller''\<rparr>, h4))"

section \<open>The startup sequence\<close>

record GroupVersion =
  GV_Group :: string
  GV_Version :: string

definition groupVersion :: GroupVersion where
  "groupVersion = \<lparr>GV_Group = ''balancer.helios.dev'', GV_Version = ''v1''\<rparr>"

text \<open>What \<^verbatim>\<open>SchemeBuilder\<close> holds once the package is initialised.\<close>

definition registered_types :: "string list" where
  "registered_types = [''HeliosConfig'', ''HeliosConfigList'']"

datatype call =
    AddClientScheme
  | AddToScheme GroupVersion "string list"
  | GetConfigOrDie
  | NewManager manager_options
  | SetupWithManager HeliosConfigReconciler "object list"
  | SetupWebhookWithManager
  | AddHealthzCheck string
  | AddReadyzCheck string
  | StartManager

datatype outcome = Panics | Exits nat | Returns

text \<open>\<open>init_scheme\<close> gives the calls made and whether the last one succeeded, \<open>main_calls\<close> the calls made and how the process ends.\<close>

definition init_scheme :: "(call \<Rightarrow> bool) \<Rightarrow> call list \<times> bool" where
  "init_scheme fails =
     (if fails AddClientScheme then ([AddClientScheme], False)
      else ([AddClientScheme, AddToScheme groupVersion registered_types], \<not> fails (AddToScheme groupVersion registered_types)))"

definition main_calls :: "(call \<Rightarrow> bool) \<Rightarrow> flags \<Rightarrow> call list \<times> outcome" where
  "main_calls fails f =
     (if fails GetConfigOrDie then ([GetConfigOrDie], Exits 1)
      else let mgr = NewManager (managerOptions f) in
      if fails mgr then ([GetConfigOrDie, mgr], Exits 1)
      else let setup = SetupWithManager (fst wire) (snd wire) in
      if fails setup then ([GetConfigOrDie, mgr, setup], Exits 1)
      else if enableWebhook f \<and> fails SetupWebhookWithManager
        then ([GetConfigOrDie, mgr, setup, SetupWebhookWithManager], Exits 1)
      else let made = [GetConfigOrDie, mgr, setup] @ (if enableWebhook f then [SetupWebhookWithManager] else []) in
      if fails (AddHealthzCheck ''healthz'') then (made @ [AddHealthzCheck ''healthz''], Exits 1)
      else if fails (AddReadyzCheck ''readyz'')
        then (made @ [AddHealthzCheck ''healthz'', AddReadyzCheck ''readyz''], Exits 1)
      else (made @ [AddHealthzCheck ''healthz'', AddReadyzCheck ''readyz'', StartManager],
            if fails StartManager then Exits 1 else Returns))"

definition program ::
  "(string \<Rightarrow> (bool \<times> (string \<Rightarrow> bool)) option) \<Rightarrow> (call \<Rightarrow> bool) \<Rightarrow> string list \<Rightarrow> call list \<times> outcome" where
  "program extra fails args =
     (case init_scheme fails of (calls, ok) \<Rightarrow>
        if \<not> ok then (calls, Panics)
        else case Parse extra args default_flags of
            Inl status \<Rightarrow> (calls, Exits status)
          | Inr f \<Rightarrow> (case main_calls fails f of (made, out) \<Rightarrow> (calls @ made, out)))"

section \<open>What the startup sets up\<close>

lemma balancer_built:
  "algorithm (fst (NewLoadBalancer balancerConfig)) = roundRobinAlgorithm Map.empty" "snd (NewLoadBalancer balancerConfig)"
  "HealthCheckOpts (config (fst (NewLoadBalancer balancerConfig))) = \<lparr>Timeout = second, Protocol = protocolTCP, HO_HTTPPath = []\<rparr>"
  by (simp_all add: NewLoadBalancer_def balancerConfig_def NewAlgorithm_def balancer_types Let_def)

text \<open>The reconciler and its IP manager work on one pool and one recorder.\<close>

lemma wire_shares:
  "\<exists>im. snd wire ! R_IPMgr (fst wire) = IPMgr im \<and> IM_NetworkMgr im = R_NetworkMgr (fst wire) \<and>
     IM_Metrics im = R_Metrics (fst wire)"
  "snd wire ! R_NetworkMgr (fst wire) = Network NewNetworkManager"
  "snd wire ! R_Balancer (fst wire) = Balancer (fst (NewLoadBalancer balancerConfig))"
  by (simp_all add: wire_def new_object_def nth_append)

lemma wire_parts:
  "\<exists>im pool lb. snd wire ! R_NetworkMgr (fst wire) = Network pool \<and> held (ipAllocator pool) = {}
     \<and> snd wire ! R_IPMgr (fst wire) = IPMgr im \<and> IM_NetworkMgr im = R_NetworkMgr (fst wire) \<and> IM_Metrics im = R_Metrics (fst wire)
     \<and> snd wire ! R_Metrics (fst wire) = MetricsRecorder \<and> snd wire ! R_Balancer (fst wire) = Balancer lb
     \<and> algorithm lb = roundRobinAlgorithm Map.empty"
  using balancer_built(1) by (simp add: wire_def new_object_def nth_append NewNetworkManager_def)

lemma program_setup:
  "SetupWithManager r h \<in> set (fst (program extra fails args)) \<Longrightarrow> r = fst wire \<and> h = snd wire"
  "NewManager opts \<in> set (fst (program extra fails args)) \<Longrightarrow>
     \<exists>f. Parse extra args default_flags = Inr f \<and> opts = managerOptions f"
  by (auto simp: program_def init_scheme_def main_calls_def Let_def split: if_splits sum.splits)

lemma wired_controller_run:
  "SetupWithManager r h \<in> set (fst (program extra fails args)) \<Longrightarrow> h ! R_NetworkMgr r = Network pool \<Longrightarrow>
     controller_run k [] \<lparr>world = w, net = pool, metrics = [], events = []\<rparr>"
  using program_setup(1) [of r h extra fails args] wire_shares(2) controller_run.start [of k w] by auto

section \<open>Reading the flags\<close>

text \<open>A setting on the command line, how it is written and what it does to the flags.\<close>

datatype setting =
    Metrics_bind_address string
  | Health_probe_bind_address string
  | Leader_elect bool
  | Metrics_secure bool
  | Enable_http2 bool
  | Enable_webhook bool

definition print_bool :: "bool \<Rightarrow> string" where
  "print_bool b = (if b then ''true'' else ''false'')"

abbreviation flag_arg :: "string \<Rightarrow> string \<Rightarrow> string" where
  "flag_arg name v \<equiv> ''--'' @ name @ CHR ''='' # v"

primrec print_setting :: "setting \<Rightarrow> string" where
  "print_setting (Metrics_bind_address v) = flag_arg ''metrics-bind-address'' v"
| "print_setting (Health_probe_bind_address v) = flag_arg ''health-probe-bind-address'' v"
| "print_setting (Leader_elect b) = flag_arg ''leader-elect'' (print_bool b)"
| "print_setting (Metrics_secure b) = flag_arg ''metrics-secure'' (print_bool b)"
| "print_setting (Enable_http2 b) = flag_arg ''enable-http2'' (print_bool b)"
| "print_setting (Enable_webhook b) = flag_arg ''enable-webhook'' (print_bool b)"

primrec apply_setting :: "setting \<Rightarrow> flags \<Rightarrow> flags" where
  "apply_setting (Metrics_bind_address v) f = f\<lparr>metricsAddr := v\<rparr>"
| "apply_setting (Health_probe_bind_address v) f = f\<lparr>probeAddr := v\<rparr>"
| "apply_setting (Leader_elect b) f = f\<lparr>enableLeaderElection := b\<rparr>"
| "apply_setting (Metrics_secure b) f = f\<lparr>secureMetrics := b\<rparr>"
| "apply_setting (Enable_http2 b) f = f\<lparr>enableHTTP2 := b\<rparr>"
| "apply_setting (Enable_webhook b) f = f\<lparr>enableWebhook := b\<rparr>"

lemma ParseBool_print [simp]: "ParseBool (print_bool b) = Some b"
  by (simp add: ParseBool_def print_bool_def)

lemma upto_sep:
  "c \<notin> set s \<Longrightarrow> takeWhile (\<lambda>x. x \<noteq> c) (s @ c # v) = s" "c \<notin> set s \<Longrightarrow> dropWhile (\<lambda>x. x \<noteq> c) (s @ c # v) = c # v"
  by (induction s) auto

lemma split_value_eq: "name \<noteq> [] \<Longrightarrow> CHR ''='' \<notin> set name \<Longrightarrow> split_value (name @ CHR ''='' # v) = (name, Some v)"
  by (cases name) (simp_all add: split_value_def upto_sep)

lemma Parse_eq:
  assumes "name \<noteq> []" "hd name \<noteq> CHR ''-''" "CHR ''='' \<notin> set name" "formal extra name \<noteq> None"
  shows "Parse extra (flag_arg name x # args) f =
    (case SetFlag (the (formal extra name)) x f of None \<Rightarrow> Inl 2 | Some f' \<Rightarrow> Parse extra args f')"
  using assms split_value_eq [OF assms(1,3), of x] by (cases name) (auto simp: Let_def)

lemma Parse_flag:
  "Parse extra (flag_arg ''metrics-bind-address'' x # args) f = Parse extra args (f\<lparr>metricsAddr := x\<rparr>)"
  "Parse extra (flag_arg ''health-probe-bind-address'' x # args) f = Parse extra args (f\<lparr>probeAddr := x\<rparr>)"
  "Parse extra (flag_arg ''leader-elect'' (print_bool b) # args) f = Parse extra args (f\<lparr>enableLeaderElection := b\<rparr>)"
  "Parse extra (flag_arg ''metrics-secure'' (print_bool b) # args) f = Parse extra args (f\<lparr>secureMetrics := b\<rparr>)"
  "Parse extra (flag_arg ''enable-http2'' (print_bool b) # args) f = Parse extra args (f\<lparr>enableHTTP2 := b\<rparr>)"
  "Parse extra (flag_arg ''enable-webhook'' (print_bool b) # args) f = Parse extra args (f\<lparr>enableWebhook := b\<rparr>)"
  by - (subst Parse_eq; simp add: formal_def)+

text \<open>Settings are read in their order, whatever the flags of the libraries are.\<close>

lemma Parse_setting: "Parse extra (print_setting c # args) f = Parse extra args (apply_setting c f)"
  by (cases c) (simp_all only: print_setting.simps apply_setting.simps Parse_flag)

lemma Parse_settings: "Parse extra (map print_setting cs) f = Inr (fold apply_setting cs f)"
  by (induction cs arbitrary: f) (simp_all add: Parse_setting del: Parse.simps(2))

text \<open>A boolean flag does not take the next argument as its value: the word after it ends the flags.\<close>

lemma Parse_bool_word:
  "Parse extra [''--leader-elect'', ''false'', ''--enable-webhook''] default_flags = Inr (default_flags\<lparr>enableLeaderElection := True\<rparr>)"
  by (simp add: formal_def split_value_def ParseBool_def)

text \<open>The startup stops at the first call that fails, and only there.\<close>

lemma main_calls_stops:
  assumes "main_calls fails f = (made, out)"
  shows "\<forall>c \<in> set (butlast made). \<not> fails c" "made \<noteq> []" "StartManager \<in> set made \<Longrightarrow> last made = StartManager"
    "out = (if fails (last made) then Exits 1 else Returns)" "fails (last made) \<or> last made = StartManager"
    "last made \<noteq> AddClientScheme" "last made \<noteq> AddToScheme gv types"
  using assms by (auto simp: main_calls_def Let_def split: if_splits)

lemma main_calls_started:
  assumes "main_calls fails f = (made, out)" "StartManager \<in> set made"
  shows "set made = {GetConfigOrDie, NewManager (managerOptions f), SetupWithManager (fst wire) (snd wire),
      AddHealthzCheck ''healthz'', AddReadyzCheck ''readyz'', StartManager} \<union> (if enableWebhook f then {SetupWebhookWithManager} else {})"
  using assms by (auto simp: main_calls_def Let_def split: if_splits)

lemma program_settings:
  assumes "program extra fails (map print_setting cs) = (calls, out)"
  obtains "\<exists>c. c \<in> {AddClientScheme, AddToScheme groupVersion registered_types} \<and> fails c \<and> last calls = c \<and> calls \<noteq> []"
      "\<forall>c \<in> set (butlast calls). \<not> fails c" "out = Panics" "StartManager \<notin> set calls"
  | made where "calls = [AddClientScheme, AddToScheme groupVersion registered_types] @ made" "\<not> fails AddClientScheme"
      "\<not> fails (AddToScheme groupVersion registered_types)" "main_calls fails (fold apply_setting cs default_flags) = (made, out)"
proof (cases "fails AddClientScheme \<or> fails (AddToScheme groupVersion registered_types)")
  case True
  then show thesis using assms that(1) by (auto simp: program_def init_scheme_def split: if_splits)
next
  case False
  obtain made out' where m: "main_calls fails (fold apply_setting cs default_flags) = (made, out')" by fastforce
  have "calls = [AddClientScheme, AddToScheme groupVersion registered_types] @ made" "out = out'"
    using assms False m by (auto simp: program_def init_scheme_def Parse_settings)
  with m False that(2) show thesis by simp
qed

text \<open>The options of the manager, field by field.\<close>

lemma managerOptions_fields:
  "LeaderElection (managerOptions f) = enableLeaderElection f" "HealthProbeBindAddress (managerOptions f) = probeAddr f"
  "LeaderElectionReleaseOnCancel (managerOptions f)"
  "BindAddress (MO_Metrics (managerOptions f)) = metricsAddr f" "SecureServing (MO_Metrics (managerOptions f)) = secureMetrics f"
  "FilterProvider (MO_Metrics (managerOptions f)) = (if secureMetrics f then Some WithAuthenticationAndAuthorization else None)"
  "NextProtos (fold (\<lambda>g. g) (WebhookServer (managerOptions f)) c) = (if enableHTTP2 f then NextProtos c else [''http/1.1''])"
  "NextProtos (fold (\<lambda>g. g) (MS_TLSOpts (MO_Metrics (managerOptions f))) c) = (if enableHTTP2 f then NextProtos c else [''http/1.1''])"
  by (simp_all add: managerOptions_def metricsServerOptions_def tlsOpts_def disableHTTP2_def Let_def)

section \<open>Properties\<close>

text \<open>C16: consider the program with any settings on its command line.  No call follows one that failed; a failed registration of the types
  is a panic, every other failure ends the process with status 1, and the program returns exactly when the manager ran without error.
  When the manager is started, it was built with the settings in force, the last of a flag or its default: the addresses, the
  leader election, authorisation of secure metrics, and HTTP/1.1 as the only protocol of both servers unless HTTP/2 is enabled; the
  types, the two probes and the controller are set up, and the webhook exactly when it is asked for.  The controller has one empty
  pool and one metrics recorder, both shared with its IP manager, and a round robin balancer.\<close>

theorem program_starts_as_configured:
  assumes "program extra fails (map print_setting cs) = (calls, out)"
    and "f = fold apply_setting cs \<lparr>metricsAddr = ''0'', enableLeaderElection = False, probeAddr = '':9082'', secureMetrics = True,
      enableHTTP2 = False, enableWebhook = False\<rparr>"
  shows "(\<forall>c \<in> set (butlast calls). \<not> fails c) \<and> (out = Returns \<longleftrightarrow> StartManager \<in> set calls \<and> \<not> fails StartManager)
    \<and> (out \<noteq> Returns \<longrightarrow> fails (last calls) \<and> out = (case last calls of AddClientScheme \<Rightarrow> Panics | AddToScheme _ _ \<Rightarrow> Panics | _ \<Rightarrow> Exits 1))
    \<and> (StartManager \<in> set calls \<longrightarrow> last calls = StartManager
      \<and> AddToScheme \<lparr>GV_Group = ''balancer.helios.dev'', GV_Version = ''v1''\<rparr> [''HeliosConfig'', ''HeliosConfigList''] \<in> set calls
      \<and> AddHealthzCheck ''healthz'' \<in> set calls \<and> AddReadyzCheck ''readyz'' \<in> set calls
      \<and> (SetupWebhookWithManager \<in> set calls \<longleftrightarrow> enableWebhook f)
      \<and> (\<exists>opts. NewManager opts \<in> set calls \<and> LeaderElection opts = enableLeaderElection f \<and> LeaderElectionReleaseOnCancel opts
          \<and> HealthProbeBindAddress opts = probeAddr f \<and> BindAddress (MO_Metrics opts) = metricsAddr f
          \<and> SecureServing (MO_Metrics opts) = secureMetrics f
          \<and> FilterProvider (MO_Metrics opts) = (if secureMetrics f then Some WithAuthenticationAndAuthorization else None)
          \<and> (\<forall>c. NextProtos (fold (\<lambda>g. g) (WebhookServer opts) c) = (if enableHTTP2 f then NextProtos c else [''http/1.1'']))
          \<and> (\<forall>c. NextProtos (fold (\<lambda>g. g) (MS_TLSOpts (MO_Metrics opts)) c) = (if enableHTTP2 f then NextProtos c else [''http/1.1''])))
      \<and> (\<exists>r h im pool lb. SetupWithManager r h \<in> set calls \<and> h ! R_NetworkMgr r = Network pool \<and> held (ipAllocator pool) = {}
          \<and> h ! R_IPMgr r = IPMgr im \<and> IM_NetworkMgr im = R_NetworkMgr r \<and> IM_Metrics im = R_Metrics r
          \<and> h ! R_Metrics r = MetricsRecorder \<and> h ! R_Balancer r = Balancer lb \<and> algorithm lb = roundRobinAlgorithm Map.empty))"
  using assms(1)
proof (cases rule: program_settings)
  case 1
  then show ?thesis by auto
next
  case (2 made)
  have f: "f = fold apply_setting cs default_flags" using assms(2) by (simp add: default_flags_def)
  note stops = main_calls_stops [OF 2(4)]
  have butlast: "butlast calls = [AddClientScheme, AddToScheme groupVersion registered_types] @ butlast made" "last calls = last made"
    using 2(1) stops(2) by (simp_all add: butlast_append)
  have nofail: "\<forall>c \<in> set (butlast calls). \<not> fails c" unfolding butlast using 2(2,3) stops(1) by simp
  have member: "c \<in> set calls \<longleftrightarrow> c \<in> {AddClientScheme, AddToScheme groupVersion registered_types} \<union> set made" for c
    using 2(1) by auto
  have start: "StartManager \<in> set calls \<longleftrightarrow> StartManager \<in> set made" unfolding member by simp
  have ret: "out = Returns \<longleftrightarrow> StartManager \<in> set calls \<and> \<not> fails StartManager"
    using stops(2-5) unfolding start by (metis last_in_set outcome.distinct(5))
  have fail: "out \<noteq> Returns \<longrightarrow> fails (last calls) \<and> out = (case last calls of AddClientScheme \<Rightarrow> Panics | AddToScheme _ _ \<Rightarrow> Panics | _ \<Rightarrow> Exits 1)"
    unfolding butlast using stops(4,6,7) by (auto split: call.splits)
  have managed: "NewManager (managerOptions f) \<in> set calls" and wired: "SetupWithManager (fst wire) (snd wire) \<in> set calls"
    and rest: "AddToScheme groupVersion registered_types \<in> set calls" "AddHealthzCheck ''healthz'' \<in> set calls"
      "AddReadyzCheck ''readyz'' \<in> set calls" "SetupWebhookWithManager \<in> set calls \<longleftrightarrow> enableWebhook f" "last calls = StartManager"
    if "StartManager \<in> set calls"
    using main_calls_started [OF 2(4)] stops(3) that unfolding member start butlast f by auto
  show ?thesis
    apply (intro conjI impI)
    apply (rule nofail)
    apply (rule ret)
    apply (use fail in blast)
    apply (use fail in blast)
    apply (rule rest, assumption)
    apply (use rest(1) in \<open>simp add: groupVersion_def registered_types_def\<close>)
    apply (rule rest, assumption)
    apply (rule rest, assumption)
    apply (rule rest, assumption)
    apply (rule exI [of _ "managerOptions f"])
    apply (simp add: managed managerOptions_fields)
    apply (use wire_parts wired in blast)
    done
qed

theorem program_starts_as_configured_witness:
  "snd (program (\<lambda>_. None) (\<lambda>_. False) [''--leader-elect=true'', ''--enable-webhook=true'', ''--leader-elect=false'']) = Returns
   \<and> SetupWebhookWithManager \<in> set (fst (program (\<lambda>_. None) (\<lambda>_. False) [''--leader-elect=true'', ''--enable-webhook=true'', ''--leader-elect=false'']))
   \<and> (\<exists>opts. NewManager opts \<in> set (fst (program (\<lambda>_. None) (\<lambda>_. False) [''--leader-elect=true'', ''--enable-webhook=true'', ''--leader-elect=false'']))
       \<and> \<not> LeaderElection opts \<and> HealthProbeBindAddress opts = '':9082'')"
proof -
  let ?cs = "[Leader_elect True, Enable_webhook True, Leader_elect False]"
  let ?p = "program (\<lambda>_. None) (\<lambda>_. False) (map print_setting ?cs)"
  have args: "map print_setting ?cs = [''--leader-elect=true'', ''--enable-webhook=true'', ''--leader-elect=false'']"
    by (simp add: print_bool_def)
  obtain calls out where p: "?p = (calls, out)" by (cases ?p) blast
  note start = program_starts_as_configured [OF p refl]
  have "out = Returns" using start by blast
  moreover from this have "StartManager \<in> set calls" using start by blast
  then have "SetupWebhookWithManager \<in> set calls" "\<exists>opts. NewManager opts \<in> set calls \<and> \<not> LeaderElection opts \<and> HealthProbeBindAddress opts = '':9082''"
    using start by auto
  ultimately show ?thesis using p unfolding args by simp
qed

end
