(* ===== verification/Scan_Loop.thy ===== *)
theory Scan_Loop
  imports IP_Allocator "HOL-Library.While_Combinator"
begin

text \<open>
  The loop of \<^verbatim>\<open>AllocateIP\<close> in \<^verbatim>\<open>internal/network/ip_allocator.go\<close> once more, as a loop over its two variables.  The recursion
  \<open>alloc_scan\<close> is total by the measure of its definition; here the loop itself is shown to stop, and when.
\<close>

text \<open>The loop with its variables: the condition under which another round follows, and what a round changes.\<close>

definition scan_goes_on :: "IPAllocator \<Rightarrow> ip \<Rightarrow> nat \<times> ip \<Rightarrow> bool" where
  "scan_goes_on a e = (\<lambda>(scanned, x). bytes_Compare x e \<le> 0 \<and> scanned < maxScan a \<and> map_bool (used a) (IP_String x))"

definition scan_round :: "nat \<times> ip \<Rightarrow> nat \<times> ip" where
  "scan_round = (\<lambda>(scanned, x). (scanned + 1, IncrementIP x))"

definition scan_loop :: "IPAllocator \<Rightarrow> ip \<Rightarrow> ip \<Rightarrow> (nat \<times> ip) option" where
  "scan_loop a e start = while_option (scan_goes_on a e) scan_round (0, start)"

text \<open>How the function returns from the state in which the loop stops.\<close>

definition scan_return :: "IPAllocator \<Rightarrow> string \<Rightarrow> ip \<Rightarrow> nat \<times> ip \<Rightarrow> (net_error + string) \<times> IPAllocator" where
  "scan_return a ipRange e = (\<lambda>(scanned, x).
     if bytes_Compare x e \<le> 0 then
       if scanned \<ge> maxScan a then (Inl (ScanLimit ipRange (maxScan a)), a)
       else (Inr (IP_String x), take_ip a (IP_String x))
     else (Inl (NoAvailable ipRange), a))"

lemma scan_loop_stops:
  obtains n x where "scan_loop a e start = Some (n, x)"
proof -
  have "\<exists>st. scan_loop a e start = Some st"
    unfolding scan_loop_def
    by (rule measure_while_option_Some [where P = "\<lambda>_. True" and f = "\<lambda>(scanned, x). maxScan a - scanned"])
       (auto simp: scan_goes_on_def scan_round_def)
  then show thesis using that by auto
qed

lemma scan_loop_state:
  assumes "scan_loop a e start = Some (n, x)"
  shows "n \<le> maxScan a" "x = (IncrementIP ^^ n) start" "alloc_scan a r e 0 start = alloc_scan a r e n x"
proof -
  let ?P = "\<lambda>(n, x). n \<le> maxScan a \<and> x = (IncrementIP ^^ n) start \<and> alloc_scan a r e 0 start = alloc_scan a r e n x"
  have "?P (n, x)"
    using assms unfolding scan_loop_def
  proof (rule while_option_rule [where P = ?P, rotated])
    fix st assume st: "?P st" "scan_goes_on a e st"
    obtain m y where m: "st = (m, y)" by (cases st)
    have "alloc_scan a r e m y = alloc_scan a r e (m + 1) (IncrementIP y)"
      using st(2) m by (subst alloc_scan.simps) (simp add: scan_goes_on_def)
    with st m show "?P (scan_round st)" by (simp add: scan_goes_on_def scan_round_def)
  qed simp
  then show "n \<le> maxScan a" "x = (IncrementIP ^^ n) start" "alloc_scan a r e 0 start = alloc_scan a r e n x" by simp_all
qed

lemma scan_loop_exit:
  assumes "scan_loop a e start = Some (n, x)"
  shows "alloc_scan a r e n x = scan_return a r e (n, x)"
proof -
  have "\<not> scan_goes_on a e (n, x)" using assms unfolding scan_loop_def by (rule while_option_stop)
  then show ?thesis by (auto simp: scan_goes_on_def scan_return_def alloc_scan.simps [of a r e n x])
qed

section \<open>Properties\<close>

text \<open>C17: the scan of \<^verbatim>\<open>AllocateIP\<close> ends for every pool and every pair of ends, also where stepping wraps around and the end is
  never passed: the loop stops after \<open>n\<close> rounds, at most as many as the scan limit, at the \<open>n\<close>-th address after the start, and
  what it returns there is what the allocation returns.\<close>

theorem AllocateIP_scan_ends:
  "\<exists>n x. scan_loop a e start = Some (n, x) \<and> n \<le> maxScan a \<and> x = (IncrementIP ^^ n) start
     \<and> alloc_scan a r e 0 start = scan_return a r e (n, x)"
proof -
  obtain n x where "scan_loop a e start = Some (n, x)" by (rule scan_loop_stops)
  then show ?thesis using scan_loop_state(1,2) scan_loop_state(3) [where r = r] scan_loop_exit [where r = r] by metis
qed

end
