(* ===== verification/Deep_Copy.thy ===== *)
theory Deep_Copy
  imports Api_Types
begin

text \<open>
  \<^verbatim>\<open>api/v1/zz_generated.deepcopy.go\<close>: the generated copies of the custom resource, over an explicit memory.

  \<^item> A slice, a map and a pointer field is the address of a cell, or nothing for \<^verbatim>\<open>nil\<close>; a struct holds its other fields.
    \<open>heap\<close> has the cells and the first address that is free.  A slice owns its backing array.
  \<^item> \<open>val_spec\<close>, \<open>val_status\<close>, \<open>val_config\<close> and \<open>val_list\<close> read the values of \<open>Api_Types\<close> out of the memory.  The rest of the
    development works on these values; what the copies promise is that this loses nothing.
  \<^item> The methods of the library types (\<^verbatim>\<open>ObjectMeta\<close>, \<^verbatim>\<open>ListMeta\<close>, \<^verbatim>\<open>Time\<close>, \<^verbatim>\<open>Condition\<close>) are the parameter \<open>lib\<close>, and these
    types are values here.
  \<^item> The new array of a list is written once, after its elements are copied.
\<close>

section \<open>Memory\<close>

type_synonym addr = nat

record GoSpec =
  S_IPRange :: string
  S_IPv6Range :: string
  S_Service :: string
  S_Protocol :: string
  S_Ports :: "addr option"
  S_Method :: string
  S_Weights :: "addr option"
  S_HealthCheck :: "addr option"
  S_NamespaceSelector :: "addr option"
  S_MaxAllocations :: i32

record ('e, 't) GoStatus =
  T_AllocatedIPs :: "addr option"
  T_AllocatedIPv6s :: "addr option"
  T_State :: string
  T_Message :: "'e message"
  T_LastUpdated :: 't
  T_Conditions :: "addr option"
  T_Phase :: string

record ('e, 't) GoConfig =
  G_TypeMeta :: "string \<times> string"
  G_Meta :: ObjectMeta
  G_Spec :: GoSpec
  G_Status :: "('e, 't) GoStatus"

record 'l GoList =
  L_TypeMeta :: "string \<times> string"
  L_ListMeta :: 'l
  L_Items :: "addr option"

datatype ('e, 't) cell =
    CPorts "PortConfig list"
  | CWeights "WeightConfig list"
  | CHealth HealthCheckConfig
  | CStrings "string list"
  | CMap "(string \<times> string) list"
  | CConds "'e Condition list"
  | CItems "('e, 't) GoConfig list"

record ('e, 't) heap =
  cells :: "addr \<rightharpoonup> ('e, 't) cell"
  brk :: addr

text \<open>The \<^verbatim>\<open>DeepCopyInto\<close> methods of the library types.\<close>

record ('e, 't, 'l) lib =
  copy_meta :: "ObjectMeta \<Rightarrow> ObjectMeta"
  copy_time :: "'t \<Rightarrow> 't"
  copy_cond :: "'e Condition \<Rightarrow> 'e Condition"
  copy_list_meta :: "'l \<Rightarrow> 'l"

definition new_cell :: "('e, 't) cell \<Rightarrow> ('e, 't) heap \<Rightarrow> addr \<times> ('e, 't) heap" where
  "new_cell c h = (brk h, h\<lparr>cells := (cells h)(brk h \<mapsto> c), brk := brk h + 1\<rparr>)"

text \<open>What a field refers to; a \<^verbatim>\<open>nil\<close> slice or map reads as an empty one.\<close>

definition ports_at :: "('e, 't) heap \<Rightarrow> addr option \<Rightarrow> PortConfig list" where
  "ports_at h p = (case Option.bind p (cells h) of Some (CPorts xs) \<Rightarrow> xs | _ \<Rightarrow> [])"

definition weights_at :: "('e, 't) heap \<Rightarrow> addr option \<Rightarrow> WeightConfig list" where
  "weights_at h p = (case Option.bind p (cells h) of Some (CWeights xs) \<Rightarrow> xs | _ \<Rightarrow> [])"

definition health_at :: "('e, 't) heap \<Rightarrow> addr option \<Rightarrow> HealthCheckConfig option" where
  "health_at h p = (case Option.bind p (cells h) of Some (CHealth x) \<Rightarrow> Some x | _ \<Rightarrow> None)"

definition strings_at :: "('e, 't) heap \<Rightarrow> addr option \<Rightarrow> string list" where
  "strings_at h p = (case Option.bind p (cells h) of Some (CStrings xs) \<Rightarrow> xs | _ \<Rightarrow> [])"

definition map_at :: "('e, 't) heap \<Rightarrow> addr option \<Rightarrow> (string \<times> string) list" where
  "map_at h p = (case Option.bind p (cells h) of Some (CMap xs) \<Rightarrow> xs | _ \<Rightarrow> [])"

definition conds_at :: "('e, 't) heap \<Rightarrow> addr option \<Rightarrow> 'e Condition list" where
  "conds_at h p = (case Option.bind p (cells h) of Some (CConds xs) \<Rightarrow> xs | _ \<Rightarrow> [])"

definition items_at :: "('e, 't) heap \<Rightarrow> addr option \<Rightarrow> ('e, 't) GoConfig list" where
  "items_at h p = (case Option.bind p (cells h) of Some (CItems xs) \<Rightarrow> xs | _ \<Rightarrow> [])"

section \<open>The copies\<close>

text \<open>A field is copied when it is not \<^verbatim>\<open>nil\<close>: a new cell with the given content.\<close>

definition copy_field :: "addr option \<Rightarrow> ('e, 't) cell \<Rightarrow> ('e, 't) heap \<Rightarrow> addr option \<times> ('e, 't) heap" where
  "copy_field p c h = (case p of None \<Rightarrow> (None, h) | Some _ \<Rightarrow> apfst Some (new_cell c h))"

text \<open>The loop that copies a map, entry by entry, into an empty one.\<close>

definition copy_entries :: "(string \<times> string) list \<Rightarrow> (string \<times> string) list" where
  "copy_entries m = fold (\<lambda>(key, val) out. map_set key val out) m []"

definition PortConfig_DeepCopyInto :: "PortConfig \<Rightarrow> PortConfig" where
  "PortConfig_DeepCopyInto p = p"

definition WeightConfig_DeepCopyInto :: "WeightConfig \<Rightarrow> WeightConfig" where
  "WeightConfig_DeepCopyInto w = w"

definition HealthCheckConfig_DeepCopyInto :: "HealthCheckConfig \<Rightarrow> HealthCheckConfig" where
  "HealthCheckConfig_DeepCopyInto c = c"

definition Spec_DeepCopyInto :: "GoSpec \<Rightarrow> ('e, 't) heap \<Rightarrow> GoSpec \<times> ('e, 't) heap" where
  "Spec_DeepCopyInto s h0 =
     (let (ports, h1) = copy_field (S_Ports s) (CPorts (ports_at h0 (S_Ports s))) h0;
          (weights, h2) = copy_field (S_Weights s) (CWeights (weights_at h1 (S_Weights s))) h1;
          (health, h3) = copy_field (S_HealthCheck s) (CHealth (the (health_at h2 (S_HealthCheck s)))) h2;
          (sel, h4) = copy_field (S_NamespaceSelector s) (CStrings (strings_at h3 (S_NamespaceSelector s))) h3
      in (s\<lparr>S_Ports := ports, S_Weights := weights, S_HealthCheck := health, S_NamespaceSelector := sel\<rparr>, h4))"

definition Status_DeepCopyInto ::
  "('e, 't, 'l) lib \<Rightarrow> ('e, 't) GoStatus \<Rightarrow> ('e, 't) heap \<Rightarrow> ('e, 't) GoStatus \<times> ('e, 't) heap" where
  "Status_DeepCopyInto l s h0 =
     (let (ips, h1) = copy_field (T_AllocatedIPs s) (CMap (copy_entries (map_at h0 (T_AllocatedIPs s)))) h0;
          (ip6s, h2) = copy_field (T_AllocatedIPv6s s) (CMap (copy_entries (map_at h1 (T_AllocatedIPv6s s)))) h1;
          updated = copy_time l (T_LastUpdated s);
          (conds, h3) = copy_field (T_Conditions s) (CConds (map (copy_cond l) (conds_at h2 (T_Conditions s)))) h2
      in (s\<lparr>T_AllocatedIPs := ips, T_AllocatedIPv6s := ip6s, T_LastUpdated := updated, T_Conditions := conds\<rparr>, h3))"

definition Config_DeepCopyInto ::
  "('e, 't, 'l) lib \<Rightarrow> ('e, 't) GoConfig \<Rightarrow> ('e, 't) heap \<Rightarrow> ('e, 't) GoConfig \<times> ('e, 't) heap" where
  "Config_DeepCopyInto l c h0 =
     (let (spec, h1) = Spec_DeepCopyInto (G_Spec c) h0;
          (status, h2) = Status_DeepCopyInto l (G_Status c) h1
      in (c\<lparr>G_Meta := copy_meta l (G_Meta c), G_Spec := spec, G_Status := status\<rparr>, h2))"

fun copy_items :: "('e, 't, 'l) lib \<Rightarrow> ('e, 't) GoConfig list \<Rightarrow> ('e, 't) heap \<Rightarrow> ('e, 't) GoConfig list \<times> ('e, 't) heap" where
  "copy_items l [] h = ([], h)"
| "copy_items l (c # cs) h0 =
     (let (c', h1) = Config_DeepCopyInto l c h0; (cs', h2) = copy_items l cs h1 in (c' # cs', h2))"

definition List_DeepCopyInto ::
  "('e, 't, 'l) lib \<Rightarrow> 'l GoList \<Rightarrow> ('e, 't) heap \<Rightarrow> 'l GoList \<times> ('e, 't) heap" where
  "List_DeepCopyInto l xs h0 =
     (let (items, h1) = copy_items l (items_at h0 (L_Items xs)) h0;
          (p, h2) = copy_field (L_Items xs) (CItems items) h1
      in (xs\<lparr>L_ListMeta := copy_list_meta l (L_ListMeta xs), L_Items := p\<rparr>, h2))"

text \<open>The \<^verbatim>\<open>DeepCopy\<close> methods: \<^verbatim>\<open>nil\<close> for \<^verbatim>\<open>nil\<close>, otherwise a new value that is filled.\<close>

definition PortConfig_DeepCopy :: "PortConfig option \<Rightarrow> PortConfig option" where
  "PortConfig_DeepCopy p = (case p of None \<Rightarrow> None | Some x \<Rightarrow> Some (PortConfig_DeepCopyInto x))"

definition WeightConfig_DeepCopy :: "WeightConfig option \<Rightarrow> WeightConfig option" where
  "WeightConfig_DeepCopy p = (case p of None \<Rightarrow> None | Some x \<Rightarrow> Some (WeightConfig_DeepCopyInto x))"

definition HealthCheckConfig_DeepCopy :: "HealthCheckConfig option \<Rightarrow> HealthCheckConfig option" where
  "HealthCheckConfig_DeepCopy p = (case p of None \<Rightarrow> None | Some x \<Rightarrow> Some (HealthCheckConfig_DeepCopyInto x))"

definition Spec_DeepCopy :: "GoSpec option \<Rightarrow> ('e, 't) heap \<Rightarrow> GoSpec option \<times> ('e, 't) heap" where
  "Spec_DeepCopy p h = (case p of None \<Rightarrow> (None, h) | Some x \<Rightarrow> apfst Some (Spec_DeepCopyInto x h))"

definition Status_DeepCopy ::
  "('e, 't, 'l) lib \<Rightarrow> ('e, 't) GoStatus option \<Rightarrow> ('e, 't) heap \<Rightarrow> ('e, 't) GoStatus option \<times> ('e, 't) heap" where
  "Status_DeepCopy l p h = (case p of None \<Rightarrow> (None, h) | Some x \<Rightarrow> apfst Some (Status_DeepCopyInto l x h))"

definition Config_DeepCopy ::
  "('e, 't, 'l) lib \<Rightarrow> ('e, 't) GoConfig option \<Rightarrow> ('e, 't) heap \<Rightarrow> ('e, 't) GoConfig option \<times> ('e, 't) heap" where
  "Config_DeepCopy l p h = (case p of None \<Rightarrow> (None, h) | Some x \<Rightarrow> apfst Some (Config_DeepCopyInto l x h))"

definition List_DeepCopy ::
  "('e, 't, 'l) lib \<Rightarrow> 'l GoList option \<Rightarrow> ('e, 't) heap \<Rightarrow> 'l GoList option \<times> ('e, 't) heap" where
  "List_DeepCopy l p h = (case p of None \<Rightarrow> (None, h) | Some x \<Rightarrow> apfst Some (List_DeepCopyInto l x h))"

definition List_DeepCopyObject ::
  "('e, 't, 'l) lib \<Rightarrow> 'l GoList option \<Rightarrow> ('e, 't) heap \<Rightarrow> 'l GoList option \<times> ('e, 't) heap" where
  "List_DeepCopyObject l p h = (case List_DeepCopy l p h of (Some c, h') \<Rightarrow> (Some c, h') | (None, h') \<Rightarrow> (None, h'))"

definition Config_DeepCopyObject ::
  "('e, 't, 'l) lib \<Rightarrow> ('e, 't) GoConfig option \<Rightarrow> ('e, 't) heap \<Rightarrow> ('e, 't) GoConfig option \<times> ('e, 't) heap" where
  "Config_DeepCopyObject l p h = (case Config_DeepCopy l p h of (Some c, h') \<Rightarrow> (Some c, h') | (None, h') \<Rightarrow> (None, h'))"

section \<open>Values and references\<close>

definition val_spec :: "('e, 't) heap \<Rightarrow> GoSpec \<Rightarrow> HeliosConfigSpec" where
  "val_spec h s =
     \<lparr>IPRange = S_IPRange s, IPv6Range = S_IPv6Range s, Spec_Service = S_Service s, Spec_Protocol = S_Protocol s,
      Ports = ports_at h (S_Ports s), Spec_Method = S_Method s, Weights = weights_at h (S_Weights s),
      HealthCheck = health_at h (S_HealthCheck s), NamespaceSelector = strings_at h (S_NamespaceSelector s),
      MaxAllocations = S_MaxAllocations s\<rparr>"

definition val_status :: "('e, 't) heap \<Rightarrow> ('e, 't) GoStatus \<Rightarrow> 'e HeliosConfigStatus" where
  "val_status h s =
     \<lparr>AllocatedIPs = map_at h (T_AllocatedIPs s), AllocatedIPv6s = map_at h (T_AllocatedIPv6s s), State = T_State s,
      Message = T_Message s, Conditions = conds_at h (T_Conditions s), Phase = T_Phase s\<rparr>"

definition val_config :: "('e, 't) heap \<Rightarrow> ('e, 't) GoConfig \<Rightarrow> (string \<times> string) \<times> 't \<times> 'e HeliosConfig" where
  "val_config h c = (G_TypeMeta c, T_LastUpdated (G_Status c),
     \<lparr>Meta = G_Meta c, Spec = val_spec h (G_Spec c), Status = val_status h (G_Status c)\<rparr>)"

definition val_list :: "('e, 't) heap \<Rightarrow> 'l GoList \<Rightarrow> (string \<times> string) \<times> 'l \<times> ((string \<times> string) \<times> 't \<times> 'e HeliosConfig) list" where
  "val_list h xs = (L_TypeMeta xs, L_ListMeta xs, map (val_config h) (items_at h (L_Items xs)))"

definition spec_refs :: "GoSpec \<Rightarrow> addr set" where
  "spec_refs s = set_option (S_Ports s) \<union> set_option (S_Weights s) \<union> set_option (S_HealthCheck s) \<union> set_option (S_NamespaceSelector s)"

definition status_refs :: "('e, 't) GoStatus \<Rightarrow> addr set" where
  "status_refs s = set_option (T_AllocatedIPs s) \<union> set_option (T_AllocatedIPv6s s) \<union> set_option (T_Conditions s)"

definition config_refs :: "('e, 't) GoConfig \<Rightarrow> addr set" where
  "config_refs c = spec_refs (G_Spec c) \<union> status_refs (G_Status c)"

definition list_refs :: "('e, 't) heap \<Rightarrow> 'l GoList \<Rightarrow> addr set" where
  "list_refs h xs = set_option (L_Items xs) \<union> (\<Union>c \<in> set (items_at h (L_Items xs)). config_refs c)"

text \<open>References point to allocated memory, a health check pointer to a health check, and the keys of a map are different.\<close>

definition config_ok :: "('e, 't) heap \<Rightarrow> ('e, 't) GoConfig \<Rightarrow> bool" where
  "config_ok h c \<longleftrightarrow> config_refs c \<subseteq> {..<brk h}
   \<and> (S_HealthCheck (G_Spec c) = None \<or> health_at h (S_HealthCheck (G_Spec c)) \<noteq> None)
   \<and> distinct (map fst (map_at h (T_AllocatedIPs (G_Status c))))
   \<and> distinct (map fst (map_at h (T_AllocatedIPv6s (G_Status c))))"

definition list_ok :: "('e, 't) heap \<Rightarrow> 'l GoList \<Rightarrow> bool" where
  "list_ok h xs \<longleftrightarrow> set_option (L_Items xs) \<subseteq> {..<brk h} \<and> (\<forall>c \<in> set (items_at h (L_Items xs)). config_ok h c)"

text \<open>The library copies are copies.\<close>

definition lib_ok :: "('e, 't, 'l) lib \<Rightarrow> bool" where
  "lib_ok l \<longleftrightarrow> (\<forall>m. copy_meta l m = m) \<and> (\<forall>t. copy_time l t = t) \<and> (\<forall>c. copy_cond l c = c) \<and> (\<forall>m. copy_list_meta l m = m)"

lemma lib_okD: "lib_ok l \<Longrightarrow> copy_meta l m = m" "lib_ok l \<Longrightarrow> copy_time l t = t" "lib_ok l \<Longrightarrow> copy_cond l c = c"
  "lib_ok l \<Longrightarrow> copy_list_meta l n = n"
  by (simp_all add: lib_ok_def)

subsection \<open>Extension of the memory\<close>

definition extends :: "('e, 't) heap \<Rightarrow> ('e, 't) heap \<Rightarrow> bool" where
  "extends h h' \<longleftrightarrow> brk h \<le> brk h' \<and> (\<forall>a < brk h. cells h' a = cells h a)"

lemma extends_refl [simp]: "extends h h"
  by (simp add: extends_def)

lemma extends_trans [trans]: "extends h1 h2 \<Longrightarrow> extends h2 h3 \<Longrightarrow> extends h1 h3"
  by (auto simp: extends_def)

lemmas at_defs = ports_at_def weights_at_def health_at_def strings_at_def map_at_def conds_at_def items_at_def

lemma at_agree:
  assumes "\<forall>a \<in> set_option p. cells h' a = cells h a"
  shows "ports_at h' p = ports_at h p" "weights_at h' p = weights_at h p" "health_at h' p = health_at h p"
    "strings_at h' p = strings_at h p" "map_at h' p = map_at h p" "conds_at h' p = conds_at h p" "items_at h' p = items_at h p"
  using assms by (cases p; simp add: at_defs)+

lemma val_config_agree:
  assumes "\<forall>a \<in> config_refs c. cells h' a = cells h a"
  shows "val_config h' c = val_config h c" "config_ok h c \<Longrightarrow> brk h \<le> brk h' \<Longrightarrow> config_ok h' c"
proof -
  note a = at_agree [of _ h' h]
  have eq: "ports_at h' (S_Ports (G_Spec c)) = ports_at h (S_Ports (G_Spec c))"
    "weights_at h' (S_Weights (G_Spec c)) = weights_at h (S_Weights (G_Spec c))"
    "health_at h' (S_HealthCheck (G_Spec c)) = health_at h (S_HealthCheck (G_Spec c))"
    "strings_at h' (S_NamespaceSelector (G_Spec c)) = strings_at h (S_NamespaceSelector (G_Spec c))"
    "map_at h' (T_AllocatedIPs (G_Status c)) = map_at h (T_AllocatedIPs (G_Status c))"
    "map_at h' (T_AllocatedIPv6s (G_Status c)) = map_at h (T_AllocatedIPv6s (G_Status c))"
    "conds_at h' (T_Conditions (G_Status c)) = conds_at h (T_Conditions (G_Status c))"
    using assms by (intro a; auto simp: config_refs_def spec_refs_def status_refs_def)+
  then show "val_config h' c = val_config h c" by (simp add: val_config_def val_spec_def val_status_def)
  show "config_ok h c \<Longrightarrow> brk h \<le> brk h' \<Longrightarrow> config_ok h' c" using eq by (auto simp: config_ok_def)
qed

lemma config_extends:
  assumes "extends h h'" "config_ok h c"
  shows "val_config h' c = val_config h c" "config_ok h' c"
  using assms val_config_agree [of c h' h] by (auto simp: extends_def config_ok_def)

lemma copy_field_copies:
  assumes "copy_field p c h = (p', h')"
  shows "extends h h'" "p' = None \<longleftrightarrow> p = None" "set_option p' \<subseteq> {brk h..<brk h'}" "a \<in> set_option p' \<Longrightarrow> cells h' a = Some c"
  using assms by (auto simp: copy_field_def new_cell_def extends_def split: option.splits)

lemma at_extends:
  assumes "extends h h'" "set_option p \<subseteq> {..<brk h}"
  shows "ports_at h' p = ports_at h p" "weights_at h' p = weights_at h p" "health_at h' p = health_at h p"
    "strings_at h' p = strings_at h p" "map_at h' p = map_at h p" "conds_at h' p = conds_at h p" "items_at h' p = items_at h p"
  using assms by (intro at_agree; auto simp: extends_def)+

lemma copied_at:
  "copy_field p (CPorts xs) h = (p', h') \<Longrightarrow> ports_at h' p' = (if p = None then [] else xs)"
  "copy_field p (CWeights ws) h = (p', h') \<Longrightarrow> weights_at h' p' = (if p = None then [] else ws)"
  "copy_field p (CHealth c) h = (p', h') \<Longrightarrow> health_at h' p' = (if p = None then None else Some c)"
  "copy_field p (CStrings ss) h = (p', h') \<Longrightarrow> strings_at h' p' = (if p = None then [] else ss)"
  "copy_field p (CMap m) h = (p', h') \<Longrightarrow> map_at h' p' = (if p = None then [] else m)"
  "copy_field p (CConds cs) h = (p', h') \<Longrightarrow> conds_at h' p' = (if p = None then [] else cs)"
  "copy_field p (CItems gs) h = (p', h') \<Longrightarrow> items_at h' p' = (if p = None then [] else gs)"
  by (auto simp: copy_field_def new_cell_def at_defs split: option.splits)

lemma at_None [simp]:
  "ports_at h None = []" "weights_at h None = []" "health_at h None = None" "strings_at h None = []" "map_at h None = []"
  "conds_at h None = []" "items_at h None = []"
  by (simp_all add: at_defs)

lemma map_set_new: "k \<notin> fst ` set m \<Longrightarrow> map_set k v m = m @ [(k, v)]"
  by (induction m) auto

lemma copy_entries_id:
  assumes "distinct (map fst m)"
  shows "copy_entries m = m"
proof -
  have "fold (\<lambda>(key, val) out. map_set key val out) m acc = acc @ m"
    if "distinct (map fst m)" "fst ` set acc \<inter> fst ` set m = {}" for acc
    using that
  proof (induction m arbitrary: acc)
    case (Cons p m)
    obtain k v where p: "p = (k, v)" by (cases p)
    have "map_set k v acc = acc @ [(k, v)]" using Cons.prems(2) p by (intro map_set_new) auto
    with Cons p show ?case by auto
  qed simp
  from this [of "[]"] assms show ?thesis by (simp add: copy_entries_def)
qed

lemma Spec_copies:
  assumes "Spec_DeepCopyInto s h = (s', h')" "spec_refs s \<subseteq> {..<brk h}"
    "S_HealthCheck s = None \<or> health_at h (S_HealthCheck s) \<noteq> None"
  shows "extends h h' \<and> spec_refs s' \<subseteq> {brk h..<brk h'} \<and> val_spec h' s' = val_spec h s"
proof -
  obtain p1 h1 where 1: "copy_field (S_Ports s) (CPorts (ports_at h (S_Ports s))) h = (p1, h1)" by fastforce
  obtain p2 h2 where 2: "copy_field (S_Weights s) (CWeights (weights_at h1 (S_Weights s))) h1 = (p2, h2)" by fastforce
  obtain p3 h3 where 3: "copy_field (S_HealthCheck s) (CHealth (the (health_at h2 (S_HealthCheck s)))) h2 = (p3, h3)" by fastforce
  obtain p4 h4 where 4: "copy_field (S_NamespaceSelector s) (CStrings (strings_at h3 (S_NamespaceSelector s))) h3 = (p4, h4)" by fastforce
  have r: "s' = s\<lparr>S_Ports := p1, S_Weights := p2, S_HealthCheck := p3, S_NamespaceSelector := p4\<rparr>" "h' = h4"
    using assms(1) 1 2 3 4 by (simp_all add: Spec_DeepCopyInto_def)
  note e = copy_field_copies(1) [OF 1] copy_field_copies(1) [OF 2] copy_field_copies(1) [OF 3] copy_field_copies(1) [OF 4]
  note f = copy_field_copies(3) [OF 1] copy_field_copies(3) [OF 2] copy_field_copies(3) [OF 3] copy_field_copies(3) [OF 4]
  note e12 = extends_trans [OF e(1,2)]
  note e13 = extends_trans [OF e12 e(3)]
  note e14 = extends_trans [OF e13 e(4)] and e24 = extends_trans [OF extends_trans [OF e(2,3)] e(4)] and e34 = extends_trans [OF e(3,4)]
  have b: "brk h \<le> brk h1" "brk h1 \<le> brk h2" "brk h2 \<le> brk h3" "brk h3 \<le> brk h4" using e by (simp_all add: extends_def)
  have refs: "set_option (S_Ports s) \<subseteq> {..<brk h}" "set_option (S_Weights s) \<subseteq> {..<brk h}"
    "set_option (S_HealthCheck s) \<subseteq> {..<brk h}" "set_option (S_NamespaceSelector s) \<subseteq> {..<brk h}"
    using assms(2) by (auto simp: spec_refs_def)
  have g: "set_option p1 \<subseteq> {..<brk h1}" "set_option p2 \<subseteq> {..<brk h2}" "set_option p3 \<subseteq> {..<brk h3}" using f by fastforce+
  have "ports_at h4 p1 = ports_at h (S_Ports s)"
    using at_extends(1) [OF e24 g(1)] copied_at(1) [OF 1] by (cases "S_Ports s") auto
  moreover have "weights_at h4 p2 = weights_at h (S_Weights s)"
    using at_extends(2) [OF e34 g(2)] copied_at(2) [OF 2] at_extends(2) [OF e(1) refs(2)] by (cases "S_Weights s") auto
  moreover have "health_at h4 p3 = health_at h (S_HealthCheck s)"
    using at_extends(3) [OF e(4) g(3)] copied_at(3) [OF 3] at_extends(3) [OF e12 refs(3)] assms(3)
    by (cases "S_HealthCheck s") auto
  moreover have "strings_at h4 p4 = strings_at h (S_NamespaceSelector s)"
    using copied_at(4) [OF 4] at_extends(4) [OF e13 refs(4)] by (cases "S_NamespaceSelector s") auto
  moreover have "spec_refs s' \<subseteq> {brk h..<brk h4}" using f b unfolding r by (fastforce simp: spec_refs_def)
  ultimately show ?thesis using e14 unfolding r by (simp add: val_spec_def)
qed

lemma Status_copies:
  assumes "Status_DeepCopyInto l s h = (s', h')" "lib_ok l" "status_refs s \<subseteq> {..<brk h}"
    "distinct (map fst (map_at h (T_AllocatedIPs s)))" "distinct (map fst (map_at h (T_AllocatedIPv6s s)))"
  shows "extends h h' \<and> status_refs s' \<subseteq> {brk h..<brk h'} \<and> val_status h' s' = val_status h s \<and> T_LastUpdated s' = T_LastUpdated s"
proof -
  obtain p1 h1 where 1: "copy_field (T_AllocatedIPs s) (CMap (copy_entries (map_at h (T_AllocatedIPs s)))) h = (p1, h1)" by fastforce
  obtain p2 h2 where 2: "copy_field (T_AllocatedIPv6s s) (CMap (copy_entries (map_at h1 (T_AllocatedIPv6s s)))) h1 = (p2, h2)" by fastforce
  obtain p3 h3 where 3: "copy_field (T_Conditions s) (CConds (map (copy_cond l) (conds_at h2 (T_Conditions s)))) h2 = (p3, h3)" by fastforce
  have r: "s' = s\<lparr>T_AllocatedIPs := p1, T_AllocatedIPv6s := p2, T_LastUpdated := T_LastUpdated s, T_Conditions := p3\<rparr>" "h' = h3"
    using assms(1) 1 2 3 lib_okD(2) [OF assms(2)] by (simp_all add: Status_DeepCopyInto_def)
  have conds: "map (copy_cond l) cs = cs" for cs using lib_okD(3) [OF assms(2)] by (simp add: map_idI)
  note e = copy_field_copies(1) [OF 1] copy_field_copies(1) [OF 2] copy_field_copies(1) [OF 3]
  note f = copy_field_copies(3) [OF 1] copy_field_copies(3) [OF 2] copy_field_copies(3) [OF 3]
  note e12 = extends_trans [OF e(1,2)]
  note e13 = extends_trans [OF e12 e(3)] and e23 = extends_trans [OF e(2,3)]
  have b: "brk h \<le> brk h1" "brk h1 \<le> brk h2" "brk h2 \<le> brk h3" using e by (simp_all add: extends_def)
  have refs: "set_option (T_AllocatedIPv6s s) \<subseteq> {..<brk h}" "set_option (T_Conditions s) \<subseteq> {..<brk h}"
    using assms(3) by (auto simp: status_refs_def)
  have g: "set_option p1 \<subseteq> {..<brk h1}" "set_option p2 \<subseteq> {..<brk h2}" using f by fastforce+
  have "map_at h3 p1 = map_at h (T_AllocatedIPs s)"
    using at_extends(5) [OF e23 g(1)] copied_at(5) [OF 1] copy_entries_id [OF assms(4)] by (cases "T_AllocatedIPs s") auto
  moreover have "map_at h3 p2 = map_at h (T_AllocatedIPv6s s)"
    using at_extends(5) [OF e(3) g(2)] copied_at(5) [OF 2] at_extends(5) [OF e(1) refs(1)] copy_entries_id [OF assms(5)]
    by (cases "T_AllocatedIPv6s s") auto
  moreover have "conds_at h3 p3 = conds_at h (T_Conditions s)"
    using copied_at(6) [OF 3] at_extends(6) [OF e12 refs(2)] by (cases "T_Conditions s") (auto simp: conds)
  moreover have "status_refs s' \<subseteq> {brk h..<brk h3}" using f b unfolding r by (fastforce simp: status_refs_def)
  ultimately show ?thesis using e13 unfolding r by (simp add: val_status_def)
qed

lemma val_extends:
  assumes "extends h h'"
  shows "spec_refs s \<subseteq> {..<brk h} \<Longrightarrow> val_spec h' s = val_spec h s"
    "status_refs t \<subseteq> {..<brk h} \<Longrightarrow> val_status h' t = val_status h t"
  using at_extends [OF assms] by (auto simp: val_spec_def val_status_def spec_refs_def status_refs_def)

lemma Config_copies:
  assumes "Config_DeepCopyInto l c h = (c', h')" "lib_ok l" "config_ok h c"
  shows "extends h h' \<and> config_refs c' \<subseteq> {brk h..<brk h'} \<and> val_config h' c' = val_config h c"
proof -
  obtain s h1 where 1: "Spec_DeepCopyInto (G_Spec c) h = (s, h1)" by fastforce
  obtain t h2 where 2: "Status_DeepCopyInto l (G_Status c) h1 = (t, h2)" by fastforce
  have r: "c' = c\<lparr>G_Meta := G_Meta c, G_Spec := s, G_Status := t\<rparr>" "h' = h2"
    using assms(1) 1 2 lib_okD(1) [OF assms(2)] by (simp_all add: Config_DeepCopyInto_def)
  have refs: "spec_refs (G_Spec c) \<subseteq> {..<brk h}" "status_refs (G_Status c) \<subseteq> {..<brk h}"
    using assms(3) by (auto simp: config_ok_def config_refs_def)
  have spec: "extends h h1" "spec_refs s \<subseteq> {brk h..<brk h1}" "val_spec h1 s = val_spec h (G_Spec c)"
    using Spec_copies [OF 1 refs(1)] assms(3) by (simp_all add: config_ok_def)
  have "brk h \<le> brk h1" using spec(1) by (simp add: extends_def)
  then have refs1: "status_refs (G_Status c) \<subseteq> {..<brk h1}" "spec_refs s \<subseteq> {..<brk h1}" using refs(2) spec(2) by fastforce+
  have "config_ok h1 c" using config_extends(2) [OF spec(1) assms(3)] .
  then have status: "extends h1 h2" "status_refs t \<subseteq> {brk h1..<brk h2}" "val_status h2 t = val_status h1 (G_Status c)"
    "T_LastUpdated t = T_LastUpdated (G_Status c)"
    using Status_copies [OF 2 assms(2) refs1(1)] by (simp_all add: config_ok_def)
  have "val_spec h2 s = val_spec h (G_Spec c)" using val_extends(1) [OF status(1) refs1(2)] spec(3) by simp
  moreover have "val_status h2 t = val_status h (G_Status c)" using status(3) val_extends(2) [OF spec(1) refs(2)] by simp
  moreover have "config_refs c' \<subseteq> {brk h..<brk h2}"
    using spec(1,2) status(1,2) unfolding r by (fastforce simp: config_refs_def extends_def)
  ultimately show ?thesis
    using extends_trans [OF spec(1) status(1)] status(4) unfolding r by (simp add: val_config_def)
qed

lemma copy_items_copies:
  assumes "lib_ok l"
  shows "copy_items l cs h = (cs', h') \<Longrightarrow> \<forall>c \<in> set cs. config_ok h c
    \<Longrightarrow> extends h h' \<and> (\<Union>c \<in> set cs'. config_refs c) \<subseteq> {brk h..<brk h'} \<and> map (val_config h') cs' = map (val_config h) cs"
proof (induction cs arbitrary: h cs' h')
  case (Cons c cs)
  obtain d h1 where 1: "Config_DeepCopyInto l c h = (d, h1)" by fastforce
  obtain ds h2 where 2: "copy_items l cs h1 = (ds, h2)" by fastforce
  have r: "cs' = d # ds" "h' = h2" using Cons.prems(1) 1 2 by simp_all
  have c: "extends h h1" "config_refs d \<subseteq> {brk h..<brk h1}" "val_config h1 d = val_config h c"
    using Config_copies [OF 1 assms] Cons.prems(2) by simp_all
  have ok: "\<forall>x \<in> set cs. config_ok h1 x" using Cons.prems(2) config_extends(2) [OF c(1)] by simp
  have ds: "extends h1 h2" "(\<Union>c \<in> set ds. config_refs c) \<subseteq> {brk h1..<brk h2}" "map (val_config h2) ds = map (val_config h1) cs"
    using Cons.IH [OF 2 ok] by simp_all
  have "map (val_config h1) cs = map (val_config h) cs" using Cons.prems(2) config_extends(1) [OF c(1)] by simp
  moreover have "val_config h2 d = val_config h1 d"
    using c(2) ds(1) by (intro val_config_agree(1)) (auto simp: extends_def)
  moreover have "(\<Union>c \<in> set (d # ds). config_refs c) \<subseteq> {brk h..<brk h2}"
    using c(1,2) ds(1,2) by (fastforce simp: extends_def)
  ultimately show ?case using extends_trans [OF c(1) ds(1)] c(3) ds(3) unfolding r by simp
qed simp

lemma List_copies:
  assumes "List_DeepCopyInto l xs h = (xs', h')" "lib_ok l" "list_ok h xs"
  shows "extends h h' \<and> list_refs h' xs' \<subseteq> {brk h..<brk h'} \<and> val_list h' xs' = val_list h xs"
proof -
  obtain new h1 where 1: "copy_items l (items_at h (L_Items xs)) h = (new, h1)" by fastforce
  obtain p h2 where 2: "copy_field (L_Items xs) (CItems new) h1 = (p, h2)" by fastforce
  have r: "xs' = xs\<lparr>L_ListMeta := L_ListMeta xs, L_Items := p\<rparr>" "h' = h2"
    using assms(1) 1 2 lib_okD(4) [OF assms(2)] by (simp_all add: List_DeepCopyInto_def)
  have c: "extends h h1" "(\<Union>c \<in> set new. config_refs c) \<subseteq> {brk h..<brk h1}" "map (val_config h1) new = map (val_config h) (items_at h (L_Items xs))"
    using copy_items_copies [OF assms(2) 1] assms(3) by (simp_all add: list_ok_def)
  note f = copy_field_copies(1,3) [OF 2]
  have items: "items_at h2 p = new" using copied_at(7) [OF 2] 1 by (cases "L_Items xs") auto
  have "val_config h2 x = val_config h1 x" if "x \<in> set new" for x
  proof (rule val_config_agree(1))
    have "config_refs x \<subseteq> {brk h..<brk h1}" using c(2) that by blast
    then show "\<forall>a \<in> config_refs x. cells h2 a = cells h1 a" using f(1) by (auto simp: extends_def)
  qed
  then have "map (val_config h2) new = map (val_config h1) new" by simp
  moreover have "list_refs h2 xs' \<subseteq> {brk h..<brk h2}"
  proof -
    have "brk h \<le> brk h1" "brk h1 \<le> brk h2" using c(1) f(1) by (simp_all add: extends_def)
    then have "{brk h1..<brk h2} \<subseteq> {brk h..<brk h2}" "{brk h..<brk h1} \<subseteq> {brk h..<brk h2}" by auto
    from order_trans [OF f(2) this(1)] order_trans [OF c(2) this(2)]
    have "set_option p \<union> (\<Union>c \<in> set new. config_refs c) \<subseteq> {brk h..<brk h2}" by (rule Un_least)
    moreover have "L_Items xs' = p" by (simp add: r)
    ultimately show ?thesis unfolding list_refs_def by (simp only: items)
  qed
  ultimately show ?thesis using extends_trans [OF c(1) f(1)] c(3) items unfolding r by (simp add: val_list_def)
qed

lemma val_list_agree:
  assumes "\<forall>a \<in> list_refs h xs. cells h' a = cells h a"
  shows "val_list h' xs = val_list h xs"
proof -
  have "items_at h' (L_Items xs) = items_at h (L_Items xs)" using assms by (intro at_agree) (auto simp: list_refs_def)
  moreover have "val_config h' c = val_config h c" if "c \<in> set (items_at h (L_Items xs))" for c
    using assms that by (intro val_config_agree(1)) (auto simp: list_refs_def)
  ultimately show ?thesis by (simp add: val_list_def)
qed

text \<open>A list of one configuration with a namespace selector and one recorded address.\<close>

definition example_heap :: "(unit, unit) heap" where
  "example_heap = \<lparr>cells = [0 \<mapsto> CStrings [''default''], 1 \<mapsto> CMap [(''web'', ''10.0.0.1'')],
     2 \<mapsto> CItems [\<lparr>G_TypeMeta = (''HeliosConfig'', ''v1''),
       G_Meta = \<lparr>Name = ''a'', Namespace = ''default'', Generation = 1, DeletionTimestamp = None, Finalizers = []\<rparr>,
       G_Spec = \<lparr>S_IPRange = ''10.0.0.0/29'', S_IPv6Range = [], S_Service = [], S_Protocol = [], S_Ports = None, S_Method = [],
         S_Weights = None, S_HealthCheck = None, S_NamespaceSelector = Some 0, S_MaxAllocations = 0\<rparr>,
       G_Status = \<lparr>T_AllocatedIPs = Some 1, T_AllocatedIPv6s = None, T_State = [], T_Message = MsgText [], T_LastUpdated = (),
         T_Conditions = None, T_Phase = []\<rparr>\<rparr>]], brk = 3\<rparr>"

definition example_items :: "unit GoList" where
  "example_items = \<lparr>L_TypeMeta = (''HeliosConfigList'', ''v1''), L_ListMeta = (), L_Items = Some 2\<rparr>"

definition example_lib :: "(unit, unit, unit) lib" where
  "example_lib = \<lparr>copy_meta = id, copy_time = id, copy_cond = id, copy_list_meta = id\<rparr>"

section \<open>Properties\<close>

text \<open>C30: a deep copy of a list of configurations has the value of the original and shares no memory with it: whatever is
  written afterwards to memory of the copy, the original keeps its value.\<close>

theorem DeepCopy_separate:
  assumes "List_DeepCopyObject l (Some xs) h = (Some xs', h')" "lib_ok l" "list_ok h xs"
  shows "val_list h' xs' = val_list h xs \<and> list_refs h' xs' \<inter> list_refs h xs = {}
    \<and> (\<forall>a \<in> list_refs h' xs'. \<forall>c. val_list (h'\<lparr>cells := (cells h')(a \<mapsto> c)\<rparr>) xs = val_list h xs)"
proof -
  have "List_DeepCopyInto l xs h = (xs', h')"
    using assms(1) by (cases "List_DeepCopyInto l xs h") (simp add: List_DeepCopyObject_def List_DeepCopy_def)
  note copy = List_copies [OF this assms(2,3)]
  have old: "list_refs h xs \<subseteq> {..<brk h}"
    using assms(3) by (auto simp: list_ok_def list_refs_def config_ok_def)
  have "val_list (h'\<lparr>cells := (cells h')(a \<mapsto> c)\<rparr>) xs = val_list h xs" if "a \<in> list_refs h' xs'" for a c
    using copy old that by (intro val_list_agree) (fastforce simp: extends_def)
  moreover have "list_refs h' xs' \<inter> list_refs h xs = {}" using copy old by fastforce
  ultimately show ?thesis using copy by blast
qed

theorem DeepCopy_separate_witness:
  "\<exists>xs' h'. List_DeepCopyObject example_lib (Some example_items) example_heap = (Some xs', h')
     \<and> val_list h' xs' = val_list example_heap example_items \<and> list_refs h' xs' \<inter> list_refs example_heap example_items = {}
     \<and> list_refs example_heap example_items = {0, 1, 2}"
proof -
  obtain xs' h' where copy: "List_DeepCopyObject example_lib (Some example_items) example_heap = (Some xs', h')"
    by (cases "List_DeepCopyInto example_lib example_items example_heap") (simp add: List_DeepCopyObject_def List_DeepCopy_def)
  have refs: "list_refs example_heap example_items = {0, 1, 2}"
    by (auto simp: list_refs_def example_items_def example_heap_def items_at_def config_refs_def spec_refs_def status_refs_def)
  have ok: "list_ok example_heap example_items"
    by (auto simp: list_ok_def config_ok_def example_items_def example_heap_def items_at_def map_at_def config_refs_def spec_refs_def
        status_refs_def)
  have "lib_ok example_lib" by (simp add: lib_ok_def example_lib_def)
  from DeepCopy_separate [OF copy this ok] copy refs show ?thesis by blast
qed

end
