(* ===== verification/Webhook.thy ===== *)
theory Webhook
  imports Api_Types IP_Allocator
begin

text \<open>
  \<^verbatim>\<open>api/v1/heliosconfig_webhook.go\<close>: the validating admission webhook.  An \<^verbatim>\<open>error\<close> result is an option
  of \<open>webhook_error\<close>, whose constructors carry what the messages quote.  The reader \<^verbatim>\<open>v.Client\<close> is what
  its \<^verbatim>\<open>List\<close> call answers: \<open>None\<close> when no client is wired, \<open>Some None\<close> when the call fails.

  \<^item> The validators of single fields are characterised exactly: \<open>validatePorts_iff\<close>,
    \<open>validateWeights_iff\<close>, \<open>validateHealthCheck_iff\<close>, and \<^verbatim>\<open>validateIPRange\<close> against the parser that the
    allocator uses.
  \<^item> The overlap check is compared with disjointness of the address sets, and \<open>admission\<close> relates the
    stores that admission can produce to the configurations in them whose overlap check did not see the store.
\<close>

section \<open>Validators of single fields\<close>

datatype webhook_error =
    RangeRequired
  | BadCIDR string
  | BadRangeFormat string
  | BadStartIP string
  | BadEndIP string
  | MixedFamilies string
  | StartAfterEnd string
  | InIPRange webhook_error
  | InIPv6Range webhook_error
  | PortOutOfRange i32
  | BadPortProtocol string i32
  | DuplicatePort i32
  | WeightsNeedWRR string
  | WeightNameRequired
  | WeightOutOfRange string i32
  | DuplicateWeight string
  | BadHealthProtocol string
  | HTTPPathRequired
  | RangesOverlap string string string

definition validateIPRange :: "string \<Rightarrow> webhook_error option" where
  "validateIPRange ipRange =
     (if ipRange = [] then Some RangeRequired
      else let trimmed = TrimSpace ipRange in
      if Contains trimmed (CHR ''/'') then
        (case ParseCIDR trimmed of None \<Rightarrow> Some (BadCIDR ipRange) | Some _ \<Rightarrow> None)
      else (case ParseIP trimmed of
         Some _ \<Rightarrow> None
       | None \<Rightarrow>
           let parts = Split trimmed (CHR ''-'') in
           if length parts \<noteq> 2 then Some (BadRangeFormat ipRange)
           else (case ParseIP (TrimSpace (parts ! 0)) of
              None \<Rightarrow> Some (BadStartIP ipRange)
            | Some startIP \<Rightarrow>
                (case ParseIP (TrimSpace (parts ! 1)) of
                   None \<Rightarrow> Some (BadEndIP ipRange)
                 | Some endIP \<Rightarrow>
                     let startNorm = NormalizeIP startIP; endNorm = NormalizeIP endIP in
                     if length startNorm \<noteq> length endNorm then Some (MixedFamilies ipRange)
                     else if CompareIPs startNorm endNorm > 0 then Some (StartAfterEnd ipRange)
                     else None))))"

fun validatePorts_loop :: "(i32 \<rightharpoonup> bool) \<Rightarrow> PortConfig list \<Rightarrow> webhook_error option" where
  "validatePorts_loop seen [] = None"
| "validatePorts_loop seen (p # ps) =
     (if sint (Port p) < 1 \<or> sint (Port p) > 65535 then Some (PortOutOfRange (Port p))
      else if Port_Protocol p \<noteq> [] \<and> Port_Protocol p \<noteq> ProtocolTCP \<and> Port_Protocol p \<noteq> ProtocolUDP
      then Some (BadPortProtocol (Port_Protocol p) (Port p))
      else if map_bool seen (Port p) then Some (DuplicatePort (Port p))
      else validatePorts_loop (seen(Port p \<mapsto> True)) ps)"

definition validatePorts :: "PortConfig list \<Rightarrow> webhook_error option" where
  "validatePorts ports = validatePorts_loop Map.empty ports"

fun validateWeights_loop :: "(string \<rightharpoonup> bool) \<Rightarrow> WeightConfig list \<Rightarrow> webhook_error option" where
  "validateWeights_loop seen [] = None"
| "validateWeights_loop seen (w # ws) =
     (if WC_ServiceName w = [] then Some WeightNameRequired
      else if sint (WC_Weight w) < 1 \<or> sint (WC_Weight w) > 100
      then Some (WeightOutOfRange (WC_ServiceName w) (WC_Weight w))
      else if map_bool seen (WC_ServiceName w) then Some (DuplicateWeight (WC_ServiceName w))
      else validateWeights_loop (seen(WC_ServiceName w \<mapsto> True)) ws)"

definition validateWeights :: "WeightConfig list \<Rightarrow> string \<Rightarrow> webhook_error option" where
  "validateWeights weights meth =
     (if length weights > 0 \<and> meth \<noteq> MethodWeightedRoundRobin then Some (WeightsNeedWRR meth)
      else validateWeights_loop Map.empty weights)"

definition validateHealthCheck :: "HealthCheckConfig option \<Rightarrow> webhook_error option" where
  "validateHealthCheck hc =
     (case hc of
        None \<Rightarrow> None
      | Some h \<Rightarrow>
          if HC_Protocol h \<noteq> [] \<and> HC_Protocol h \<noteq> ProtocolTCP \<and> HC_Protocol h \<noteq> ProtocolHTTP
          then Some (BadHealthProtocol (HC_Protocol h))
          else if HC_Protocol h = ProtocolHTTP \<and> HTTPPath h = [] then Some HTTPPathRequired
          else None)"

section \<open>Overlap with the other configurations\<close>

fun overlap_loop :: "string \<Rightarrow> ip \<Rightarrow> ip \<Rightarrow> string \<Rightarrow> bool \<Rightarrow> 'e HeliosConfig list \<Rightarrow> webhook_error option" where
  "overlap_loop newRange newStart newEnd excludeName useIPv6 [] = None"
| "overlap_loop newRange newStart newEnd excludeName useIPv6 (existing # items) =
     (let rest = overlap_loop newRange newStart newEnd excludeName useIPv6 items;
          exRange = (if useIPv6 then IPv6Range (Spec existing) else IPRange (Spec existing))
      in if Name (Meta existing) = excludeName then rest
      else if exRange = [] then rest
      else (case ParseIPRange exRange of
         Inl _ \<Rightarrow> rest
       | Inr (existStart, existEnd) \<Rightarrow>
           if CompareIPs newStart existEnd \<le> 0 \<and> CompareIPs newEnd existStart \<ge> 0
           then Some (RangesOverlap newRange (Name (Meta existing)) exRange)
           else rest))"

definition overlapForRange :: "string \<Rightarrow> string \<Rightarrow> 'e HeliosConfig list \<Rightarrow> bool \<Rightarrow> webhook_error option" where
  "overlapForRange newRange excludeName items useIPv6 =
     (case ParseIPRange newRange of
        Inl _ \<Rightarrow> None
      | Inr (newStart, newEnd) \<Rightarrow> overlap_loop newRange newStart newEnd excludeName useIPv6 items)"

definition checkIPRangeOverlap ::
  "'e HeliosConfigList option \<Rightarrow> 'e HeliosConfig \<Rightarrow> string \<Rightarrow> webhook_error option" where
  "checkIPRangeOverlap listed hc excludeName =
     (case listed of
        None \<Rightarrow> None
      | Some items \<Rightarrow>
          (case overlapForRange (IPRange (Spec hc)) excludeName items False of
             Some err \<Rightarrow> Some err
           | None \<Rightarrow>
               if IPv6Range (Spec hc) \<noteq> [] then overlapForRange (IPv6Range (Spec hc)) excludeName items True
               else None))"

section \<open>The three handlers\<close>

type_synonym 'e validator_client = "'e HeliosConfigList option option"

definition validateSpec :: "'e validator_client \<Rightarrow> 'e HeliosConfig \<Rightarrow> string \<Rightarrow> webhook_error option" where
  "validateSpec client hc excludeName =
     (case validateIPRange (IPRange (Spec hc)) of
        Some err \<Rightarrow> Some (InIPRange err)
      | None \<Rightarrow>
     (case (if IPv6Range (Spec hc) \<noteq> [] then validateIPRange (IPv6Range (Spec hc)) else None) of
        Some err \<Rightarrow> Some (InIPv6Range err)
      | None \<Rightarrow>
     (case validatePorts (Ports (Spec hc)) of
        Some err \<Rightarrow> Some err
      | None \<Rightarrow>
     (case validateWeights (Weights (Spec hc)) (Spec_Method (Spec hc)) of
        Some err \<Rightarrow> Some err
      | None \<Rightarrow>
     (case validateHealthCheck (HealthCheck (Spec hc)) of
        Some err \<Rightarrow> Some err
      | None \<Rightarrow>
     (case client of
        Some listed \<Rightarrow> checkIPRangeOverlap listed hc excludeName
      | None \<Rightarrow> None))))))"

definition ValidateCreate :: "'e validator_client \<Rightarrow> 'e HeliosConfig \<Rightarrow> webhook_error option" where
  "ValidateCreate client hc = validateSpec client hc []"

definition ValidateUpdate :: "'e validator_client \<Rightarrow> 'e HeliosConfig \<Rightarrow> 'e HeliosConfig \<Rightarrow> webhook_error option" where
  "ValidateUpdate client old hc = validateSpec client hc (Name (Meta hc))"

definition ValidateDelete :: "'e validator_client \<Rightarrow> 'e HeliosConfig \<Rightarrow> webhook_error option" where
  "ValidateDelete client hc = None"

lemmas [go_eval] = validateIPRange_def validatePorts_def validateWeights_def validateHealthCheck_def
  overlapForRange_def checkIPRangeOverlap_def validateSpec_def ValidateCreate_def ValidateUpdate_def

section \<open>What the field validators accept\<close>

definition port_ok :: "PortConfig \<Rightarrow> bool" where
  "port_ok p \<longleftrightarrow> 1 \<le> sint (Port p) \<and> sint (Port p) \<le> 65535 \<and> Port_Protocol p \<in> {[], ProtocolTCP, ProtocolUDP}"

lemma validatePorts_loop_iff:
  "validatePorts_loop seen ps = None \<longleftrightarrow>
     list_all port_ok ps \<and> distinct (map Port ps) \<and> (\<forall>p \<in> set ps. \<not> map_bool seen (Port p))"
proof (induction ps arbitrary: seen)
  case (Cons p ps)
  show ?case
  proof (cases "port_ok p \<and> \<not> map_bool seen (Port p)")
    case True
    then have step: "validatePorts_loop seen (p # ps) = validatePorts_loop (seen(Port p \<mapsto> True)) ps"
      by (auto simp: port_ok_def)
    show ?thesis unfolding step Cons.IH seen_step using True by auto
  next
    case False
    then show ?thesis by (auto simp: port_ok_def not_less)
  qed
qed simp

lemma validatePorts_iff: "validatePorts ps = None \<longleftrightarrow> list_all port_ok ps \<and> distinct (map Port ps)"
  by (simp add: validatePorts_def validatePorts_loop_iff)

definition weight_ok :: "WeightConfig \<Rightarrow> bool" where
  "weight_ok w \<longleftrightarrow> WC_ServiceName w \<noteq> [] \<and> 1 \<le> sint (WC_Weight w) \<and> sint (WC_Weight w) \<le> 100"

lemma validateWeights_loop_iff:
  "validateWeights_loop seen ws = None \<longleftrightarrow>
     list_all weight_ok ws \<and> distinct (map WC_ServiceName ws) \<and> (\<forall>w \<in> set ws. \<not> map_bool seen (WC_ServiceName w))"
proof (induction ws arbitrary: seen)
  case (Cons w ws)
  show ?case
  proof (cases "weight_ok w \<and> \<not> map_bool seen (WC_ServiceName w)")
    case True
    then have step: "validateWeights_loop seen (w # ws) = validateWeights_loop (seen(WC_ServiceName w \<mapsto> True)) ws"
      by (simp add: weight_ok_def)
    show ?thesis unfolding step Cons.IH seen_step using True by auto
  next
    case False
    then show ?thesis by (auto simp: weight_ok_def not_less)
  qed
qed simp

lemma validateWeights_iff:
  "validateWeights ws meth = None \<longleftrightarrow>
     (ws = [] \<or> meth = MethodWeightedRoundRobin) \<and> list_all weight_ok ws \<and> distinct (map WC_ServiceName ws)"
  by (auto simp: validateWeights_def validateWeights_loop_iff)

definition health_ok :: "HealthCheckConfig \<Rightarrow> bool" where
  "health_ok h \<longleftrightarrow> HC_Protocol h \<in> {[], ProtocolTCP, ProtocolHTTP} \<and> (HC_Protocol h = ProtocolHTTP \<longrightarrow> HTTPPath h \<noteq> [])"

lemma validateHealthCheck_iff: "validateHealthCheck hc = None \<longleftrightarrow> pred_option health_ok hc"
  by (auto simp: validateHealthCheck_def health_ok_def split: option.splits)

section \<open>Ranges that the webhook accepts\<close>

lemma CompareIPs_le: "CompareIPs a b \<le> 0 \<longleftrightarrow> NormalizeIP a \<le> NormalizeIP b"
  and CompareIPs_ge: "CompareIPs a b \<ge> 0 \<longleftrightarrow> NormalizeIP b \<le> NormalizeIP a"
  and CompareIPs_gt: "CompareIPs a b > 0 \<longleftrightarrow> NormalizeIP b < NormalizeIP a"
  by (simp_all add: CompareIPs_def)

lemma validateIPRange_slash:
  assumes "CHR ''/'' \<in> set r"
  shows "validateIPRange r = None \<longleftrightarrow> (\<exists>s e. ParseIPRange r = Inr (s, e))"
  using assms
  by (auto simp: validateIPRange_def ParseIPRange_def Let_def split: option.splits prod.splits)

lemma validateIPRange_dash:
  assumes "CHR ''/'' \<notin> set r" "ParseIP (TrimSpace r) = None" "r \<noteq> []"
  shows "validateIPRange r = None \<longleftrightarrow> (\<exists>s e. ParseIPRange r = Inr (s, e) \<and> length s = length e \<and> s \<le> e)"
  using assms
  by (auto simp: validateIPRange_def ParseIPRange_def Let_def CompareIPs_gt not_less split: option.splits)

lemma validateIPRange_iff:
  "validateIPRange r = None \<longleftrightarrow> (\<exists>s e. ParseIPRange r = Inr (s, e) \<and> length s = length e \<and> s \<le> e)"
proof (cases "r = []")
  case True
  then show ?thesis by (simp add: validateIPRange_def ParseIPRange_empty)
next
  case nonempty: False
  show ?thesis
  proof (cases "CHR ''/'' \<in> set r \<or> ParseIP (TrimSpace r) \<noteq> None")
    case True
    then have "(\<exists>s e. ParseIPRange r = Inr (s, e)) \<longleftrightarrow> validateIPRange r = None"
      using validateIPRange_slash [of r] nonempty
      by (cases "CHR ''/'' \<in> set r") (auto simp: validateIPRange_def ParseIPRange_def)
    then show ?thesis using ParseIPRange_ordered [OF _ True] by blast
  qed (use validateIPRange_dash nonempty in auto)
qed

section \<open>Overlap and disjointness\<close>

text \<open>The addresses of a range, and the ranges for which they are an interval of one family that is
  clear of the IPv4-mapped block.\<close>

definition range_set :: "string \<Rightarrow> ip set" where
  "range_set r = (case ParseIPRange r of Inl _ \<Rightarrow> {} | Inr (s, e) \<Rightarrow> set (pool_list s e))"

definition plain_range :: "string \<Rightarrow> bool" where
  "plain_range r = (case ParseIPRange r of Inl _ \<Rightarrow> False
     | Inr (s, e) \<Rightarrow> length s = length e \<and> s \<le> e \<and> (length s = 4 \<or> 2 ^ 48 \<le> be_val s))"

definition cfg_range :: "bool \<Rightarrow> 'e HeliosConfig \<Rightarrow> string" where
  "cfg_range useIPv6 c = (if useIPv6 then IPv6Range (Spec c) else IPRange (Spec c))"

lemma plain_rangeD:
  assumes "plain_range r" "ParseIPRange r = Inr (s, e)"
  shows "length s = length e" "s \<le> e" "NormalizeIP s = s" "NormalizeIP e = e" "range_set r = set (pool_list s e)"
proof -
  from assms have r: "length s = length e" "s \<le> e" "length s = 4 \<or> 2 ^ 48 \<le> be_val s"
    by (auto simp: plain_range_def)
  then show "length s = length e" "s \<le> e" by simp_all
  have "be_val s \<le> be_val e" using r(1,2) by (simp add: be_val_le_iff)
  with r(1,3) show "NormalizeIP s = s" "NormalizeIP e = e"
    using ParseIPRange_lengths [OF assms(2)] NormalizeIP_big [of s] NormalizeIP_big [of e] by auto
  show "range_set r = set (pool_list s e)" using assms(2) by (simp add: range_set_def)
qed

lemma plain_range_parses: "plain_range r \<Longrightarrow> \<exists>s e. ParseIPRange r = Inr (s, e)"
  by (auto simp: plain_range_def split: sum.splits)

lemma pool_list_length: "x \<in> set (pool_list s e) \<Longrightarrow> length x = length s"
  by (auto simp: pool_list_def)

lemma pool_list_bounds: "length s = length e \<Longrightarrow> x \<in> set (pool_list s e) \<Longrightarrow> s \<le> x \<and> x \<le> e"
  by (rule iffD1 [OF in_pool_list]) (auto simp: pool_list_length)

lemma pool_list_intro: "length s = length e \<Longrightarrow> length x = length s \<Longrightarrow> s \<le> x \<Longrightarrow> x \<le> e \<Longrightarrow> x \<in> set (pool_list s e)"
  by (rule iffD2 [OF in_pool_list]) auto

lemma pool_lists_meet:
  assumes "length s = length e" "length s' = length e'" "length s = length s'" "s \<le> e" "s' \<le> e'"
  shows "set (pool_list s e) \<inter> set (pool_list s' e') \<noteq> {} \<longleftrightarrow> s \<le> e' \<and> s' \<le> e"
proof
  assume "set (pool_list s e) \<inter> set (pool_list s' e') \<noteq> {}"
  then obtain x where "x \<in> set (pool_list s e)" "x \<in> set (pool_list s' e')" by blast
  then show "s \<le> e' \<and> s' \<le> e"
    using pool_list_bounds [OF assms(1)] pool_list_bounds [OF assms(2)] order_trans by blast
next
  assume "s \<le> e' \<and> s' \<le> e"
  then have "max s s' \<in> set (pool_list s e)" "max s s' \<in> set (pool_list s' e')"
    using assms by (auto intro!: pool_list_intro simp: max_def)
  then show "set (pool_list s e) \<inter> set (pool_list s' e') \<noteq> {}" by blast
qed

lemma range_sets_meet:
  assumes "plain_range r" "ParseIPRange r = Inr (s, e)" "plain_range r'" "ParseIPRange r' = Inr (s', e')"
  shows "range_set r \<inter> range_set r' \<noteq> {} \<longleftrightarrow>
    length s = length s' \<and> CompareIPs s e' \<le> 0 \<and> CompareIPs e s' \<ge> 0"
proof -
  note s = plain_rangeD [OF assms(1,2)] and s' = plain_rangeD [OF assms(3,4)]
  show ?thesis
  proof (cases "length s = length s'")
    case True
    then show ?thesis
      using pool_lists_meet [OF s(1) s'(1) True s(2) s'(2)] s(3-5) s'(3-5)
      by (simp add: CompareIPs_le CompareIPs_ge)
  next
    case False
    then have "set (pool_list s e) \<inter> set (pool_list s' e') = {}"
      using pool_list_length [of _ s e] pool_list_length [of _ s' e'] by fastforce
    with False show ?thesis using s(5) s'(5) by simp
  qed
qed

lemma overlap_loop_None:
  "overlap_loop r s e ex v6 items = None \<longleftrightarrow>
     (\<forall>c \<in> set items. Name (Meta c) = ex \<or> cfg_range v6 c = [] \<or>
        (\<forall>s' e'. ParseIPRange (cfg_range v6 c) = Inr (s', e') \<longrightarrow> \<not> (CompareIPs s e' \<le> 0 \<and> CompareIPs e s' \<ge> 0)))"
proof (induction items)
  case (Cons c items)
  have step: "overlap_loop r s e ex v6 (c # items) = None \<longleftrightarrow>
    (Name (Meta c) = ex \<or> cfg_range v6 c = [] \<or>
        (\<forall>s' e'. ParseIPRange (cfg_range v6 c) = Inr (s', e') \<longrightarrow> \<not> (CompareIPs s e' \<le> 0 \<and> CompareIPs e s' \<ge> 0)))
    \<and> overlap_loop r s e ex v6 items = None"
    by (simp add: cfg_range_def [symmetric] Let_def split: sum.split prod.split)
  show ?case unfolding step Cons.IH by simp
qed simp

lemma overlapForRange_sound:
  assumes "overlapForRange r ex items v6 = None" "c \<in> set items" "Name (Meta c) \<noteq> ex"
    "plain_range r" "plain_range (cfg_range v6 c)"
  shows "range_set r \<inter> range_set (cfg_range v6 c) = {}"
proof -
  from assms(4) obtain s e where r: "ParseIPRange r = Inr (s, e)" using plain_range_parses by blast
  from assms(5) obtain s' e' where r': "ParseIPRange (cfg_range v6 c) = Inr (s', e')" using plain_range_parses by blast
  then have "cfg_range v6 c \<noteq> []" by (auto simp: ParseIPRange_empty)
  with assms(1-3) r r' show ?thesis
    using range_sets_meet [OF assms(4) r assms(5) r'] by (auto simp: overlapForRange_def overlap_loop_None)
qed

lemma validateSpec_ranges:
  assumes "validateSpec (Some (Some items)) hc ex = None" "cfg_range v6 hc \<noteq> []"
  shows "overlapForRange (cfg_range v6 hc) ex items v6 = None"
  using assms
  by (cases v6) (auto simp: validateSpec_def checkIPRangeOverlap_def cfg_range_def split: option.splits if_splits)

lemma validateSpec_iff_parts:
  "validateSpec client hc ex = None \<longleftrightarrow>
     validateIPRange (IPRange (Spec hc)) = None \<and> (IPv6Range (Spec hc) = [] \<or> validateIPRange (IPv6Range (Spec hc)) = None)
   \<and> validatePorts (Ports (Spec hc)) = None \<and> validateWeights (Weights (Spec hc)) (Spec_Method (Spec hc)) = None
   \<and> validateHealthCheck (HealthCheck (Spec hc)) = None
   \<and> (case client of None \<Rightarrow> True | Some listed \<Rightarrow> checkIPRangeOverlap listed hc ex = None)"
  by (auto simp: validateSpec_def split: option.splits)

section \<open>Stores that admission can produce\<close>

text \<open>Configurations enter, change and leave through the webhook.  Nothing is assumed about its client: it may be missing, its
  \<^verbatim>\<open>List\<close> may fail, in which case the overlap check is skipped, and it may answer with anything else than the store.  The set has
  the configurations whose last validation did not see the store.  An update that leaves the key and the specification alone
  (the controller writing the status or the finalizers) is always possible.\<close>

definition config_key :: "'e HeliosConfig \<Rightarrow> string \<times> string" where
  "config_key c = (Namespace (Meta c), Name (Meta c))"

definition unseen :: "'e validator_client \<Rightarrow> 'e HeliosConfigList \<Rightarrow> string \<times> string \<Rightarrow> (string \<times> string) set \<Rightarrow> (string \<times> string) set" where
  "unseen client items key U = (if client = Some (Some items) then U - {key} else insert key U)"

inductive admission :: "(string \<times> string) set \<Rightarrow> 'e HeliosConfigList \<Rightarrow> bool" where
  empty: "admission {} []"
| create: "admission U items \<Longrightarrow> ValidateCreate client hc = None \<Longrightarrow> Name (Meta hc) \<noteq> [] \<Longrightarrow> config_key hc \<notin> config_key ` set items
    \<Longrightarrow> admission (unseen client items (config_key hc) U) (hc # items)"
| update: "admission U items \<Longrightarrow> old \<in> set items \<Longrightarrow> config_key hc = config_key old \<Longrightarrow> ValidateUpdate client old hc = None
    \<Longrightarrow> admission (unseen client items (config_key hc) U) (map (\<lambda>c. if config_key c = config_key hc then hc else c) items)"
| touch: "admission U items \<Longrightarrow> \<forall>c. config_key (f c) = config_key c \<and> Spec (f c) = Spec c \<Longrightarrow> admission U (map f items)"
| delete: "admission U items \<Longrightarrow> hc \<in> set items \<Longrightarrow> ValidateDelete client hc = None
    \<Longrightarrow> admission (U - {config_key hc}) (filter (\<lambda>c. config_key c \<noteq> config_key hc) items)"

text \<open>The stores of which every configuration was last validated against the store, and in which no two namespaces share a name.\<close>

definition admitted :: "'e HeliosConfigList \<Rightarrow> bool" where
  "admitted items \<longleftrightarrow> admission {} items \<and> distinct (map (\<lambda>c. Name (Meta c)) items)"

definition ranges_disjoint :: "bool \<Rightarrow> 'e HeliosConfig \<Rightarrow> 'e HeliosConfig \<Rightarrow> bool" where
  "ranges_disjoint v6 c d \<longleftrightarrow>
     (plain_range (cfg_range v6 c) \<and> plain_range (cfg_range v6 d) \<longrightarrow>
      range_set (cfg_range v6 c) \<inter> range_set (cfg_range v6 d) = {})"

lemma ranges_disjoint_sym: "ranges_disjoint v6 c d \<longleftrightarrow> ranges_disjoint v6 d c"
  by (auto simp: ranges_disjoint_def)

lemma plain_range_nonempty: "plain_range r \<Longrightarrow> r \<noteq> []"
  by (auto simp: plain_range_def ParseIPRange_empty)

lemma accepted_disjoint:
  assumes "validateSpec (Some (Some items)) hc ex = None" "d \<in> set items" "Name (Meta d) \<noteq> ex"
  shows "ranges_disjoint v6 hc d"
  unfolding ranges_disjoint_def
proof (intro impI, elim conjE)
  assume p: "plain_range (cfg_range v6 hc)" "plain_range (cfg_range v6 d)"
  have "overlapForRange (cfg_range v6 hc) ex items v6 = None"
    using assms(1) plain_range_nonempty [OF p(1)] by (rule validateSpec_ranges)
  then show "range_set (cfg_range v6 hc) \<inter> range_set (cfg_range v6 d) = {}"
    using assms(2,3) p by (rule overlapForRange_sound)
qed

lemma admission_names: "admission U items \<Longrightarrow> c \<in> set items \<Longrightarrow> Name (Meta c) \<noteq> []"
proof (induction arbitrary: c rule: admission.induct)
  case (update U items old hc client)
  then show ?case by (auto simp: config_key_def split: if_splits)
next
  case (touch U items f)
  then show ?case by (auto simp: config_key_def)
qed auto

text \<open>The syntactic checks do not depend on the client: every range of a store parses with its ends in order.\<close>

lemma validateSpec_range:
  assumes "validateSpec client hc ex = None" "cfg_range v6 hc \<noteq> []"
  shows "validateIPRange (cfg_range v6 hc) = None"
  using assms unfolding validateSpec_iff_parts by (cases v6) (auto simp: cfg_range_def)

lemma admission_ranges: "admission U items \<Longrightarrow> c \<in> set items \<Longrightarrow> cfg_range v6 c \<noteq> [] \<Longrightarrow> validateIPRange (cfg_range v6 c) = None"
proof (induction arbitrary: c rule: admission.induct)
  case (create U items client hc)
  then show ?case using validateSpec_range [of client hc "[]" v6] by (auto simp: ValidateCreate_def)
next
  case (update U items old hc client)
  then show ?case using validateSpec_range [of client hc "Name (Meta hc)" v6] by (auto simp: ValidateUpdate_def split: if_splits)
next
  case (touch U items f)
  then show ?case by (auto simp: cfg_range_def)
qed auto

lemma unseenD:
  "key \<notin> unseen client items key' U \<Longrightarrow> key = key' \<Longrightarrow> client = Some (Some items)"
  "key \<notin> unseen client items key' U \<Longrightarrow> key \<noteq> key' \<Longrightarrow> key \<notin> U"
  by (auto simp: unseen_def split: if_splits)

lemma admission_pairs:
  assumes "admission U items" "c \<in> set items" "d \<in> set items" "Name (Meta c) \<noteq> Name (Meta d)" "config_key c \<notin> U" "config_key d \<notin> U"
  shows "ranges_disjoint v6 c d"
  using assms
proof (induction arbitrary: c d rule: admission.induct)
  case (create U items client hc)
  have new: "ranges_disjoint v6 hc d" if "d \<in> set items" "config_key hc \<notin> unseen client items (config_key hc) U" for d
    using create.hyps(2) unseenD(1) [OF that(2) refl] that(1) admission_names [OF create.hyps(1) that(1)]
    unfolding ValidateCreate_def by (auto intro: accepted_disjoint)
  have key: "config_key d \<noteq> config_key hc" if "d \<in> set items" for d using create.hyps(4) that by (metis imageI)
  show ?case
    using create.prems create.IH new unseenD(2) [OF _ key] ranges_disjoint_sym by (metis set_ConsD)
next
  case (update U items old hc client)
  have new: "ranges_disjoint v6 hc d"
    if "d \<in> set items" "Name (Meta d) \<noteq> Name (Meta hc)" "config_key hc \<notin> unseen client items (config_key hc) U" for d
    using update.hyps(4) unseenD(1) [OF that(3) refl] that(1,2) unfolding ValidateUpdate_def by (auto intro: accepted_disjoint)
  obtain c0 d0 where cd: "c0 \<in> set items" "c = (if config_key c0 = config_key hc then hc else c0)"
    "d0 \<in> set items" "d = (if config_key d0 = config_key hc then hc else d0)" using update.prems(1,2) by auto
  show ?case
  proof (cases "config_key c0 = config_key hc"; cases "config_key d0 = config_key hc")
    assume k: "config_key c0 \<noteq> config_key hc" "config_key d0 \<noteq> config_key hc"
    then have "config_key c \<notin> U" "config_key d \<notin> U"
      using unseenD(2) [OF update.prems(4)] unseenD(2) [OF update.prems(5)] cd(2,4) by simp_all
    then show ?thesis using update.IH [of c d] update.prems(3) cd k by simp
  next
    assume k: "config_key c0 = config_key hc" "config_key d0 \<noteq> config_key hc"
    then show ?thesis using new [of d] update.prems cd by simp
  next
    assume k: "config_key c0 \<noteq> config_key hc" "config_key d0 = config_key hc"
    then show ?thesis using new [of c] update.prems cd ranges_disjoint_sym [of v6 c hc] by simp
  qed (use update.prems cd in simp)
next
  case (touch U items f)
  obtain c0 d0 where cd: "c0 \<in> set items" "c = f c0" "d0 \<in> set items" "d = f d0" using touch.prems(1,2) by auto
  have f: "config_key (f x) = config_key x" "Name (Meta (f x)) = Name (Meta x)" "Spec (f x) = Spec x" for x
    using touch.hyps(2) by (auto simp: config_key_def)
  have "ranges_disjoint v6 c0 d0" using touch.IH [of c0 d0] touch.prems cd f by simp
  moreover have "cfg_range v6 (f x) = cfg_range v6 x" for x using f(3) by (simp add: cfg_range_def)
  ultimately show ?case using cd(2,4) by (simp add: ranges_disjoint_def)
qed auto

lemma admitted_pairs:
  "admitted items \<Longrightarrow> c \<in> set items \<Longrightarrow> d \<in> set items \<Longrightarrow> Name (Meta c) \<noteq> Name (Meta d) \<Longrightarrow> ranges_disjoint v6 c d"
  unfolding admitted_def using admission_pairs by blast

lemma admitted_unique:
  "admitted items \<Longrightarrow> c \<in> set items \<Longrightarrow> d \<in> set items \<Longrightarrow> Name (Meta c) = Name (Meta d) \<Longrightarrow> c = d"
  by (auto simp: admitted_def distinct_map dest: inj_onD)

text \<open>Two configurations that are created one after the other.\<close>

lemma admission_two:
  assumes "ValidateCreate client a = None" "ValidateCreate client' b = None" "Name (Meta a) \<noteq> []" "Name (Meta b) \<noteq> []"
    "config_key a \<noteq> config_key b"
  shows "admission (unseen client' [a] (config_key b) (unseen client [] (config_key a) {})) [b, a]"
  using assms by (intro admission.create admission.empty) auto

definition example_config :: "string \<Rightarrow> string \<Rightarrow> string \<Rightarrow> string \<Rightarrow> 'e HeliosConfig" where
  "example_config ns nm r r6 =
     \<lparr>Meta = \<lparr>Name = nm, Namespace = ns, Generation = 1, DeletionTimestamp = None, Finalizers = []\<rparr>,
      Spec = \<lparr>IPRange = r, IPv6Range = r6, Spec_Service = [], Spec_Protocol = [], Ports = [], Spec_Method = [],
        Weights = [], HealthCheck = None, NamespaceSelector = [], MaxAllocations = 0\<rparr>,
      Status = \<lparr>AllocatedIPs = [], AllocatedIPv6s = [], State = [], Message = MsgText [], Conditions = [], Phase = []\<rparr>\<rparr>"

lemma range_10_1_29: "ParseIPRange ''10.0.1.0/29'' = Inr ([10, 0, 1, 1], [10, 0, 1, 6])"
  by (simp add: go_eval)

lemma plain_examples: "plain_range ''10.0.0.0/29''" "plain_range ''10.0.1.0/29''"
  by (simp_all add: plain_range_def range_10_29 range_10_1_29)

section \<open>Properties\<close>

text \<open>C12: the webhook accepts a range exactly when the allocator's parser accepts it with both ends
  in one family and in order.\<close>

theorem validateIPRange_accepts:
  "validateIPRange r = None \<longleftrightarrow>
     (case ParseIPRange r of Inl _ \<Rightarrow> False | Inr (s, e) \<Rightarrow> length s = length e \<and> s \<le> e)"
  unfolding validateIPRange_iff by (auto split: sum.splits)

text \<open>C13: a configuration passes validation exactly when its ranges parse in order, its ports are
  distinct and valid, its weights are distinct, valid and used with the weighted method only, its health
  check is consistent, and the overlap check (when a client is wired) reports nothing.\<close>

theorem validateSpec_accepts:
  "validateSpec client hc ex = None \<longleftrightarrow>
     (\<exists>s e. ParseIPRange (IPRange (Spec hc)) = Inr (s, e) \<and> length s = length e \<and> s \<le> e)
   \<and> (IPv6Range (Spec hc) = [] \<or> (\<exists>s e. ParseIPRange (IPv6Range (Spec hc)) = Inr (s, e) \<and> length s = length e \<and> s \<le> e))
   \<and> list_all port_ok (Ports (Spec hc)) \<and> distinct (map Port (Ports (Spec hc)))
   \<and> (Weights (Spec hc) = [] \<or> Spec_Method (Spec hc) = MethodWeightedRoundRobin)
   \<and> list_all weight_ok (Weights (Spec hc)) \<and> distinct (map WC_ServiceName (Weights (Spec hc)))
   \<and> pred_option health_ok (HealthCheck (Spec hc))
   \<and> (case client of None \<Rightarrow> True | Some listed \<Rightarrow> checkIPRangeOverlap listed hc ex = None)"
  by (auto simp: validateSpec_iff_parts validateIPRange_iff validatePorts_iff validateWeights_iff validateHealthCheck_iff)

text \<open>C11: against ranges of the same family the overlap check accepts exactly the ranges whose
  addresses are disjoint from those of every other configuration.\<close>

theorem overlapForRange_disjoint:
  assumes "plain_range r"
    and "\<forall>c \<in> set items. cfg_range v6 c = [] \<or>
      plain_range (cfg_range v6 c) \<and> length (fst (projr (ParseIPRange (cfg_range v6 c)))) = length (fst (projr (ParseIPRange r)))"
  shows "overlapForRange r ex items v6 = None \<longleftrightarrow>
    (\<forall>c \<in> set items. Name (Meta c) = ex \<or> range_set r \<inter> range_set (cfg_range v6 c) = {})"
proof -
  obtain s e where r: "ParseIPRange r = Inr (s, e)" using plain_range_parses [OF assms(1)] by blast
  have "(cfg_range v6 c = [] \<or> (\<forall>s' e'. ParseIPRange (cfg_range v6 c) = Inr (s', e') \<longrightarrow>
        \<not> (CompareIPs s e' \<le> 0 \<and> CompareIPs e s' \<ge> 0))) \<longleftrightarrow> range_set r \<inter> range_set (cfg_range v6 c) = {}"
    if c: "c \<in> set items" for c
  proof (cases "cfg_range v6 c = []")
    case True
    then show ?thesis by (simp add: range_set_def ParseIPRange_empty)
  next
    case False
    with assms(2) c have pc: "plain_range (cfg_range v6 c)" by blast
    obtain s' e' where c': "ParseIPRange (cfg_range v6 c) = Inr (s', e')" using plain_range_parses [OF pc] by blast
    have "length s = length s'" using assms(2) c False r c' by fastforce
    then show ?thesis using False c' range_sets_meet [OF assms(1) r pc c'] by auto
  qed
  then show ?thesis by (auto simp: overlapForRange_def r overlap_loop_None)
qed

theorem overlapForRange_disjoint_witness:
  "range_set ''10.0.0.0/29'' \<inter> range_set (cfg_range False (example_config ''ns'' ''b'' ''10.0.1.0/29'' [] :: unit HeliosConfig)) = {}"
proof -
  let ?b = "example_config ''ns'' ''b'' ''10.0.1.0/29'' [] :: unit HeliosConfig"
  have "overlapForRange ''10.0.0.0/29'' [] [?b] False = None"
    by (simp add: overlapForRange_def range_10_29 range_10_1_29 example_config_def CompareIPs_le CompareIPs_ge)
  then show ?thesis
    using overlapForRange_disjoint [OF plain_examples(1), of "[?b]" False "[]"] plain_examples(2)
    by (simp add: example_config_def cfg_range_def range_10_29 range_10_1_29)
qed

text \<open>C9: consider any store that admission can produce, whatever the client of the webhook answered, and two configurations of
  different names in it whose last validation saw the store: \<^verbatim>\<open>List\<close> answered, with everything stored at that time.  Then their IPv4
  ranges are disjoint and their IPv6 ranges are disjoint, unless one of the two is an IPv6 range that starts in the block
  \<^verbatim>\<open>::/80\<close>, to which the mapped IPv4 addresses belong.\<close>

theorem admitted_disjoint:
  assumes "admission U items" "c \<in> set items" "d \<in> set items" "Name (Meta c) \<noteq> Name (Meta d)" "config_key c \<notin> U" "config_key d \<notin> U"
    and "\<forall>r \<in> {cfg_range v6 c, cfg_range v6 d}. \<forall>s e. ParseIPRange r = Inr (s, e) \<longrightarrow> length s = 4 \<or> 2 ^ 48 \<le> be_val s"
  shows "range_set (cfg_range v6 c) \<inter> range_set (cfg_range v6 d) = {}"
proof (cases "cfg_range v6 c = [] \<or> cfg_range v6 d = []")
  case True
  then show ?thesis by (auto simp: range_set_def ParseIPRange_empty)
next
  case False
  have "plain_range (cfg_range v6 x)" if "x \<in> set items" "x = c \<or> x = d" for x
    using admission_ranges [OF assms(1) that(1), of v6] that(2) False assms(7)
    by (auto simp: validateIPRange_iff plain_range_def)
  then show ?thesis using admission_pairs [OF assms(1-6), of v6] assms(2,3) by (simp add: ranges_disjoint_def)
qed

theorem admitted_disjoint_witness:
  "range_set (cfg_range False (example_config ''x'' ''b'' ''10.0.1.0/29'' [] :: unit HeliosConfig)) \<inter>
   range_set (cfg_range False (example_config ''x'' ''a'' ''10.0.0.0/29'' [] :: unit HeliosConfig)) = {}"
proof -
  let ?a = "example_config ''x'' ''a'' ''10.0.0.0/29'' [] :: unit HeliosConfig"
  let ?b = "example_config ''x'' ''b'' ''10.0.1.0/29'' [] :: unit HeliosConfig"
  have "validateSpec (Some (Some [])) ?a [] = None" "validateSpec (Some (Some [?a])) ?b [] = None"
    unfolding validateSpec_iff_parts
    by (simp_all add: example_config_def validateIPRange_iff range_10_29 range_10_1_29 checkIPRangeOverlap_def
        overlapForRange_def CompareIPs_le CompareIPs_ge validatePorts_def validateWeights_def validateHealthCheck_def)
  then have "admission {} [?b, ?a]"
    using admission_two [of "Some (Some [])" ?a "Some (Some [?a])" ?b]
    by (simp add: ValidateCreate_def unseen_def example_config_def config_key_def)
  from admitted_disjoint [OF this, of ?b ?a False] show ?thesis
    by (simp add: example_config_def cfg_range_def range_10_29 range_10_1_29)
qed

text \<open>Without \<^verbatim>\<open>List\<close> the overlap check is skipped: two configurations of one range are admitted.\<close>

lemma admission_fails_open:
  "admission {(''x'', ''b'')} [example_config ''x'' ''b'' ''10.0.0.0/29'' [], example_config ''x'' ''a'' ''10.0.0.0/29'' [] :: unit HeliosConfig]"
proof -
  let ?a = "example_config ''x'' ''a'' ''10.0.0.0/29'' [] :: unit HeliosConfig"
  let ?b = "example_config ''x'' ''b'' ''10.0.0.0/29'' [] :: unit HeliosConfig"
  have "validateSpec (Some (Some [])) ?a [] = None" "validateSpec (Some None) ?b [] = None"
    unfolding validateSpec_iff_parts
    by (simp_all add: example_config_def validateIPRange_iff range_10_29 checkIPRangeOverlap_def
        overlapForRange_def validatePorts_def validateWeights_def validateHealthCheck_def)
  then show ?thesis
    using admission_two [of "Some (Some [])" ?a "Some None" ?b]
    by (simp add: ValidateCreate_def unseen_def example_config_def config_key_def)
qed

text \<open>On update the webhook leaves out every configuration that has the name of the updated one, in
  any namespace: none of them can make it report an overlap.\<close>

lemma ValidateUpdate_ignores_namesakes:
  "ValidateUpdate (Some (Some items)) old hc =
   ValidateUpdate (Some (Some (filter (\<lambda>c. Name (Meta c) \<noteq> Name (Meta hc)) items))) old hc"
proof -
  have "overlap_loop r s e (Name (Meta hc)) v6 items =
    overlap_loop r s e (Name (Meta hc)) v6 (filter (\<lambda>c. Name (Meta c) \<noteq> Name (Meta hc)) items)" for r s e v6
    by (induction items) (auto simp: Let_def)
  then have "overlapForRange r (Name (Meta hc)) items v6 =
    overlapForRange r (Name (Meta hc)) (filter (\<lambda>c. Name (Meta c) \<noteq> Name (Meta hc)) items) v6" for r v6
    by (simp add: overlapForRange_def split: sum.split prod.split)
  then show ?thesis by (simp add: ValidateUpdate_def validateSpec_def checkIPRangeOverlap_def split: option.split)
qed

end
