(* ===== verification/Health_Check.thy ===== *)
theory Health_Check
  imports Load_Balancer Go_Net
begin

text \<open>
  \<^verbatim>\<open>internal/loadbalancer/health.go\<close> and \<^verbatim>\<open>Stop\<close> of \<^verbatim>\<open>balancer.go\<close>: the checks of the backends, and the life of
  the goroutines that run them.

  \<^item> The network is a parameter: \<open>dial\<close> answers a TCP dial to an address within a timeout, \<open>http_get\<close> a GET of a
    URL within a timeout, with the status code.  They are the answers of one round: a repeated check of an address in the same
    round answers the same.
  \<^item> \<open>lc_step\<close> is the interleaving of the check loop, of the checks that it starts, and of any number of callers of
    \<^verbatim>\<open>Stop\<close>, at the grain of their channel and wait-group operations.
\<close>

section \<open>Checking a backend\<close>

function nat_digits :: "nat \<Rightarrow> string" where
  "nat_digits n = (if n < 10 then [digit_char n] else nat_digits (n div 10) @ [digit_char (n mod 10)])"
  by pat_completeness auto
termination
  by (relation "measure id") auto

declare nat_digits.simps [simp del]

definition Itoa :: "int \<Rightarrow> string" where
  "Itoa i = (if i < 0 then CHR ''-'' # nat_digits (nat (- i)) else nat_digits (nat i))"

definition JoinHostPort :: "string \<Rightarrow> string \<Rightarrow> string" where
  "JoinHostPort host port =
     (if CHR '':'' \<in> set host then ''['' @ host @ '']:'' @ port else host @ '':'' @ port)"

datatype dial_result = DialErr | DialNil | DialConn

definition checkTCP :: "(string \<Rightarrow> int \<Rightarrow> dial_result) \<Rightarrow> string \<Rightarrow> int \<Rightarrow> bool" where
  "checkTCP dial address timeout =
     (case dial address timeout of DialErr \<Rightarrow> False | DialConn \<Rightarrow> True | DialNil \<Rightarrow> False)"

definition checkHTTP :: "(string \<Rightarrow> int \<Rightarrow> int option) \<Rightarrow> string \<Rightarrow> HealthCheckOptions \<Rightarrow> bool" where
  "checkHTTP http_get address opts =
     (let path = (if HO_HTTPPath opts = [] then ''/'' else HO_HTTPPath opts);
          url = ''http://'' @ address @ path
      in case http_get url (Timeout opts) of
           None \<Rightarrow> False
         | Some code \<Rightarrow> 200 \<le> code \<and> code < 400)"

definition checkBackendHealth ::
  "(string \<Rightarrow> int \<Rightarrow> dial_result) \<Rightarrow> (string \<Rightarrow> int \<Rightarrow> int option) \<Rightarrow> Backend \<Rightarrow> HealthCheckOptions \<Rightarrow> bool" where
  "checkBackendHealth dial http_get backend opts =
     (let address = JoinHostPort (Address backend) (Itoa (B_Port backend)) in
      if Protocol opts = ''HTTP'' then checkHTTP http_get address opts
      else checkTCP dial address (Timeout opts))"

definition DefaultHealthCheckOptions :: HealthCheckOptions where
  "DefaultHealthCheckOptions = \<lparr>Timeout = second, Protocol = protocolTCP, HO_HTTPPath = []\<rparr>"

text \<open>\<^verbatim>\<open>doHealthCheck\<close>: the services in the order in which the map is ranged over, the backends in their order.\<close>

definition doHealthCheck ::
  "(string \<Rightarrow> int \<Rightarrow> dial_result) \<Rightarrow> (string \<Rightarrow> int \<Rightarrow> int option) \<Rightarrow> LoadBalancer \<Rightarrow> store \<Rightarrow> store" where
  "doHealthCheck dial http_get lb st =
     (let opts = HealthCheckOpts (config lb) in
      fold (\<lambda>(service, bkends). fold (\<lambda>p st. SetHealthy st p (checkBackendHealth dial http_get (st p) opts)) bkends)
        (backends lb) st)"

definition registered_ptrs :: "LoadBalancer \<Rightarrow> ptr set" where
  "registered_ptrs lb = (\<Union>(service, bkends) \<in> set (backends lb). set bkends)"

text \<open>A check reads the address and the port of a backend only, and these never change.\<close>

definition same_backend :: "Backend \<Rightarrow> Backend \<Rightarrow> bool" where
  "same_backend b b' \<longleftrightarrow> (\<exists>h. b' = b\<lparr>healthy := h\<rparr>)"

lemma check_same: "same_backend b b' \<Longrightarrow> checkBackendHealth dial http_get b' opts = checkBackendHealth dial http_get b opts"
  by (auto simp: same_backend_def checkBackendHealth_def)

lemma same_backend_set: "same_backend b b' \<Longrightarrow> b'\<lparr>healthy := h\<rparr> = b\<lparr>healthy := h\<rparr>"
  by (auto simp: same_backend_def)

definition checked :: "(string \<Rightarrow> int \<Rightarrow> dial_result) \<Rightarrow> (string \<Rightarrow> int \<Rightarrow> int option) \<Rightarrow> HealthCheckOptions \<Rightarrow> Backend \<Rightarrow> Backend" where
  "checked dial http_get opts b = b\<lparr>healthy := (if checkBackendHealth dial http_get b opts then 1 else 0)\<rparr>"

lemma IsHealthy_checked [simp]: "IsHealthy (checked dial http_get opts b) \<longleftrightarrow> checkBackendHealth dial http_get b opts"
  by (simp add: checked_def IsHealthy_def)

lemma same_backend_refl [simp]: "same_backend b b"
  unfolding same_backend_def by (rule exI [of _ "healthy b"]) simp

lemma same_backend_checked [simp]: "same_backend b (checked dial http_get opts b)"
  by (auto simp: same_backend_def checked_def)

lemma SetHealthy_checked:
  assumes "same_backend b (st p)"
  shows "SetHealthy st p (checkBackendHealth dial http_get (st p) opts) = st(p := checked dial http_get opts b)"
  using assms by (simp add: SetHealthy_def checked_def check_same same_backend_set)

lemma fold_checks:
  assumes "\<forall>q. same_backend (st0 q) (st q)"
  shows "fold (\<lambda>p st. SetHealthy st p (checkBackendHealth dial http_get (st p) opts)) ps st =
    (\<lambda>q. if q \<in> set ps then checked dial http_get opts (st0 q) else st q)"
  using assms
proof (induction ps arbitrary: st)
  case (Cons p ps)
  have step: "SetHealthy st p (checkBackendHealth dial http_get (st p) opts) = st(p := checked dial http_get opts (st0 p))"
    using Cons.prems by (intro SetHealthy_checked) simp
  have "\<forall>q. same_backend (st0 q) ((st(p := checked dial http_get opts (st0 p))) q)" using Cons.prems by simp
  note IH = Cons.IH [OF this]
  show ?case unfolding fold_Cons comp_def step IH by (rule ext) simp
qed simp

lemma doHealthCheck_eq:
  "doHealthCheck dial http_get lb st =
     (\<lambda>q. if q \<in> registered_ptrs lb then checked dial http_get (HealthCheckOpts (config lb)) (st q) else st q)"
proof -
  let ?opts = "HealthCheckOpts (config lb)"
  have "fold (\<lambda>(service, bkends). fold (\<lambda>p st. SetHealthy st p (checkBackendHealth dial http_get (st p) ?opts)) bkends) bs st' =
      (\<lambda>q. if q \<in> (\<Union>(service, bkends) \<in> set bs. set bkends) then checked dial http_get ?opts (st q) else st' q)"
    if "\<forall>q. same_backend (st q) (st' q)" for bs st'
    using that
  proof (induction bs arbitrary: st')
    case (Cons b bs)
    obtain service bkends where b: "b = (service, bkends)" by (cases b)
    let ?st = "\<lambda>q. if q \<in> set bkends then checked dial http_get ?opts (st q) else st' q"
    have "\<forall>q. same_backend (st q) (?st q)" using Cons.prems by simp
    note IH = Cons.IH [OF this]
    show ?case unfolding fold_Cons comp_def b prod.case fold_checks [OF Cons.prems] IH by (rule ext) auto
  qed simp
  from this [of st] show ?thesis by (simp add: doHealthCheck_def Let_def registered_ptrs_def)
qed

section \<open>The check loop and Stop\<close>

text \<open>Where the loop is: not started (health checks are off), before the initial check, in its \<^verbatim>\<open>select\<close>, waiting
  for the running checks after the channel was closed, or returned.\<close>

datatype loop_pc = LNone | LStart | LSelect | LDrain | LDone

text \<open>Where a caller of \<^verbatim>\<open>Stop\<close> is: not called, past the \<^verbatim>\<open>select\<close> with its default case and about to close the
  channel, in \<^verbatim>\<open>wg.Wait\<close>, in \<^verbatim>\<open>checkWg.Wait\<close>, returned after both, or returned at once.\<close>

datatype stop_pc = SIdle | SClosing | SWaitLoop | SWaitChecks | SStopped | SReturned

record lifecycle =
  stopCh_closed :: bool
  loop :: loop_pc
  checkWg :: nat
  stops :: "nat \<Rightarrow> stop_pc"
  panicked :: bool

definition lc_init :: "bool \<Rightarrow> lifecycle" where
  "lc_init check = \<lparr>stopCh_closed = False, loop = (if check then LStart else LNone), checkWg = 0,
     stops = (\<lambda>_. SIdle), panicked = False\<rparr>"

text \<open>Both cases of the loop's \<^verbatim>\<open>select\<close> may be ready, so a tick can still win after the channel was closed.  The steps of the loop are
  those of \<^verbatim>\<open>health.go\<close>, the steps of the callers those of \<^verbatim>\<open>Stop\<close> in \<^verbatim>\<open>balancer.go\<close>.  A panic ends the process; here the others go on
  after it, so the invariants hold of the runs that it cuts off, too.\<close>

inductive lc_step :: "lifecycle \<Rightarrow> lifecycle \<Rightarrow> bool" where
  initial_check: "loop s = LStart \<Longrightarrow> lc_step s (s\<lparr>loop := LSelect, checkWg := checkWg s + 1\<rparr>)"
| tick: "loop s = LSelect \<Longrightarrow> lc_step s (s\<lparr>checkWg := checkWg s + 1\<rparr>)"
| stop_seen: "loop s = LSelect \<Longrightarrow> stopCh_closed s \<Longrightarrow> lc_step s (s\<lparr>loop := LDrain\<rparr>)"
| loop_returns: "loop s = LDrain \<Longrightarrow> checkWg s = 0 \<Longrightarrow> lc_step s (s\<lparr>loop := LDone\<rparr>)"
| check_done: "0 < checkWg s \<Longrightarrow> lc_step s (s\<lparr>checkWg := checkWg s - 1\<rparr>)"
| stop_again: "stops s i = SIdle \<Longrightarrow> stopCh_closed s \<Longrightarrow> lc_step s (s\<lparr>stops := (stops s)(i := SReturned)\<rparr>)"
| stop_default: "stops s i = SIdle \<Longrightarrow> \<not> stopCh_closed s \<Longrightarrow> lc_step s (s\<lparr>stops := (stops s)(i := SClosing)\<rparr>)"
| stop_close: "stops s i = SClosing \<Longrightarrow> \<not> stopCh_closed s
    \<Longrightarrow> lc_step s (s\<lparr>stopCh_closed := True, stops := (stops s)(i := SWaitLoop)\<rparr>)"
| stop_close_panics: "stops s i = SClosing \<Longrightarrow> stopCh_closed s \<Longrightarrow> lc_step s (s\<lparr>panicked := True\<rparr>)"
| wait_loop: "stops s i = SWaitLoop \<Longrightarrow> loop s = LDone \<or> loop s = LNone
    \<Longrightarrow> lc_step s (s\<lparr>stops := (stops s)(i := SWaitChecks)\<rparr>)"
| wait_checks: "stops s i = SWaitChecks \<Longrightarrow> checkWg s = 0 \<Longrightarrow> lc_step s (s\<lparr>stops := (stops s)(i := SStopped)\<rparr>)"

inductive_cases lc_stepE: "lc_step s t"

definition lc_reachable :: "bool \<Rightarrow> lifecycle \<Rightarrow> bool" where
  "lc_reachable check s \<longleftrightarrow> lc_step\<^sup>*\<^sup>* (lc_init check) s"

lemma lc_reachable_induct [consumes 1, case_names init step]:
  assumes "lc_reachable check s" "P (lc_init check)"
    "\<And>s t. lc_reachable check s \<Longrightarrow> P s \<Longrightarrow> lc_step s t \<Longrightarrow> P t"
  shows "P s"
  using assms(1) unfolding lc_reachable_def
  by (induction rule: rtranclp_induct) (use assms(2,3) in \<open>auto simp: lc_reachable_def\<close>)

definition lc_inv :: "lifecycle \<Rightarrow> bool" where
  "lc_inv s \<longleftrightarrow>
     (loop s \<in> {LDone, LNone, LStart} \<longrightarrow> checkWg s = 0)
   \<and> (loop s \<in> {LDrain, LDone} \<longrightarrow> stopCh_closed s)
   \<and> (\<forall>i. stops s i \<in> {SWaitLoop, SWaitChecks, SStopped, SReturned} \<longrightarrow> stopCh_closed s)
   \<and> (\<forall>i. stops s i \<in> {SWaitChecks, SStopped} \<longrightarrow> loop s \<in> {LDone, LNone})"

lemma lc_inv_reachable: "lc_reachable check s \<Longrightarrow> lc_inv s"
proof (induction rule: lc_reachable_induct)
  case init
  then show ?case by (simp add: lc_inv_def lc_init_def)
next
  case (step s t)
  from \<open>lc_step s t\<close> \<open>lc_inv s\<close> show ?case
    by (cases rule: lc_step.cases) (auto simp: lc_inv_def split: if_splits)
qed

text \<open>Once the loop has returned and no check runs, this stays so.\<close>

definition quiet :: "lifecycle \<Rightarrow> bool" where
  "quiet s \<longleftrightarrow> loop s \<in> {LDone, LNone} \<and> checkWg s = 0"

lemma quiet_step: "quiet s \<Longrightarrow> lc_step s t \<Longrightarrow> quiet t"
  by (erule lc_stepE) (auto simp: quiet_def)

lemma quiet_steps: "lc_step\<^sup>*\<^sup>* s t \<Longrightarrow> quiet s \<Longrightarrow> quiet t"
  by (induction rule: rtranclp_induct) (auto dest: quiet_step)

definition lone_inv :: "lifecycle \<Rightarrow> bool" where
  "lone_inv s \<longleftrightarrow> \<not> panicked s \<and> (stops s 0 = SClosing \<longrightarrow> \<not> stopCh_closed s)"

lemma idle_before: "lc_step s t \<Longrightarrow> stops t i = SIdle \<Longrightarrow> stops s i = SIdle"
  by (erule lc_stepE) (auto split: if_splits)

lemma lone_stop:
  "lc_step\<^sup>*\<^sup>* (lc_init check) s \<Longrightarrow> \<forall>i > 0. stops s i = SIdle \<Longrightarrow> lone_inv s"
proof (induction rule: rtranclp_induct)
  case base
  then show ?case by (simp add: lone_inv_def lc_init_def)
next
  case (step s t)
  have idle: "\<forall>i > 0. stops s i = SIdle" using idle_before [OF step.hyps(2)] step.prems by blast
  have inv: "lone_inv s" using step.IH [OF idle] .
  have zero: "i = 0" if "stops s i = SClosing" for i using idle that by (cases i) auto
  from step.hyps(2) inv zero show ?case
    by (cases rule: lc_step.cases) (auto simp: lone_inv_def split: if_splits)
qed

text \<open>The running checks can all finish, and then the loop and the callers of \<^verbatim>\<open>Stop\<close> can.\<close>

lemma lifecycle_same [simp]:
  "checkWg s = 0 \<Longrightarrow> s\<lparr>checkWg := 0\<rparr> = s" "loop s = LDrain \<Longrightarrow> s\<lparr>loop := LDrain\<rparr> = s" for s :: lifecycle
  by (cases s, simp)+

lemma drain_checks: "lc_step\<^sup>*\<^sup>* s (s\<lparr>checkWg := 0\<rparr>)"
proof (induction "checkWg s" arbitrary: s)
  case 0
  then show ?case by simp
next
  case (Suc n)
  have "lc_step s (s\<lparr>checkWg := checkWg s - 1\<rparr>)" using Suc.hyps(2) by (intro check_done) simp
  moreover have "lc_step\<^sup>*\<^sup>* (s\<lparr>checkWg := checkWg s - 1\<rparr>) (s\<lparr>checkWg := checkWg s - 1\<rparr>\<lparr>checkWg := 0\<rparr>)"
    using Suc.hyps(2) by (intro Suc.hyps(1)) simp
  ultimately show ?case by (simp add: converse_rtranclp_into_rtranclp)
qed

lemma finish_select:
  assumes "loop s = LSelect \<or> loop s = LDrain" "stopCh_closed s"
  shows "\<exists>t. lc_step\<^sup>*\<^sup>* s t \<and> quiet t \<and> stops t = stops s"
proof -
  let ?d = "s\<lparr>loop := LDrain\<rparr>"
  have "lc_step\<^sup>*\<^sup>* s ?d"
    using assms stop_seen [of s] by (cases "loop s = LSelect") auto
  also have "lc_step\<^sup>*\<^sup>* ?d (?d\<lparr>checkWg := 0\<rparr>)" by (rule drain_checks)
  also have "lc_step (?d\<lparr>checkWg := 0\<rparr>) (?d\<lparr>checkWg := 0, loop := LDone\<rparr>)" by (rule loop_returns) simp_all
  finally show ?thesis by (auto simp: quiet_def)
qed

lemma finish_loop:
  assumes "stopCh_closed s"
  shows "\<exists>t. lc_step\<^sup>*\<^sup>* s t \<and> quiet t \<and> stops t = stops s"
proof (cases "loop s")
  case LStart
  let ?s = "s\<lparr>loop := LSelect, checkWg := checkWg s + 1\<rparr>"
  have "lc_step s ?s" using LStart by (rule initial_check)
  moreover obtain t where "lc_step\<^sup>*\<^sup>* ?s t" "quiet t" "stops t = stops ?s"
    using finish_select [of ?s] assms by auto
  ultimately show ?thesis by (auto intro: converse_rtranclp_into_rtranclp)
qed (use finish_select [of s] assms drain_checks [of s] in \<open>auto simp: quiet_def\<close>)

definition example_closed :: "bool \<Rightarrow> lifecycle" where
  "example_closed check = (lc_init check)\<lparr>stopCh_closed := True, stops := (\<lambda>_. SIdle)(0 := SWaitLoop)\<rparr>"

lemma example_closed_reachable: "lc_reachable check (example_closed check)"
proof -
  let ?a = "(lc_init check)\<lparr>stops := (stops (lc_init check))(0 := SClosing)\<rparr>"
  have "lc_step (lc_init check) ?a" by (rule stop_default) (simp_all add: lc_init_def)
  moreover have "lc_step ?a (?a\<lparr>stopCh_closed := True, stops := (stops ?a)(0 := SWaitLoop)\<rparr>)"
    by (rule stop_close) (simp_all add: lc_init_def)
  moreover have "?a\<lparr>stopCh_closed := True, stops := (stops ?a)(0 := SWaitLoop)\<rparr> = example_closed check"
    by (simp add: example_closed_def lc_init_def)
  ultimately show ?thesis unfolding lc_reachable_def by (metis rtranclp.simps)
qed

section \<open>Properties\<close>

text \<open>C26: one round of health checks sets the health of every registered backend to the result of its check and
  changes nothing else, in whatever order the services are visited.\<close>

theorem doHealthCheck_sets:
  "doHealthCheck dial http_get lb st =
     (\<lambda>p. if p \<in> registered_ptrs lb
          then (st p)\<lparr>healthy := (if checkBackendHealth dial http_get (st p) (HealthCheckOpts (config lb)) then 1 else 0)\<rparr>
          else st p)"
  unfolding doHealthCheck_eq checked_def ..

text \<open>After a round of checks, a balancer with an algorithm other than round robin hands out only backends that
  passed their check.\<close>

lemma NextBackend_passed_check:
  assumes "fst (NextBackend Intn (doHealthCheck dial http_get lb st) lb svc client) = Some p" "\<forall>n > 0. Intn n < n"
    "\<forall>bs. map_of (backends lb) svc = Some bs \<longrightarrow> length bs < 2 ^ 32" "\<forall>states. algorithm lb \<noteq> roundRobinAlgorithm states"
  shows "checkBackendHealth dial http_get (st p) (HealthCheckOpts (config lb))"
proof -
  obtain bs where bs: "map_of (backends lb) svc = Some bs"
    "fst (Select Intn (algorithm lb) (doHealthCheck dial http_get lb st) bs svc client) = Some p"
    using NextBackend_Some [OF assms(1)] by blast
  with Select_member [OF bs(2) assms(2)] assms(3,4)
  have p: "p \<in> set bs" "IsHealthy (doHealthCheck dial http_get lb st p)" by blast+
  then have "p \<in> registered_ptrs lb" using bs(1) by (auto simp: registered_ptrs_def dest: map_of_SomeD)
  with p(2) show ?thesis by (simp add: doHealthCheck_eq)
qed

text \<open>C27: when \<^verbatim>\<open>Stop\<close> has closed the channel and returned, the loop has returned and no health check runs, and this
  stays so whatever happens next.\<close>

theorem Stop_quiesces:
  assumes "lc_reachable check s" "stops s i = SStopped" "lc_step\<^sup>*\<^sup>* s t"
  shows "loop t \<in> {LDone, LNone} \<and> checkWg t = 0"
proof -
  have "quiet s" using lc_inv_reachable [OF assms(1)] assms(2) by (fastforce simp: lc_inv_def quiet_def)
  then show ?thesis using quiet_steps [OF assms(3)] by (simp add: quiet_def)
qed

theorem Stop_quiesces_witness:
  "\<exists>s. lc_reachable False s \<and> stops s 0 = SStopped \<and> loop s \<in> {LDone, LNone} \<and> checkWg s = 0"
proof -
  let ?c = "example_closed False"
  let ?d = "?c\<lparr>stops := (stops ?c)(0 := SWaitChecks)\<rparr>"
  let ?e = "?d\<lparr>stops := (stops ?d)(0 := SStopped)\<rparr>"
  have "lc_step ?c ?d" by (rule wait_loop) (simp_all add: example_closed_def lc_init_def)
  moreover have "lc_step ?d ?e" by (rule wait_checks) (simp_all add: example_closed_def lc_init_def)
  ultimately have e: "lc_reachable False ?e"
    using example_closed_reachable [of False] unfolding lc_reachable_def by (meson rtranclp.rtrancl_into_rtrancl)
  have "stops ?e 0 = SStopped" by simp
  with e show ?thesis using Stop_quiesces [OF e, of 0 ?e] by blast
qed

text \<open>C28: a call of \<^verbatim>\<open>Stop\<close> that waits for the loop can always finish: from every reachable state there are steps
  after which it has returned.\<close>

theorem Stop_can_finish:
  assumes "lc_reachable check s" "stops s i = SWaitLoop"
  shows "\<exists>t. lc_step\<^sup>*\<^sup>* s t \<and> stops t i = SStopped"
proof -
  have "stopCh_closed s" using lc_inv_reachable [OF assms(1)] assms(2) by (force simp: lc_inv_def)
  then obtain t where t: "lc_step\<^sup>*\<^sup>* s t" "quiet t" "stops t = stops s" using finish_loop by blast
  let ?u = "t\<lparr>stops := (stops t)(i := SWaitChecks)\<rparr>"
  have "lc_step t ?u" using t assms(2) by (intro wait_loop) (auto simp: quiet_def)
  moreover have "lc_step ?u (?u\<lparr>stops := (stops ?u)(i := SStopped)\<rparr>)"
    using t(2) by (intro wait_checks) (auto simp: quiet_def)
  ultimately have "lc_step\<^sup>*\<^sup>* s (?u\<lparr>stops := (stops ?u)(i := SStopped)\<rparr>)"
    using t(1) by (meson rtranclp.rtrancl_into_rtrancl)
  then show ?thesis by (intro exI conjI) auto
qed

theorem Stop_can_finish_witness: "\<exists>t. lc_step\<^sup>*\<^sup>* (example_closed True) t \<and> stops t 0 = SStopped"
  by (rule Stop_can_finish [OF example_closed_reachable]) (simp add: example_closed_def)

text \<open>As long as one caller uses \<^verbatim>\<open>Stop\<close>, the channel is never closed twice.\<close>

lemma Stop_alone_never_panics:
  assumes "lc_reachable check s" "\<forall>i > 0. stops s i = SIdle"
  shows "\<not> panicked s"
  using lone_stop [OF assms(1) [unfolded lc_reachable_def] assms(2)] by (simp add: lone_inv_def)

text \<open>C40: two callers of \<^verbatim>\<open>Stop\<close> that both take the default case of its \<^verbatim>\<open>select\<close> close the channel twice, and
  the second close panics.\<close>

theorem Stop_concurrent_panics:
  "\<exists>s. lc_reachable check s \<and> panicked s"
proof -
  let ?a = "(lc_init check)\<lparr>stops := (stops (lc_init check))(0 := SClosing)\<rparr>"
  let ?b = "?a\<lparr>stops := (stops ?a)(1 := SClosing)\<rparr>"
  let ?c = "?b\<lparr>stopCh_closed := True, stops := (stops ?b)(0 := SWaitLoop)\<rparr>"
  let ?d = "?c\<lparr>panicked := True\<rparr>"
  have "lc_step (lc_init check) ?a" by (rule stop_default) (simp_all add: lc_init_def)
  moreover have "lc_step ?a ?b" by (rule stop_default) (simp_all add: lc_init_def)
  moreover have "lc_step ?b ?c" by (rule stop_close) (simp_all add: lc_init_def)
  moreover have "lc_step ?c ?d" by (rule stop_close_panics [of _ 1]) (simp_all add: lc_init_def)
  ultimately have "lc_reachable check ?d"
    unfolding lc_reachable_def by (meson rtranclp.rtrancl_refl rtranclp.rtrancl_into_rtrancl)
  moreover have "panicked ?d" by simp
  ultimately show ?thesis by blast
qed

end
