(* ===== verification/Reconciler_Progress.thy ===== *)
theory Reconciler_Progress
  imports Reconciler_Properties
begin

text \<open>
  Progress of the reconciler of \<^verbatim>\<open>internal/controller/heliosconfig_controller.go\<close>: under a client that answers, services without
  a requested address are all served, each with an address of its own; and a case in which the watch handler leaves a service to the periodic reconciliation.
\<close>

section \<open>Progress\<close>

text \<open>A client that answers every call.  \<open>W ys\<close> are the worlds in which the services of \<open>ys\<close> were given their addresses, in that order;
  in none of them do the other configurations record an address outside \<open>others\<close>.\<close>

definition obliging ::
  "('w, 'x) K8s \<Rightarrow> 'x config \<Rightarrow> Service set \<Rightarrow> string set \<Rightarrow> ((Service \<times> string) list \<Rightarrow> 'w set) \<Rightarrow> bool" where
  "obliging k hc svcs others W \<longleftrightarrow>
     (\<forall>ys. \<forall>w \<in> W ys. \<exists>items w'. list_configs k w = (Inr items, w') \<and> w' \<in> W ys \<and> others_ips hc items \<subseteq> others)
   \<and> (\<forall>ys. \<forall>w \<in> W ys. \<forall>svc \<in> svcs. \<forall>x. \<exists>w'. assignIPToService k svc x [] w = (None, w') \<and> w' \<in> W (ys @ [(svc, x)]))
   \<and> (\<forall>ys. \<forall>w \<in> W ys. \<forall>c. \<exists>c' w'. update_config_status k w c = (Inr c', w') \<and> w' \<in> W ys \<and> same_config c' c)"

lemma obligingD:
  assumes "obliging k hc svcs others W" "w \<in> W ys"
  shows "\<exists>items w'. list_configs k w = (Inr items, w') \<and> w' \<in> W ys \<and> others_ips hc items \<subseteq> others"
    "svc \<in> svcs \<Longrightarrow> \<exists>w'. assignIPToService k svc x [] w = (None, w') \<and> w' \<in> W (ys @ [(svc, x)])"
    "\<exists>c' w'. update_config_status k w c = (Inr c', w') \<and> w' \<in> W ys \<and> same_config c' c"
  using assms unfolding obliging_def by blast+

text \<open>The addresses of a range that can still be handed out.\<close>

definition avail :: "NetworkManager \<Rightarrow> string set \<Rightarrow> ip \<Rightarrow> ip \<Rightarrow> string set" where
  "avail m others start e =
     IP_String ` set (take (maxScan (ipAllocator m)) (pool_list start e)) - nm_held m - others"

lemma AllocateIP_succeeds:
  assumes "ParseIPRange r = Inr (start, e)" "length start = length e" "start \<noteq> e" "be_val e + 1 < 256 ^ length e"
    "y \<in> IP_String ` set (take (maxScan a) (pool_list start e))" "y \<notin> held a"
  obtains x where "AllocateIP a r = (Inr x, take_ip a x)" "x \<in> IP_String ` set (take (maxScan a) (pool_list start e))" "x \<notin> held a"
proof -
  have "first_free a (take (maxScan a) (pool_list start e)) \<noteq> None"
    using assms(5,6) by (auto simp: first_free_def find_None_iff held_def)
  then obtain z where z: "first_free a (take (maxScan a) (pool_list start e)) = Some z" by blast
  then have "z \<in> set (take (maxScan a) (pool_list start e))" "IP_String z \<notin> held a"
    unfolding first_free_def by (auto simp: find_Some_iff held_def in_set_conv_nth)
  moreover have "AllocateIP a r = (Inr (IP_String z), take_ip a (IP_String z))"
    using assms(1-4) z alloc_scan_ref [of start e 0 a r] by (auto simp: AllocateIP_def IP_Equal_def alloc_ref_def)
  ultimately show thesis using that by blast
qed

lemma maxScan_mark_ips: "maxScan (ipAllocator (mark_ips ips m)) = maxScan (ipAllocator m)"
  unfolding mark_ips_def by (induction ips arbitrary: m) (auto simp: nm_MarkUsed_def)

lemma maxScan_mark_others: "maxScan (ipAllocator (mark_others hc items m)) = maxScan (ipAllocator m)"
  unfolding mark_others_def by (induction items arbitrary: m) (auto simp: maxScan_mark_ips)

lemma others_ips_same: "same_config c hc \<Longrightarrow> others_ips c items = others_ips hc items"
  by (auto simp: others_ips_def same_config_def)

lemma AllocateAndAssign_serves:
  assumes "obliging k hc0 svcs others W" "same_config hc hc0" "world s \<in> W ys" "svc \<in> svcs" "LoadBalancerIP svc = []"
    "IPv6Range (Spec hc) = []" "ParseIPRange (IPRange (Spec hc)) = Inr (start, e)" "length start = length e" "start \<noteq> e"
    "be_val e + 1 < 256 ^ length e" "avail (net s) others start e \<noteq> {}"
  obtains x s' where "AllocateAndAssign k hc svc s = (Inr (x, []), s')" "world s' \<in> W (ys @ [(svc, x)])"
    "x \<in> avail (net s) {} start e" "avail (net s) others start e - {x} \<subseteq> avail (net s') others start e"
    "avail (net s') {} start e \<subseteq> avail (net s) {} start e - {x}" "insert x (nm_held (net s)) \<subseteq> nm_held (net s')"
proof -
  obtain items w where l: "list_configs k (world s) = (Inr items, w)" "w \<in> W ys" "others_ips hc items \<subseteq> others"
    using obligingD(1) [OF assms(1,3)] others_ips_same [OF assms(2)] by blast
  let ?m = "mark_others hc items (net s)"
  have scan: "maxScan (ipAllocator ?m) = maxScan (ipAllocator (net s))" by (rule maxScan_mark_others)
  obtain y where y: "y \<in> avail (net s) others start e" using assms(11) by blast
  have "y \<in> IP_String ` set (take (maxScan (ipAllocator ?m)) (pool_list start e))" "y \<notin> nm_held ?m"
    using y l(3) unfolding avail_def scan held_mark_others by blast+
  from AllocateIP_succeeds [OF assms(7-10) this]
  obtain x where x: "AllocateIP (ipAllocator ?m) (IPRange (Spec hc)) = (Inr x, take_ip (ipAllocator ?m) x)"
    "x \<in> IP_String ` set (take (maxScan (ipAllocator ?m)) (pool_list start e))" "x \<notin> nm_held ?m" by blast
  obtain w' where w': "assignIPToService k svc x [] w = (None, w')" "w' \<in> W (ys @ [(svc, x)])"
    using obligingD(2) [OF assms(1) l(2) assms(4)] by blast
  let ?s = "s\<lparr>world := w', net := ?m\<lparr>ipAllocator := take_ip (ipAllocator ?m) x\<rparr>, metrics := metrics s @ RecordIPAllocation x True\<rparr>"
  have run: "AllocateAndAssign k hc svc s = (Inr (x, []), ?s)"
    using l(1) x(1) w'(1) assms(5,6)
    by (simp add: AllocateAndAssign_def splitRequestedIP_Nil allocateIP_def nm_AllocateIP_def allocate_v6_def Let_def)
  have held: "nm_held (net ?s) = insert x (nm_held (net s) \<union> others_ips hc items)"
    using held_mark_others [of hc items "net s"] by simp
  have free: "x \<in> avail (net s) {} start e" using x(2,3) unfolding avail_def scan held_mark_others by blast
  have left: "avail (net s) others start e - {x} \<subseteq> avail (net ?s) others start e"
    "avail (net ?s) {} start e \<subseteq> avail (net s) {} start e - {x}"
    using l(3) scan unfolding avail_def held by auto
  show thesis by (rule that [OF run _ free left]) (use w'(2) held in auto)
qed

lemma process_services_serves:
  assumes client: "obliging k hc0 all others W" "echoes k"
    and range: "ParseIPRange (IPRange (Spec hc0)) = Inr (start, e)" "length start = length e" "start \<noteq> e"
      "be_val e + 1 < 256 ^ length e"
    and spec: "IPv6Range (Spec hc0) = []" "sint (MaxAllocations (Spec hc0)) \<le> 0"
  shows "set svcs \<subseteq> all \<Longrightarrow> \<forall>svc \<in> set svcs. LoadBalancerIP svc = [] \<Longrightarrow> Spec hc = Spec hc0 \<Longrightarrow> same_config hc hc0
    \<Longrightarrow> world s \<in> W ys \<Longrightarrow> length svcs \<le> card (avail (net s) others start e)
    \<Longrightarrow> \<exists>xs hc' s'. process_services k svcs hc s = (None, hc', s') \<and> length xs = length svcs \<and> distinct xs
      \<and> set xs \<subseteq> avail (net s) {} start e \<and> nm_held (net s) \<union> set xs \<subseteq> nm_held (net s')
      \<and> AllocatedIPs (Status hc') = fold (\<lambda>(svc, x). map_set (Svc_Name svc) x) (zip svcs xs) (AllocatedIPs (Status hc))
      \<and> world s' \<in> W (ys @ zip svcs xs)"
proof (induction svcs arbitrary: hc s ys)
  case (Cons svc svcs)
  have "avail (net s) others start e \<noteq> {}" using Cons.prems(6) by auto
  then obtain x s1 where a: "AllocateAndAssign k hc svc s = (Inr (x, []), s1)" "world s1 \<in> W (ys @ [(svc, x)])"
    "x \<in> avail (net s) {} start e" "avail (net s) others start e - {x} \<subseteq> avail (net s1) others start e"
    "avail (net s1) {} start e \<subseteq> avail (net s) {} start e - {x}" "insert x (nm_held (net s)) \<subseteq> nm_held (net s1)"
    using AllocateAndAssign_serves [OF client(1) Cons.prems(4,5), of svc start e] Cons.prems(1-3) range spec by auto
  let ?c = "active_status k (Svc_Name svc) x [] hc"
  let ?s = "emit (IPAllocated x (Svc_Namespace svc) (Svc_Name svc)) s1"
  obtain c w where u: "update_config_status k (world ?s) ?c = (Inr c, w)" "w \<in> W (ys @ [(svc, x)])" "same_config c ?c"
    using obligingD(3) [OF client(1) a(2), where c = ?c] by auto
  have c: "Spec c = Spec hc" "Status c = Status ?c" using echoesD(1) [OF client(2) u(1)] by simp_all
  have quota: "CheckQuota hc = None" using Cons.prems(3) spec(2) by (simp add: CheckQuota_def Let_def word_sless_alt)
  have run: "process_services k (svc # svcs) hc s = process_services k svcs c (?s\<lparr>world := w\<rparr>)"
    using quota a(1) u(1) by (simp add: status_update_def)
  have "card (avail (net s) others start e) - 1 \<le> card (avail (net s) others start e - {x})" by (simp add: card_Diff_singleton_if)
  also have "\<dots> \<le> card (avail (net s1) others start e)" using a(4) by (rule card_mono [rotated]) (simp add: avail_def)
  finally have room: "length svcs \<le> card (avail (net (?s\<lparr>world := w\<rparr>)) others start e)" using Cons.prems(6) by simp
  have same: "same_config c hc0" using u(3) Cons.prems(4) by (simp add: same_config_def)
  have "\<exists>xs hc' s'. process_services k svcs c (?s\<lparr>world := w\<rparr>) = (None, hc', s') \<and> length xs = length svcs \<and> distinct xs
      \<and> set xs \<subseteq> avail (net s1) {} start e \<and> nm_held (net s1) \<union> set xs \<subseteq> nm_held (net s')
      \<and> AllocatedIPs (Status hc') = fold (\<lambda>(svc, x). map_set (Svc_Name svc) x) (zip svcs xs) (AllocatedIPs (Status c))
      \<and> world s' \<in> W ((ys @ [(svc, x)]) @ zip svcs xs)"
    using Cons.IH [of c "?s\<lparr>world := w\<rparr>" "ys @ [(svc, x)]"] Cons.prems(1-3) c(1) same u(2) room by simp
  then obtain xs hc' s' where xs: "process_services k svcs c (?s\<lparr>world := w\<rparr>) = (None, hc', s')" "length xs = length svcs"
    "distinct xs" "set xs \<subseteq> avail (net s1) {} start e" "nm_held (net s1) \<union> set xs \<subseteq> nm_held (net s')"
    "AllocatedIPs (Status hc') = fold (\<lambda>(svc, x). map_set (Svc_Name svc) x) (zip svcs xs) (AllocatedIPs (Status c))"
    "world s' \<in> W ((ys @ [(svc, x)]) @ zip svcs xs)" by blast
  have "process_services k (svc # svcs) hc s = (None, hc', s')" using run xs(1) by simp
  moreover have "length (x # xs) = length (svc # svcs)" "distinct (x # xs)" using xs(2-4) a(5) by auto
  moreover have "set (x # xs) \<subseteq> avail (net s) {} start e" using xs(4) a(3,5) by auto
  moreover have "nm_held (net s) \<union> set (x # xs) \<subseteq> nm_held (net s')" using xs(5) a(6) by auto
  moreover have "AllocatedIPs (Status hc') =
      fold (\<lambda>(svc, x). map_set (Svc_Name svc) x) (zip (svc # svcs) (x # xs)) (AllocatedIPs (Status hc))"
    using xs(6) by (simp add: c(2))
  moreover have "world s' \<in> W (ys @ zip (svc # svcs) (x # xs))" using xs(7) by simp
  ultimately show ?case by blast
qed simp

text \<open>The worlds of the small server in which two services carry the addresses that they were given last.\<close>

definition demo_given :: "(Service \<times> string) list \<Rightarrow> demo_world set" where
  "demo_given ys = {w. fst w = [] \<and> map Svc_Name (snd w) = [''web'', ''db''] \<and> map Svc_Namespace (snd w) = [''default'', ''default'']
     \<and> map Ingress (snd w) =
         map (\<lambda>n. last ([] # map (\<lambda>(svc, x). [x]) (filter (\<lambda>(svc, x). Svc_Name svc = n) ys))) [''web'', ''db'']}"

lemma demo_obliging: "obliging (demo_k8s False) hc (set [demo_service ''web'' [], demo_service ''db'' []]) {} demo_given"
proof -
  have names: "\<exists>a b. ss = [a, b] \<and> Svc_Name a = ''web'' \<and> Svc_Name b = ''db'' \<and> Svc_Namespace a = ''default'' \<and> Svc_Namespace b = ''default''"
    if "map Svc_Name ss = [''web'', ''db'']" "map Svc_Namespace ss = [''default'', ''default'']" for ss
    using that by (auto simp: map_eq_Cons_conv)
  show ?thesis
    unfolding obliging_def demo_given_def
    by (auto simp: demo_k8s_def same_config_def assignIPToService_def assign_once_def demo_service_def dest!: names)
qed

lemma demo_room: "2 \<le> card (avail NewNetworkManager {} [10, 0, 0, 1] [10, 0, 0, 6])"
proof -
  have inc: "IncrementIP [10, 0, 0, 1] = [10, 0, 0, 2]" "IncrementIP [10, 0, 0, 2] = [10, 0, 0, 3]" by (simp_all add: go_eval)
  have pool: "pool_list [10, 0, 0, 1] [10, 0, 0, 6] = [10, 0, 0, 1] # [10, 0, 0, 2] # pool_list [10, 0, 0, 3] [10, 0, 0, 6]"
    using pool_list_Cons [of "[10, 0, 0, 1]" "[10, 0, 0, 6]"] pool_list_Cons [of "[10, 0, 0, 2]" "[10, 0, 0, 6]"]
    by (simp add: inc be_simps)
  have str: "IP_String [10, 0, 0, 1] = ''10.0.0.1''" "IP_String [10, 0, 0, 2] = ''10.0.0.2''" by (simp_all add: go_eval)
  have "{''10.0.0.1'', ''10.0.0.2''} \<subseteq> avail NewNetworkManager {} [10, 0, 0, 1] [10, 0, 0, 6]"
    by (simp add: avail_def NewNetworkManager_def pool str)
  from card_mono [OF _ this] show ?thesis by (simp add: avail_def)
qed

section \<open>Properties\<close>

text \<open>C4: consider a configuration without an IPv6 range and without a quota, whose IPv4 range has several addresses of one family and
  does not end at the all-ones address, and a list of services none of which requests an address.  When the client answers every call
  and at least as many addresses of the range are free, within the scan limit, as there are services, the loop reaches its end.  The
  services get different addresses of the range that were free before, each service is given its address, the status records it
  under the name of the service, and the pool holds it.  A service that requests an address is not covered: when its request
  cannot be met, the loop ends there.\<close>

theorem all_services_served:
  assumes "obliging k hc (set svcs) others W" "echoes k" "world s \<in> W []"
    "ParseIPRange (IPRange (Spec hc)) = Inr (start, e)" "length start = length e" "start \<noteq> e" "be_val e + 1 < 256 ^ length e"
    "IPv6Range (Spec hc) = []" "sint (MaxAllocations (Spec hc)) \<le> 0" "\<forall>svc \<in> set svcs. LoadBalancerIP svc = []"
    "length svcs \<le> card (avail (net s) others start e)"
  shows "\<exists>xs hc' s'. process_services k svcs hc s = (None, hc', s') \<and> length xs = length svcs \<and> distinct xs
    \<and> set xs \<subseteq> IP_String ` set (pool_list start e) - held (ipAllocator (net s)) \<and> set xs \<subseteq> held (ipAllocator (net s'))
    \<and> AllocatedIPs (Status hc') = fold (\<lambda>(svc, x). map_set (Svc_Name svc) x) (zip svcs xs) (AllocatedIPs (Status hc))
    \<and> world s' \<in> W (zip svcs xs)"
proof -
  have "same_config hc hc" by (simp add: same_config_def)
  from process_services_serves [OF assms(1,2,4-9) order_refl assms(10) refl this assms(3,11)]
  obtain xs hc' s' where xs: "process_services k svcs hc s = (None, hc', s')" "length xs = length svcs" "distinct xs"
    "set xs \<subseteq> avail (net s) {} start e" "nm_held (net s) \<union> set xs \<subseteq> nm_held (net s')"
    "AllocatedIPs (Status hc') = fold (\<lambda>(svc, x). map_set (Svc_Name svc) x) (zip svcs xs) (AllocatedIPs (Status hc))"
    "world s' \<in> W ([] @ zip svcs xs)" by blast
  have "set xs \<subseteq> IP_String ` set (pool_list start e) - nm_held (net s)"
    using xs(4) set_take_subset [of _ "pool_list start e"] unfolding avail_def by blast
  then show ?thesis using xs by auto
qed

theorem all_services_served_witness:
  "\<exists>x y hc' s'. process_services (demo_k8s False) [demo_service ''web'' [], demo_service ''db'' []]
     ((demo_config ''a'' ''10.0.0.0/29'' [] [])\<lparr>Spec := (Spec (demo_config ''a'' ''10.0.0.0/29'' [] []))\<lparr>MaxAllocations := 0\<rparr>\<rparr>)
     (demo_ctl [] [demo_service ''web'' [], demo_service ''db'' []] NewNetworkManager) = (None, hc', s')
   \<and> x \<noteq> y \<and> AllocatedIPs (Status hc') = [(''web'', x), (''db'', y)] \<and> map Ingress (snd (world s')) = [[x], [y]]"
proof -
  let ?d = "demo_config ''a'' ''10.0.0.0/29'' [] []" and ?svcs = "[demo_service ''web'' [], demo_service ''db'' []]"
  let ?c = "?d\<lparr>Spec := (Spec ?d)\<lparr>MaxAllocations := 0\<rparr>\<rparr>"
  let ?s = "demo_ctl [] ?svcs NewNetworkManager"
  have w: "world ?s \<in> demo_given []" by (simp add: demo_given_def demo_ctl_def demo_service_def)
  have range: "ParseIPRange (IPRange (Spec ?c)) = Inr ([10, 0, 0, 1], [10, 0, 0, 6])" by (simp add: range_10_29)
  have ends: "length [10, 0, 0, 1 :: byte] = length [10, 0, 0, 6 :: byte]" "[10, 0, 0, 1 :: byte] \<noteq> [10, 0, 0, 6]"
    "be_val [10, 0, 0, 6] + 1 < 256 ^ length [10, 0, 0, 6 :: byte]" by (simp_all add: be_simps)
  have spec: "IPv6Range (Spec ?c) = []" "sint (MaxAllocations (Spec ?c)) \<le> 0" "\<forall>svc \<in> set ?svcs. LoadBalancerIP svc = []"
    by (simp_all add: demo_service_def)
  have enough: "length ?svcs \<le> card (avail (net ?s) {} [10, 0, 0, 1] [10, 0, 0, 6])" using demo_room by (simp add: demo_ctl_def)
  obtain xs hc' s' where r: "process_services (demo_k8s False) ?svcs ?c ?s = (None, hc', s')" "length xs = length ?svcs" "distinct xs"
    "AllocatedIPs (Status hc') = fold (\<lambda>(svc, x). map_set (Svc_Name svc) x) (zip ?svcs xs) (AllocatedIPs (Status ?c))"
    "world s' \<in> demo_given (zip ?svcs xs)"
    using all_services_served [OF demo_obliging demo_echoes w range ends spec enough] by (elim exE conjE) (rule that)
  from r(2) obtain x y where xs: "xs = [x, y]" by (auto simp: length_Suc_conv numeral_2_eq_2)
  have out: "x \<noteq> y" "AllocatedIPs (Status hc') = [(''web'', x), (''db'', y)]" "map Ingress (snd (world s')) = [[x], [y]]"
    using r(3-5) unfolding xs by (simp_all add: demo_given_def demo_service_def map_set_def)
  show ?thesis by (intro exI conjI) (rule r(1) out)+
qed

text \<open>The watch handler looks at the IPv4 range only: a service that asks for an address of the IPv6 range is eligible, but
  its changes do not queue the configuration, which has to wait for its periodic reconciliation.\<close>

lemma watch_misses_v6_requests:
  assumes "list_configs k w = (Inr items, w')" "\<forall>c \<in> set items. same_config c hc \<longrightarrow> Spec c = Spec hc"
    "watch_predicate svc" "LoadBalancerClass svc = None" "Ingress svc = []" "NamespaceSelector (Spec hc) = []"
    "LoadBalancerIP svc \<noteq> []" "IPAllocatable (LoadBalancerIP svc) (IPv6Range (Spec hc))"
    "\<not> IPInRange (LoadBalancerIP svc) (IPRange (Spec hc))"
  shows "FilterEligibleServices [svc] (NamespaceSelector (Spec hc)) (IPRange (Spec hc)) [IPv6Range (Spec hc)] = [svc]
    \<and> (Namespace (Meta hc), Name (Meta hc)) \<notin> set (fst (findLoadBalancerServices k svc w))"
proof
  have "IPv6Range (Spec hc) \<noteq> []" using assms(8) by (auto simp: IPAllocatable_def ParseIPRange_empty simp del: ParseIPRange_def split: option.splits)
  then show "FilterEligibleServices [svc] (NamespaceSelector (Spec hc)) (IPRange (Spec hc)) [IPv6Range (Spec hc)] = [svc]"
    using assms(3-8) by (simp add: FilterEligibleServices_filter eligible_def watch_predicate_def)
  show "(Namespace (Meta hc), Name (Meta hc)) \<notin> set (fst (findLoadBalancerServices k svc w))"
    using assms(1,2,7,9) by (fastforce simp: findLoadBalancerServices_def same_config_def)
qed

end
