(* ===== verification/Spec2Isabelle.thy ===== *)
theory Spec2Isabelle
  imports Test_Utils Entry_Point Scan_Loop Go_Net_Text Deep_Copy Webhook Health_Check Reconciler_Progress
begin

text \<open>
  A verification development for helios-lb, a Kubernetes controller that hands out addresses to services of type
  \<^verbatim>\<open>LoadBalancer\<close>.  A \<^verbatim>\<open>HeliosConfig\<close> names a range; the admission webhook checks it, the reconciler finds the services it
  serves, takes addresses from a pool, writes them to the services and records them in the status of the configuration.
  A load balancer with health checks is built at the start beside the controller.

  \<^bold>\<open>The language and its library.\<close>
  \<^item> \<open>Helios_Prelude\<close>: types, the collections \<open>be_simps\<close> and \<open>go_eval\<close>, bytes as numbers, Go maps as association lists.
  \<^item> \<open>Go_Strings\<close>, \<open>Go_Net\<close>, \<open>Go_Net_Text\<close>, \<open>Go_Net_Mask\<close>: what the program uses of \<^verbatim>\<open>strings\<close>, \<^verbatim>\<open>bytes\<close> and \<^verbatim>\<open>net\<close>: parsing
    and printing of addresses, with the round trip of the two, masks and blocks.

  \<^bold>\<open>The program.\<close>
  \<^item> \<open>IP_Range\<close>: \<^verbatim>\<open>internal/network/parse.go\<close>.  Ranges in their three notations, comparison and stepping of addresses.
  \<^item> \<open>IP_Allocator\<close>: \<^verbatim>\<open>internal/network/ip_allocator.go\<close> and \<^verbatim>\<open>network.go\<close>.  The pool; allocation refines the search for the
    first free address, grants are different from each other over every sequence of calls (locale \<open>address_pool\<close>).
  \<^item> \<open>Scan_Loop\<close>: the scan of the pool as a loop, which ends within the scan limit.
  \<^item> \<open>Api_Types\<close>: \<^verbatim>\<open>api/v1/heliosconfig_types.go\<close>.
  \<^item> \<open>Deep_Copy\<close>: \<^verbatim>\<open>api/v1/zz_generated.deepcopy.go\<close> over an explicit memory.  A deep copy has the value of the original and
    shares no memory with it, which is why the other theories may work on values.
  \<^item> \<open>Webhook\<close>: \<^verbatim>\<open>api/v1/heliosconfig_webhook.go\<close>.  What validation accepts, and \<open>admission\<close>, the stores that it can produce whatever
    its client answers, also when \<^verbatim>\<open>List\<close> fails and the overlap check is skipped: configurations that were validated against the
    store have disjoint ranges.
  \<^item> \<open>Metrics\<close>: \<^verbatim>\<open>internal/metrics/metrics.go\<close>.  The vectors and the recorder, as operations that may panic.
  \<^item> \<open>Load_Balancer\<close>: \<^verbatim>\<open>internal/loadbalancer\<close> without the health checks.  The five algorithms behind one contract
    (locales \<open>algorithm_contract\<close>, \<open>healthy_algorithm\<close>); fairness of the two cyclic ones (locale \<open>cyclic_choice\<close>).
  \<^item> \<open>Health_Check\<close>: \<^verbatim>\<open>internal/loadbalancer/health.go\<close> and \<^verbatim>\<open>Stop\<close>.  A round of checks, and the interleavings of the check
    loop, its checks and the callers of \<^verbatim>\<open>Stop\<close> as the step relation \<open>lc_step\<close>.
  \<^item> \<open>Controller_Errors\<close>, \<open>Service_Filter\<close>: \<^verbatim>\<open>internal/controller/errors.go\<close> and \<^verbatim>\<open>service_filter.go\<close>.
  \<^item> \<open>IP_Manager\<close>: \<^verbatim>\<open>internal/controller/ip_manager.go\<close>.  Allocation with rollback, release, conflicts, quota.
  \<^item> \<open>Reconciler\<close>: \<^verbatim>\<open>internal/controller/heliosconfig_controller.go\<close>.  \<^verbatim>\<open>Reconcile\<close> is cut into the pieces
    \<open>ensure_finalizer\<close>, \<open>handleDeletion\<close>, \<open>reconcile_services\<close>, \<open>process_services\<close> and \<open>deferred_metrics\<close>, composed as in the code.
  \<^item> \<open>Reconciler_Properties\<close>: the quota, the recorded addresses, the outcomes, the deletion.
  \<^item> \<open>Reconciler_Progress\<close>: services that request no address are all served, each with an address of its own.
  \<^item> \<open>Controller_Run\<close>: reconciliations one after the other from an empty pool.  The metrics never panic, and as long as the ranges have
    more than one address, the allocation metric never claims an address that the pool does not hold.
  \<^item> \<open>Entry_Point\<close>: \<^verbatim>\<open>cmd/main.go\<close> and \<^verbatim>\<open>api/v1/groupversion_info.go\<close>.  The flags and their parsing, the options and objects built from
    them, and the startup with every exit: a started manager has what the command line asks for.  The pool built here is the one
    that \<open>Controller_Run\<close> starts from.
  \<^item> \<open>Test_Utils\<close>: \<^verbatim>\<open>test/utils/utils.go\<close>, the helpers of the end-to-end tests, over a parameter \<open>OS\<close> for the operating system.
    Uncommenting gives commented lines back; the tools count as installed exactly when their names are in the output.
  \<^item> This theory: admission and reconciliation together.

  \<^bold>\<open>State.\<close>  The controller is the record \<open>ctl\<close>: the world of the API server, the pool, the metric operations and the events so
  far.  The Kubernetes libraries are the record \<open>K8s\<close>, a parameter: every call may fail and may change the world, so nothing is
  assumed about other actors.  Where a property needs more, its hypotheses say so: \<open>echoes\<close> (the server answers an update with
  what was sent) and \<open>obliging\<close> (every call is answered).  \<open>demo_k8s\<close> is a small server that satisfies them, on which the
  properties are evaluated.

  \<^bold>\<open>Bounds.\<close>  The scan of the allocator ends by its own limit \<^verbatim>\<open>maxScan\<close>, which is the measure of its recursion; no definition
  needs fuel.  \<^verbatim>\<open>int32\<close> and \<^verbatim>\<open>uint32\<close> are words, \<^verbatim>\<open>int\<close> is reduced to 64 bits where it is added up (\<open>wrap64\<close>).

  \<^bold>\<open>Not modelled.\<close>
  \<^item> What the manager, the scheme and the servers of the libraries do: their calls are steps of the startup that may fail.
    \<^verbatim>\<open>SetupWithManager\<close> (but for its predicate) and \<^verbatim>\<open>SetupWebhookWithManager\<close> only pass values to such calls.
  \<^item> The flags that libraries define (a parameter of the flag set), and all logging, with the names in \<^verbatim>\<open>log_keys.go\<close>.
  \<^item> The locks of the pool and of the balancer: their critical sections are single steps.  The order in which Go ranges over a
    map is the order of the association list that models it.
\<close>

section \<open>Admission and reconciliation\<close>

definition v4_range :: "string \<Rightarrow> bool" where
  "v4_range r = (case ParseIPRange r of Inl _ \<Rightarrow> False | Inr (s, e) \<Rightarrow> length s = 4 \<and> length e = 4 \<and> s \<le> e)"

lemma v4_range_plain: "v4_range r \<Longrightarrow> plain_range r"
  by (auto simp: v4_range_def plain_range_def split: sum.splits)

lemma IPInRange_v4:
  assumes "v4_range r" "\<not> Contains r (CHR ''/'')" "length a = 4" "IPInRange (IP_String a) r"
  shows "a \<in> range_set r"
proof -
  obtain s e where r: "ParseIPRange r = Inr (s, e)" "length s = 4" "length e = 4" "s \<le> e"
    using assms(1) by (auto simp: v4_range_def split: sum.splits)
  have "IPAllocatable (IP_String a) r"
    using assms(2,4) by (simp add: IPInRange_def IPAllocatable_def split: option.splits)
  then have "s \<le> a \<and> a \<le> e" using IPAllocatable_String [of a r s e] assms(3) r by simp
  then show ?thesis using r assms(3) by (simp add: range_set_def in_pool_list)
qed

lemma range_dash: "ParseIPRange ''10.0.0.1-10.0.0.6'' = Inr ([10, 0, 0, 1], [10, 0, 0, 6])"
  by (simp add: go_eval)

lemma range_single_7: "ParseIPRange ''10.0.0.7'' = Inr ([10, 0, 0, 7], [10, 0, 0, 7])"
  by (simp add: go_eval)

lemma demo_admitted:
  assumes "ParseIPRange r = Inr ([10, 0, 0, 1], [10, 0, 0, 6])"
  shows "admitted [demo_config ''b'' ''10.0.0.7'' [] ips, demo_config ''a'' r [] ips']"
proof -
  have "validateSpec (Some (Some [])) (demo_config ''a'' r [] ips') [] = None"
    "validateSpec (Some (Some [demo_config ''a'' r [] ips'])) (demo_config ''b'' ''10.0.0.7'' [] ips) [] = None"
    unfolding validateSpec_iff_parts
    by (simp_all add: demo_config_def validateIPRange_iff assms range_single_7 checkIPRangeOverlap_def
        overlapForRange_def CompareIPs_le CompareIPs_ge validatePorts_def validateWeights_def validateHealthCheck_def)
  then show ?thesis
    using admission_two [of "Some (Some [])" "demo_config ''a'' r [] ips'" "Some (Some [demo_config ''a'' r [] ips'])"
        "demo_config ''b'' ''10.0.0.7'' [] ips"]
    by (simp add: admitted_def ValidateCreate_def unseen_def config_key_def)
qed

section \<open>Properties\<close>

text \<open>C10: admission and the conflict check agree on IPv4 ranges that are not written as blocks: in a store that admission can
  produce, whose configurations were all last validated against the store and have names that are unique over the namespaces,
  and in which every configuration records addresses of its own range only, the check finds nothing for such a
  configuration, so the reconciliation of its services is not held up.\<close>

theorem admitted_no_conflicts:
  assumes "admitted items" "hc \<in> set items" "list_configs k (world s) = (Inr items, w)"
    "\<not> Contains (IPRange (Spec hc)) (CHR ''/'')" "IPv6Range (Spec hc) = []"
    "\<forall>c \<in> set items. v4_range (IPRange (Spec c)) \<and> snd ` set (AllocatedIPs (Status c)) \<subseteq> IP_String ` range_set (IPRange (Spec c))"
  shows "CheckIPConflicts k hc s = (Inr [], s\<lparr>world := w\<rparr>)"
proof -
  have "conflicting hc other = {}" if other: "other \<in> set items" for other
  proof (rule ccontr)
    assume "conflicting hc other \<noteq> {}"
    then obtain x where x: "x \<in> snd ` set (AllocatedIPs (Status other))" "IPInRange x (IPRange (Spec hc))" "\<not> same_config other hc"
      using assms(5) by (auto simp: conflicting_def split: if_splits)
    have v4: "v4_range (IPRange (Spec other))" "v4_range (IPRange (Spec hc))" using assms(2,6) other by blast+
    obtain a where a: "x = IP_String a" "a \<in> range_set (IPRange (Spec other))" using assms(6) other x(1) by blast
    have "length a = 4" using a(2) v4(1) by (auto simp: v4_range_def range_set_def pool_list_length split: sum.splits)
    then have "a \<in> range_set (IPRange (Spec hc))" using IPInRange_v4 [OF v4(2) assms(4)] x(2) a(1) by blast
    moreover have "Name (Meta hc) \<noteq> Name (Meta other)"
      using admitted_unique [OF assms(1,2) other] x(3) by (auto simp: same_config_def)
    then have "ranges_disjoint False hc other" by (rule admitted_pairs [OF assms(1,2) other])
    then have "range_set (IPRange (Spec hc)) \<inter> range_set (IPRange (Spec other)) = {}"
      using v4_range_plain [OF v4(1)] v4_range_plain [OF v4(2)] by (simp add: ranges_disjoint_def cfg_range_def)
    ultimately show False using a(2) by blast
  qed
  then have "fst ` set (collect_conflicts hc items) = {}" unfolding collect_conflicts_keys by simp
  then show ?thesis using assms(3) by (simp add: CheckIPConflicts_def)
qed

theorem admitted_no_conflicts_witness:
  "fst (CheckIPConflicts (demo_k8s False) (demo_config ''a'' ''10.0.0.1-10.0.0.6'' [] [])
     (demo_ctl [demo_config ''b'' ''10.0.0.7'' [] [(''db'', ''10.0.0.7'')], demo_config ''a'' ''10.0.0.1-10.0.0.6'' [] []] [] NewNetworkManager))
   = Inr []"
proof -
  let ?a = "demo_config ''a'' ''10.0.0.1-10.0.0.6'' [] []" and ?b = "demo_config ''b'' ''10.0.0.7'' [] [(''db'', ''10.0.0.7'')]"
  have "''10.0.0.7'' = IP_String [10, 0, 0, 7]" by (simp add: go_eval)
  moreover have "[10, 0, 0, 7] \<in> range_set ''10.0.0.7''" by (simp add: range_set_def range_single_7 first_in_pool)
  ultimately have "''10.0.0.7'' \<in> IP_String ` range_set ''10.0.0.7''" by blast
  then show ?thesis
    using admitted_no_conflicts [OF demo_admitted [OF range_dash, of "[(''db'', ''10.0.0.7'')]" "[]"], of ?a "demo_k8s False",
        OF _ demo_list [of False "[?b, ?a]" "[]" NewNetworkManager]]
    by (simp add: v4_range_def range_dash range_single_7)
qed

text \<open>C38: for an IPv4 block the two disagree.  The broadcast address of a block is not in the range that admission compares,
  so a second configuration may own it; once it is assigned there, every reconciliation of the block's configuration finds
  a conflict and serves no service.\<close>

theorem admission_allows_conflict:
  "admitted [demo_config ''b'' ''10.0.0.7'' [] [(''db'', ''10.0.0.7'')], demo_config ''a'' ''10.0.0.0/29'' [] []]
   \<and> fst (AllocateIP NewIPAllocator ''10.0.0.7'') = Inr ''10.0.0.7''
   \<and> fst (reconcile_services (demo_k8s False) (demo_config ''a'' ''10.0.0.0/29'' [] [])
       (demo_ctl [demo_config ''b'' ''10.0.0.7'' [] [(''db'', ''10.0.0.7'')], demo_config ''a'' ''10.0.0.0/29'' [] []] services m))
     = (\<lparr>RequeueAfter = 30\<rparr>, None)"
proof (intro conjI)
  let ?a = "demo_config ''a'' ''10.0.0.0/29'' [] []" and ?b = "demo_config ''b'' ''10.0.0.7'' [] [(''db'', ''10.0.0.7'')]"
  let ?s = "demo_ctl [?b, ?a] services m"
  show "admitted [?b, ?a]" by (rule demo_admitted [OF range_10_29])
  show "fst (AllocateIP NewIPAllocator ''10.0.0.7'') = Inr ''10.0.0.7''"
    by (simp add: AllocateIP_def range_single_7 IP_Equal_def) (simp add: go_eval)
  have in_range: "IPInRange ''10.0.0.7'' ''10.0.0.0/29''" by (simp add: go_eval)
  have "list_services (demo_k8s False) (world ?s) = (Inr services, ([?b, ?a], services))"
    "list_configs (demo_k8s False) ([?b, ?a], services) = (Inr [?b, ?a], ([?b, ?a], services))"
    by (simp_all add: demo_k8s_def demo_ctl_def)
  from conflict_blocks_services [OF this, of ?b ?a "''10.0.0.7''"] in_range
  show "fst (reconcile_services (demo_k8s False) ?a ?s) = (\<lparr>RequeueAfter = 30\<rparr>, None)"
    by (auto simp: same_config_def)
qed

end
